(* ===== verification/BC_Prelude.thy ===== *)
theory BC_Prelude
  imports Main "HOL-Library.Word"
begin

text \<open>
  Shared vocabulary of the development: the C integer types of
  \<^verbatim>\<open>headers/bytecode_types.h\<close> as words, the result type of fallible operations,
  byte lists, and the generic lemmas on lists, options and words that the components use.
\<close>

unbundle bit_operations_syntax

named_theorems bc_defs \<open>definitions of operations that proofs unfold together\<close>
named_theorems bytes_simps \<open>how byte lists and words convert into each other\<close>
named_theorems emit_simps \<open>what an emitting operation appends to its output\<close>

section \<open>C integer types\<close>

text \<open>
  \<^verbatim>\<open>headers/bytecode_types.h\<close>: the fixed-width integers. Signed and unsigned types of
  one width share the word type; a signed reading is written with \<open>sint\<close>, signed
  comparisons with \<open><s\<close> and \<open>\<le>s\<close>.
\<close>

type_synonym uint8_t = "8 word"
type_synonym int8_t = "8 word"
type_synonym uint16_t = "16 word"
type_synonym int16_t = "16 word"
type_synonym uint32_t = "32 word"
type_synonym int32_t = "32 word"
type_synonym uint64_t = "64 word"
type_synonym int64_t = "64 word"
type_synonym size_t = "32 word"
type_synonym off_t = "32 word"
type_synonym uintptr_t = "64 word"
type_synonym intptr_t = "64 word"
type_synonym bytes = "8 word list"

section \<open>Results of C code\<close>

text \<open>
  \<open>Undefined\<close> is behaviour the C standard does not define (an access outside an object,
  a division by zero); \<open>Ret\<close> is a value the code returns.
\<close>

datatype 'a c_result = Undefined | Ret 'a

section \<open>Bounds-checked access\<close>

definition nth_opt :: "'a list \<Rightarrow> nat \<Rightarrow> 'a option" where
  "nth_opt xs i = (if i < length xs then Some (xs ! i) else None)"

lemma nth_opt_Some_iff [simp]: "nth_opt xs i = Some x \<longleftrightarrow> i < length xs \<and> xs ! i = x"
  by (auto simp: nth_opt_def)

lemma nth_opt_None_iff [simp]: "nth_opt xs i = None \<longleftrightarrow> length xs \<le> i"
  by (auto simp: nth_opt_def)

lemma nth_opt_in_range: "i < length xs \<Longrightarrow> nth_opt xs i = Some (xs ! i)"
  by (simp add: nth_opt_def)

section \<open>Words as little-endian byte lists\<close>

text \<open>
  \<open>bytes_le n v\<close> are the \<open>n\<close> low bytes of \<open>v\<close>, least significant first;
  \<open>word_le\<close> reads such a list back. They describe how a word lies in memory.
\<close>

fun bytes_le :: "nat \<Rightarrow> 'a::len word \<Rightarrow> bytes" where
  "bytes_le 0 v = []"
| "bytes_le (Suc n) v = ucast v # bytes_le n (drop_bit 8 v)"

fun word_le :: "bytes \<Rightarrow> 'a::len word" where
  "word_le [] = 0"
| "word_le (b # bs) = ucast b OR push_bit 8 (word_le bs)"

lemma length_bytes_le [simp, bytes_simps]: "length (bytes_le n v) = n"
  by (induction n arbitrary: v) auto

lemma nth_bytes_le [bytes_simps]:
  "k < n \<Longrightarrow> bytes_le n v ! k = ucast (drop_bit (8 * k) v)"
proof (induction n arbitrary: v k)
  case 0
  then show ?case by simp
next
  case (Suc n)
  show ?case
  proof (cases k)
    case 0
    then show ?thesis by simp
  next
    case (Suc m)
    with Suc.prems Suc.IH[of m "drop_bit 8 v"] show ?thesis
      by (simp add: drop_bit_drop_bit add.commute)
  qed
qed

lemma bit_word_le [bytes_simps]:
  "bit (word_le bs :: 'a::len word) i \<longleftrightarrow>
     i < LENGTH('a) \<and> i div 8 < length bs \<and> bit (bs ! (i div 8)) (i mod 8)"
proof (induction bs arbitrary: i)
  case Nil
  then show ?case by simp
next
  case (Cons b bs)
  show ?case
  proof (cases "i < 8")
    case True
    then show ?thesis by (auto simp: bit_simps)
  next
    case False
    then have "i div 8 = Suc ((i - 8) div 8)" and "(i - 8) mod 8 = i mod 8"
      by (simp_all add: le_div_geq le_mod_geq)
    with False Cons.IH[of "i - 8"] show ?thesis
      by (auto simp: bit_simps dest: bit_imp_le_length)
  qed
qed

lemma word_le_bytes_le:
  "LENGTH('a::len) \<le> 8 * n \<Longrightarrow> word_le (bytes_le n v) = (v :: 'a word)"
  by (rule bit_word_eqI) (auto simp: bytes_simps bit_simps less_mult_imp_div_less mult.commute)

lemma bytes_le_word_le:
  assumes "8 * n \<le> LENGTH('a::len)" and "length bs = n"
  shows "bytes_le n (word_le bs :: 'a word) = bs"
proof (rule nth_equalityI)
  show "length (bytes_le n (word_le bs :: 'a word)) = length bs"
    using assms by simp
next
  fix k assume "k < length (bytes_le n (word_le bs :: 'a word))"
  then have k: "k < n" by simp
  show "bytes_le n (word_le bs :: 'a word) ! k = bs ! k"
  proof (rule bit_word_eqI)
    fix j assume j: "j < LENGTH(8)"
    have "(8 * k + j) div 8 = k" and "(8 * k + j) mod 8 = j" and "8 * k + j < LENGTH('a)"
      using j k assms(1) by auto
    with j k assms(2) show "bit (bytes_le n (word_le bs :: 'a word) ! k) j = bit (bs ! k) j"
      by (simp add: bytes_simps bit_simps)
  qed
qed

lemma bytes_le_eqI:
  "bytes_le n v = bytes_le n w \<Longrightarrow> LENGTH('a::len) \<le> 8 * n \<Longrightarrow> v = (w :: 'a word)"
  by (metis word_le_bytes_le)

lemma take_bytes_le: "n \<le> m \<Longrightarrow> take n (bytes_le m v) = bytes_le n v"
  by (rule nth_equalityI) (simp_all add: nth_bytes_le)

lemma drop_bytes_le: "n \<le> m \<Longrightarrow> drop n (bytes_le m v) = bytes_le (m - n) (drop_bit (8 * n) v)"
  by (rule nth_equalityI) (simp_all add: nth_bytes_le drop_bit_drop_bit add.commute distrib_left)

lemma bytes_le_ucast:
  assumes "8 * n \<le> LENGTH('b::len)"
  shows "bytes_le n (ucast v :: 'b word) = bytes_le n (v :: 'a::len word)"
proof (rule nth_equalityI)
  fix k assume "k < length (bytes_le n (ucast v :: 'b word))"
  then have "k < n" by simp
  with assms show "bytes_le n (ucast v :: 'b word) ! k = bytes_le n v ! k"
    by (auto simp: nth_bytes_le bit_simps intro!: bit_word_eqI dest: bit_imp_le_length)
qed simp

lemma bytes_le_zero_extend:
  assumes "8 * n = LENGTH('a::len)" and "8 * (n + k) \<le> LENGTH('b::len)"
  shows "bytes_le (n + k) (ucast (v :: 'a word) :: 'b word) = bytes_le n v @ replicate k 0"
proof (rule nth_equalityI)
  fix i assume "i < length (bytes_le (n + k) (ucast v :: 'b word))"
  then have i: "i < n + k" by simp
  show "bytes_le (n + k) (ucast v :: 'b word) ! i = (bytes_le n v @ replicate k 0) ! i"
  proof (cases "i < n")
    case True
    with i assms show ?thesis
      by (auto simp: nth_bytes_le nth_append bit_simps intro!: bit_word_eqI dest: bit_imp_le_length)
  next
    case False
    then have "\<not> bit v (8 * i + j)" for j
      using assms(1) by (auto dest: bit_imp_le_length)
    with False i show ?thesis
      by (auto simp: nth_bytes_le nth_append bit_simps intro!: bit_word_eqI)
  qed
qed simp

lemma bytes_le_push_bit:
  assumes "8 * (n + k) \<le> LENGTH('a::len)"
  shows "bytes_le (n + k) (push_bit (8 * k) (v :: 'a word)) = replicate k 0 @ bytes_le n v"
proof (rule nth_equalityI)
  fix i assume "i < length (bytes_le (n + k) (push_bit (8 * k) v))"
  then have i: "i < n + k" by simp
  show "bytes_le (n + k) (push_bit (8 * k) v) ! i = (replicate k 0 @ bytes_le n v) ! i"
  proof (cases "i < k")
    case True
    with i show ?thesis
      by (auto simp: nth_bytes_le nth_append bit_simps intro!: bit_word_eqI)
  next
    case False
    then have "8 * i = 8 * k + 8 * (i - k)" by simp
    with False i assms show ?thesis
      by (auto simp: nth_bytes_le nth_append bit_simps intro!: bit_word_eqI)
  qed
qed simp

section \<open>Signed values\<close>

lemma sint_value:
  "sint (w :: 'a::len word) =
     (if uint w < 2 ^ (LENGTH('a) - 1) then uint w else uint w - 2 ^ LENGTH('a))"
proof -
  let ?h = "2 ^ (LENGTH('a) - 1) :: int"
  have full: "2 ^ LENGTH('a) = 2 * ?h"
    by (metis One_nat_def Suc_pred len_gt_0 power_Suc)
  have range: "- ?h \<le> sint w" "sint w < ?h"
    by (rule sint_ge, rule sint_lt)
  have u: "uint w = sint w mod (2 * ?h)"
    unfolding full[symmetric] by (simp add: uint_sint take_bit_eq_mod)
  show ?thesis
  proof (cases "0 \<le> sint w")
    case True
    with range u show ?thesis by simp
  next
    case False
    then have "(sint w + 2 * ?h) mod (2 * ?h) = sint w + 2 * ?h"
      using range by (intro mod_pos_pos_trivial) auto
    then have "sint w mod (2 * ?h) = sint w + 2 * ?h"
      by (simp only: mod_add_self2)
    with range u show ?thesis by (simp add: full)
  qed
qed

section \<open>Narrowing\<close>

lemma ucast_ucast_small:
  "unat (v :: 'a::len word) < 2 ^ LENGTH('b::len) \<Longrightarrow> ucast (ucast v :: 'b word) = v"
  by (rule unsigned_word_eqI[where 'a = nat])
    (simp add: unsigned_ucast_eq take_bit_nat_eq_self unsigned_take_bit_eq)

section \<open>Decimal numbers\<close>

text \<open>An unsigned number in decimal, as C and LLVM print it, and its reading.\<close>

fun decimal :: "nat \<Rightarrow> string" where
  "decimal n = (if n < 10 then [char_of (48 + n)] else decimal (n div 10) @ [char_of (48 + n mod 10)])"

declare decimal.simps [simp del]

definition isdigit :: "char \<Rightarrow> bool" where
  "isdigit c \<longleftrightarrow> 48 \<le> (of_char c :: nat) \<and> (of_char c :: nat) \<le> 57"

definition decimal_value :: "string \<Rightarrow> nat" where
  "decimal_value s = foldl (\<lambda>n c. 10 * n + (of_char c - 48)) 0 s"

lemma digit_char:
  assumes "n < 10"
  shows "isdigit (char_of (48 + n))" "of_char (char_of (48 + n) :: char) - (48 :: nat) = n"
  using assms by (simp_all add: isdigit_def)

lemma decimal_not_Nil [simp]: "decimal n \<noteq> []"
  by (subst decimal.simps) simp

lemma decimal_digits: "list_all isdigit (decimal n)"
proof (induction n rule: decimal.induct)
  case (1 n)
  then show ?case by (subst decimal.simps) (simp add: digit_char(1) del: of_char_of)
qed

lemma decimal_value_decimal [simp]: "decimal_value (decimal n) = n"
proof (induction n rule: decimal.induct)
  case (1 n)
  have d: "of_char (char_of (48 + n mod 10) :: char) - (48 :: nat) = n mod 10" by (rule digit_char(2)) simp
  show ?case
  proof (cases "n < 10")
    case True
    then show ?thesis using digit_char(2)[OF True] by (simp add: decimal.simps[of n] decimal_value_def)
  next
    case False
    then show ?thesis
      using 1 d by (simp add: decimal.simps[of n] decimal_value_def mult.commute)
  qed
qed

lemma takeWhile_decimal:
  assumes "rest = [] \<or> \<not> isdigit (hd rest)"
  shows "takeWhile isdigit (decimal n @ rest) = decimal n" "dropWhile isdigit (decimal n @ rest) = rest"
  using assms decimal_digits[of n]
  by (cases rest; simp add: list_all_iff takeWhile_append2 dropWhile_append2)+

end
