(* ===== verification/BC_Endian.thy ===== *)
theory BC_Endian
  imports BC_Prelude
begin

text \<open>
  Byte order: the conversion helpers of \<^verbatim>\<open>headers/bytecode_local.h\<close>
  (\<^verbatim>\<open>le32_to_host\<close> to \<^verbatim>\<open>cli_writeint32\<close>). The host's byte order, which
  \<^verbatim>\<open>__is_bigendian()\<close> reports, is a parameter \<open>be\<close>. Memory is a byte list and
  \<open>host_load\<close>, \<open>host_store\<close> are what a C load or store of a multi-byte integer does on
  such a host. The theorems say that the helpers read and write little-endian integers on
  either host.
\<close>

section \<open>Loads, stores and byte swaps of the host\<close>

definition host_store :: "bool \<Rightarrow> nat \<Rightarrow> 'a::len word \<Rightarrow> bytes" where
  "host_store be n v = (if be then rev (bytes_le n v) else bytes_le n v)"

definition host_load :: "bool \<Rightarrow> bytes \<Rightarrow> 'a::len word" where
  "host_load be bs = word_le (if be then rev bs else bs)"

definition bswap32 :: "uint32_t \<Rightarrow> uint32_t" where
  "bswap32 v = word_le (rev (bytes_le 4 v))"

definition bswap64 :: "uint64_t \<Rightarrow> uint64_t" where
  "bswap64 v = word_le (rev (bytes_le 8 v))"

text \<open>\<^verbatim>\<open>((v & 0xff) << 8) | ((v >> 8) & 0xff)\<close>, computed in \<^verbatim>\<open>int\<close> and truncated.\<close>

definition swap16 :: "uint16_t \<Rightarrow> uint16_t" where
  "swap16 v = (let w = (ucast v :: 32 word)
     in ucast (push_bit 8 (w AND 0xff) OR (drop_bit 8 w AND 0xff)))"

section \<open>The conversion helpers\<close>

definition le32_to_host :: "bool \<Rightarrow> uint32_t \<Rightarrow> uint32_t" where
  "le32_to_host be v = (let swapped = bswap32 v in if be then swapped else v)"

definition be32_to_host :: "bool \<Rightarrow> uint32_t \<Rightarrow> uint32_t" where
  "be32_to_host be v = (let swapped = bswap32 v in if be then v else swapped)"

definition le64_to_host :: "bool \<Rightarrow> uint64_t \<Rightarrow> uint64_t" where
  "le64_to_host be v = (let swapped = bswap64 v in if be then swapped else v)"

definition be64_to_host :: "bool \<Rightarrow> uint64_t \<Rightarrow> uint64_t" where
  "be64_to_host be v = (let swapped = bswap64 v in if be then v else swapped)"

definition le16_to_host :: "bool \<Rightarrow> uint16_t \<Rightarrow> uint16_t" where
  "le16_to_host be v = (let swapped = swap16 v in if be then swapped else v)"

definition be16_to_host :: "bool \<Rightarrow> uint16_t \<Rightarrow> uint16_t" where
  "be16_to_host be v = (let swapped = swap16 v in if be then v else swapped)"

text \<open>
  The unaligned accesses go through the packed unions; \<open>None\<close> is an access past the end of
  the buffer. The loads read the signed member and convert it to the unsigned type, which
  keeps the bits.
\<close>

datatype unaligned_32 = Una_u32 uint32_t | Una_s32 int32_t
datatype unaligned_16 = Una_u16 uint16_t | Una_s16 int16_t

fun unaligned_32_bits :: "unaligned_32 \<Rightarrow> uint32_t" where
  "unaligned_32_bits (Una_u32 v) = v"
| "unaligned_32_bits (Una_s32 v) = v"

fun unaligned_16_bits :: "unaligned_16 \<Rightarrow> uint16_t" where
  "unaligned_16_bits (Una_u16 v) = v"
| "unaligned_16_bits (Una_s16 v) = v"

definition cli_readint32 :: "bool \<Rightarrow> bytes \<Rightarrow> nat \<Rightarrow> uint32_t option" where
  "cli_readint32 be buff off =
     (if off + 4 \<le> length buff
      then Some (le32_to_host be (unaligned_32_bits (Una_s32 (host_load be (take 4 (drop off buff))))))
      else None)"

definition cli_readint16 :: "bool \<Rightarrow> bytes \<Rightarrow> nat \<Rightarrow> uint16_t option" where
  "cli_readint16 be buff off =
     (if off + 2 \<le> length buff
      then Some (le16_to_host be (unaligned_16_bits (Una_s16 (host_load be (take 2 (drop off buff))))))
      else None)"

definition cli_writeint32 :: "bool \<Rightarrow> bytes \<Rightarrow> nat \<Rightarrow> uint32_t \<Rightarrow> bytes option" where
  "cli_writeint32 be buff off v =
     (if off + 4 \<le> length buff
      then Some (take off buff
             @ host_store be 4 (unaligned_32_bits (Una_u32 (le32_to_host be v)))
             @ drop (off + 4) buff)
      else None)"

section \<open>Byte swaps reverse the bytes and are involutions\<close>

lemma bytes_bswap32: "bytes_le 4 (bswap32 v) = rev (bytes_le 4 v)"
  by (simp add: bswap32_def bytes_le_word_le)

lemma bytes_bswap64: "bytes_le 8 (bswap64 v) = rev (bytes_le 8 v)"
  by (simp add: bswap64_def bytes_le_word_le)

lemma bswap32_bswap32 [simp]: "bswap32 (bswap32 v) = v"
  unfolding bswap32_def[of "bswap32 v"] by (simp add: bytes_bswap32 word_le_bytes_le)

lemma bswap64_bswap64 [simp]: "bswap64 (bswap64 v) = v"
  unfolding bswap64_def[of "bswap64 v"] by (simp add: bytes_bswap64 word_le_bytes_le)

lemma swap16_eq: "swap16 v = word_le (rev (bytes_le 2 v))"
proof -
  have bs: "rev (bytes_le 2 v) = [ucast (drop_bit 8 v), ucast v]"
    by (simp add: numeral_2_eq_2)
  have m: "(0xff :: 32 word) = mask 8"
    by (simp add: mask_eq_exp_minus_1)
  show ?thesis
    unfolding bs swap16_def Let_def m
    by (rule bit_word_eqI) (auto simp: bit_simps)
qed

lemma bytes_swap16: "bytes_le 2 (swap16 v) = rev (bytes_le 2 v)"
  by (simp add: swap16_eq bytes_le_word_le)

lemma swap16_swap16 [simp]: "swap16 (swap16 v) = v"
  unfolding swap16_eq[of "swap16 v"] by (simp add: bytes_swap16 word_le_bytes_le)

lemmas bswap_bytes [bytes_simps] = bytes_bswap32 bytes_bswap64 bytes_swap16

section \<open>A contract for host byte-order conversion\<close>

text \<open>
  One width's pair of helpers: converting is undone by converting again, and converting
  what the host loads from little-endian (big-endian) memory gives the number the bytes
  spell in that order, whatever the host.
\<close>

locale byte_order =
  fixes width :: nat
    and le_to_host :: "bool \<Rightarrow> 'a::len word \<Rightarrow> 'a word"
    and be_to_host :: "bool \<Rightarrow> 'a word \<Rightarrow> 'a word"
  assumes width_len: "8 * width = LENGTH('a)"
    and le_host: "le_to_host False v = v"
    and le_swap: "bytes_le width (le_to_host True v) = rev (bytes_le width v)"
    and be_flip: "be_to_host be v = le_to_host (\<not> be) v"
begin

lemma le_involution: "le_to_host be (le_to_host be v) = v"
proof (cases be)
  case True
  have "bytes_le width (le_to_host True (le_to_host True v)) = bytes_le width v"
    by (simp add: le_swap)
  then have "(word_le (bytes_le width (le_to_host True (le_to_host True v))) :: 'a word)
      = word_le (bytes_le width v)"
    by simp
  with True show ?thesis by (simp add: word_le_bytes_le width_len)
qed (simp add: le_host)

lemma be_involution: "be_to_host be (be_to_host be v) = v"
  by (simp add: be_flip le_involution)

lemma le_bytes_of_host:
  "length bs = width \<Longrightarrow> bytes_le width (le_to_host be (host_load be bs)) = bs"
  by (cases be) (simp_all add: le_host le_swap host_load_def bytes_le_word_le width_len)

lemma le_load: "length bs = width \<Longrightarrow> le_to_host be (host_load be bs) = word_le bs"
  using le_bytes_of_host[of bs be] by (metis width_len word_le_bytes_le order_refl)

lemma be_load: "length bs = width \<Longrightarrow> be_to_host be (host_load be bs) = word_le (rev bs)"
  using le_load[of "rev bs" "\<not> be"] by (cases be) (simp_all add: be_flip host_load_def)

lemma le_store: "host_store be width (le_to_host be v) = bytes_le width v"
  by (cases be) (simp_all add: host_store_def le_host le_swap)

end

interpretation bo32: byte_order 4 le32_to_host be32_to_host
  by unfold_locales (simp_all add: le32_to_host_def be32_to_host_def bytes_simps)

interpretation bo64: byte_order 8 le64_to_host be64_to_host
  by unfold_locales (simp_all add: le64_to_host_def be64_to_host_def bytes_simps)

interpretation bo16: byte_order 2 le16_to_host be16_to_host
  by unfold_locales (simp_all add: le16_to_host_def be16_to_host_def bytes_simps)

section \<open>Reading and writing little-endian integers\<close>

lemma cli_readint32_value:
  "off + 4 \<le> length buff \<Longrightarrow> cli_readint32 be buff off = Some (word_le (take 4 (drop off buff)))"
  by (simp add: cli_readint32_def bo32.le_load)

lemma cli_readint16_value:
  "off + 2 \<le> length buff \<Longrightarrow> cli_readint16 be buff off = Some (word_le (take 2 (drop off buff)))"
  by (simp add: cli_readint16_def bo16.le_load)

lemma cli_readint_out_of_range:
  "length buff < off + 4 \<Longrightarrow> cli_readint32 be buff off = None"
  "length buff < off + 2 \<Longrightarrow> cli_readint16 be buff off = None"
  "length buff < off + 4 \<Longrightarrow> cli_writeint32 be buff off v = None"
  by (simp_all add: cli_readint32_def cli_readint16_def cli_writeint32_def)

lemma cli_writeint32_value:
  "off + 4 \<le> length buff \<Longrightarrow>
     cli_writeint32 be buff off v = Some (take off buff @ bytes_le 4 v @ drop (off + 4) buff)"
  by (simp add: cli_writeint32_def bo32.le_store)

text \<open>
  storing a 32-bit value with \<^verbatim>\<open>cli_writeint32\<close> on a host of one byte order and
  reading it with \<^verbatim>\<open>cli_readint32\<close> on a host of any byte order gives the value back,
  keeps the length of the buffer and leaves every other byte as it was.
\<close>

theorem write_read_int32:
  assumes "off + 4 \<le> length buff"
  shows "\<exists>buff'. cli_writeint32 be buff off v = Some buff'
     \<and> length buff' = length buff
     \<and> cli_readint32 be' buff' off = Some v
     \<and> take off buff' = take off buff \<and> drop (off + 4) buff' = drop (off + 4) buff"
proof -
  let ?b = "take off buff @ bytes_le 4 v @ drop (off + 4) buff"
  have "take 4 (drop off ?b) = bytes_le 4 v" using assms by simp
  then have "cli_readint32 be' ?b off = Some v"
    using assms by (simp add: cli_readint32_value word_le_bytes_le)
  with assms show ?thesis by (simp add: cli_writeint32_value)
qed

theorem write_read_int32_witness:
  "\<exists>buff'. cli_writeint32 True [1, 2, 3, 4, 5, 6] 1 0xAABBCCDD = Some buff'
     \<and> length buff' = 6 \<and> cli_readint32 False buff' 1 = Some 0xAABBCCDD
     \<and> take 1 buff' = [1] \<and> drop 5 buff' = [6]"
  using write_read_int32[of 1 "[1, 2, 3, 4, 5, 6]" True "0xAABBCCDD" False]
  by (simp add: eval_nat_numeral)

end
