(* ===== verification/BC_Enums.thy ===== *)
theory BC_Enums
  imports BC_Prelude
begin

text \<open>
  The enumerations of \<^verbatim>\<open>headers/bytecode_api.h\<close>, of the compiler's own copy
  \<^verbatim>\<open>libclambcc/bytecode_api.h\<close>, of \<^verbatim>\<open>headers/bytecode_detect.h\<close> and of
  \<^verbatim>\<open>libclambcc/clambc.h\<close>. An enumeration is the list of its enumerators in source
  order with the values C gives them; the instruction set of the bytecode format and the
  kinds a bytecode can have are datatypes.
\<close>

section \<open>C enumerations\<close>

type_synonym c_enum = "(string \<times> int) list"

text \<open>An enumerator without a value is one more than the one before it, the first is 0.\<close>

fun enum_from :: "int \<Rightarrow> (string \<times> int option) list \<Rightarrow> c_enum" where
  "enum_from _ [] = []"
| "enum_from n ((s, None) # es) = (s, n) # enum_from (n + 1) es"
| "enum_from _ ((s, Some v) # es) = (s, v) # enum_from (v + 1) es"

definition enumerators :: "(string \<times> int option) list \<Rightarrow> c_enum" where
  "enumerators es = enum_from 0 es"

definition enum_value :: "c_enum \<Rightarrow> string \<Rightarrow> int option" where
  "enum_value e s = map_of e s"

section \<open>\<^verbatim>\<open>headers/bytecode_api.h\<close>\<close>

text \<open>\<^verbatim>\<open>PE_INVALID_RVA\<close>: what \<^verbatim>\<open>pe_rawaddr\<close> returns for an invalid address.\<close>

definition PE_INVALID_RVA :: uint32_t where
  "PE_INVALID_RVA = 0xFFFFFFFF"

definition BytecodeKind :: c_enum where
  "BytecodeKind = enumerators
     [(''BC_GENERIC'', Some 0), (''BC_STARTUP'', Some 1), (''_BC_START_HOOKS'', Some 256),
      (''BC_LOGICAL'', Some 256), (''BC_PE_UNPACKER'', None), (''BC_PDF'', None),
      (''BC_PE_ALL'', None), (''BC_PRECLASS'', None), (''BC_ELF_UNPACKER'', None),
      (''BC_MACHO_UNPACKER'', None), (''_BC_LAST_HOOK'', None)]"

definition FunctionalityLevels :: c_enum where
  "FunctionalityLevels = enumerators
     [(''FUNC_LEVEL_096'', Some 51), (''FUNC_LEVEL_096_dev'', Some 52),
      (''FUNC_LEVEL_096_1'', Some 53), (''FUNC_LEVEL_096_1_dev'', Some 54),
      (''FUNC_LEVEL_096_2'', Some 54), (''FUNC_LEVEL_096_2_dev'', Some 55),
      (''FUNC_LEVEL_096_3'', Some 55), (''FUNC_LEVEL_096_4'', Some 56),
      (''FUNC_LEVEL_096_5'', Some 58), (''FUNC_LEVEL_097'', Some 60),
      (''FUNC_LEVEL_097_1'', Some 61), (''FUNC_LEVEL_097_2'', Some 62),
      (''FUNC_LEVEL_097_3'', Some 63), (''FUNC_LEVEL_097_4'', Some 64),
      (''FUNC_LEVEL_097_5'', Some 65), (''FUNC_LEVEL_097_6'', Some 67),
      (''FUNC_LEVEL_097_7'', Some 68), (''FUNC_LEVEL_097_8'', Some 69),
      (''FUNC_LEVEL_098'', Some 74), (''FUNC_LEVEL_098_1'', Some 76),
      (''FUNC_LEVEL_098_2'', Some 77), (''FUNC_LEVEL_098_3'', Some 77),
      (''FUNC_LEVEL_098_4'', Some 77), (''FUNC_LEVEL_098_5'', Some 79),
      (''FUNC_LEVEL_098_6'', Some 79), (''FUNC_LEVEL_098_7'', Some 80),
      (''FUNC_LEVEL_099'', Some 81), (''FUNC_LEVEL_099_1'', Some 82),
      (''FUNC_LEVEL_099_2'', Some 82), (''FUNC_LEVEL_099_3'', Some 84),
      (''FUNC_LEVEL_099_4'', Some 85), (''FUNC_LEVEL_0100_BETA'', Some 90),
      (''FUNC_LEVEL_0100'', Some 91), (''FUNC_LEVEL_0100_1'', Some 92),
      (''FUNC_LEVEL_0100_2'', Some 93), (''FUNC_LEVEL_0100_3'', Some 94),
      (''FUNC_LEVEL_0101_BETA'', Some 100), (''FUNC_LEVEL_0101'', Some 101),
      (''FUNC_LEVEL_0101_1'', Some 102), (''FUNC_LEVEL_0101_2'', Some 102),
      (''FUNC_LEVEL_0101_3'', Some 102), (''FUNC_LEVEL_0101_4'', Some 105),
      (''FUNC_LEVEL_0101_5'', Some 106), (''FUNC_LEVEL_0102_BETA'', Some 110),
      (''FUNC_LEVEL_0102'', Some 111), (''FUNC_LEVEL_0102_1'', Some 112),
      (''FUNC_LEVEL_0103_BETA'', Some 120), (''FUNC_LEVEL_0103'', Some 121),
      (''FUNC_LEVEL_0103_1'', Some 122), (''FUNC_LEVEL_0103_2'', Some 123),
      (''FUNC_LEVEL_0103_3'', Some 124), (''FUNC_LEVEL_0103_4'', Some 125),
      (''FUNC_LEVEL_0103_5'', Some 126), (''FUNC_LEVEL_0103_6'', Some 127),
      (''FUNC_LEVEL_0103_7'', Some 128), (''FUNC_LEVEL_0103_8'', Some 129),
      (''FUNC_LEVEL_0103_9'', Some 130), (''FUNC_LEVEL_0103_10'', Some 131),
      (''FUNC_LEVEL_0103_11'', Some 132), (''FUNC_LEVEL_0104'', Some 140),
      (''FUNC_LEVEL_0104_1'', Some 141), (''FUNC_LEVEL_0104_2'', Some 142),
      (''FUNC_LEVEL_0104_3'', Some 143), (''FUNC_LEVEL_0104_4'', Some 144),
      (''FUNC_LEVEL_0105'', Some 150), (''FUNC_LEVEL_0105_1'', Some 151),
      (''FUNC_LEVEL_0105_2'', Some 152), (''FUNC_LEVEL_1_0'', Some 160),
      (''FUNC_LEVEL_1_0_1'', Some 161), (''FUNC_LEVEL_1_0_2'', Some 162),
      (''FUNC_LEVEL_1_0_3'', Some 163), (''FUNC_LEVEL_1_0_4'', Some 164),
      (''FUNC_LEVEL_1_0_5'', Some 165), (''FUNC_LEVEL_1_0_6'', Some 166),
      (''FUNC_LEVEL_1_1'', Some 180), (''FUNC_LEVEL_1_1_1'', Some 181),
      (''FUNC_LEVEL_1_1_2'', Some 182), (''FUNC_LEVEL_1_1_3'', Some 183),
      (''FUNC_LEVEL_1_2'', Some 190), (''FUNC_LEVEL_1_2_1'', Some 191),
      (''FUNC_LEVEL_1_2_2'', Some 192), (''FUNC_LEVEL_1_2_3'', Some 193),
      (''FUNC_LEVEL_1_3'', Some 200), (''FUNC_LEVEL_1_3_1'', Some 201),
      (''FUNC_LEVEL_1_4'', Some 210)]"

definition pdf_phase :: c_enum where
  "pdf_phase = enumerators
     [(''PDF_PHASE_NONE'', None), (''PDF_PHASE_PARSED'', None), (''PDF_PHASE_POSTDUMP'', None),
      (''PDF_PHASE_END'', None), (''PDF_PHASE_PRE'', None)]"

definition pdf_flag :: c_enum where
  "pdf_flag = enumerators
     [(''BAD_PDF_VERSION'', Some 0), (''BAD_PDF_HEADERPOS'', None),
      (''BAD_PDF_TRAILER'', None), (''BAD_PDF_TOOMANYOBJS'', None),
      (''BAD_STREAM_FILTERS'', None), (''BAD_FLATE'', None), (''BAD_FLATESTART'', None),
      (''BAD_STREAMSTART'', None), (''BAD_ASCIIDECODE'', None), (''BAD_INDOBJ'', None),
      (''UNTERMINATED_OBJ_DICT'', None), (''ESCAPED_COMMON_PDFNAME'', None),
      (''HEX_JAVASCRIPT'', None), (''UNKNOWN_FILTER'', None), (''MANY_FILTERS'', None),
      (''HAS_OPENACTION'', None), (''BAD_STREAMLEN'', None), (''ENCRYPTED_PDF'', None),
      (''LINEARIZED_PDF'', None), (''DECRYPTABLE_PDF'', None), (''HAS_LAUNCHACTION'', None)]"

definition pdf_objflags :: c_enum where
  "pdf_objflags = enumerators
     [(''OBJ_STREAM'', Some 0), (''OBJ_DICT'', None), (''OBJ_EMBEDDED_FILE'', None),
      (''OBJ_FILTER_AH'', None), (''OBJ_FILTER_A85'', None), (''OBJ_FILTER_FLATE'', None),
      (''OBJ_FILTER_LZW'', None), (''OBJ_FILTER_RL'', None), (''OBJ_FILTER_FAX'', None),
      (''OBJ_FILTER_JBIG2'', None), (''OBJ_FILTER_DCT'', None), (''OBJ_FILTER_JPX'', None),
      (''OBJ_FILTER_CRYPT'', None), (''OBJ_FILTER_UNKNOWN'', None), (''OBJ_JAVASCRIPT'', None),
      (''OBJ_OPENACTION'', None), (''OBJ_HASFILTERS'', None), (''OBJ_SIGNED'', None),
      (''OBJ_IMAGE'', None), (''OBJ_TRUNCATED'', None), (''OBJ_FORCEDUMP'', None),
      (''OBJ_FILTER_STANDARD'', None), (''OBJ_LAUNCHACTION'', None), (''OBJ_PAGE'', None),
      (''OBJ_CONTENTS'', None)]"

definition bc_json_type :: c_enum where
  "bc_json_type = enumerators
     [(''JSON_TYPE_NULL'', Some 0), (''JSON_TYPE_BOOLEAN'', None),
      (''JSON_TYPE_DOUBLE'', None), (''JSON_TYPE_INT'', None), (''JSON_TYPE_OBJECT'', None),
      (''JSON_TYPE_ARRAY'', None), (''JSON_TYPE_STRING'', None)]"

definition lzma_returncode :: c_enum where
  "lzma_returncode = enumerators
     [(''LZMA_RESULT_OK'', Some 0), (''LZMA_RESULT_DATA_ERROR'', Some 1),
      (''LZMA_STREAM_END'', Some 2)]"

definition bzip2_returncode :: c_enum where
  "bzip2_returncode = enumerators
     [(''BZIP2_OK'', Some 0), (''BZIP2_SEQUENCE_ERROR'', Some (-1)),
      (''BZIP2_PARAM_ERROR'', Some (-2)), (''BZIP2_MEM_ERROR'', Some (-3)),
      (''BZIP2_DATA_ERROR'', Some (-4)), (''BZIP2_DATA_ERROR_MAGIC'', Some (-5)),
      (''BZIP2_IO_ERROR'', Some (-6)), (''BZIP2_UNEXPECTED_EOF'', Some (-7)),
      (''BZIP2_OUTBUFF_FULL'', Some (-8)), (''BZIP2_CONFIG_ERROR'', Some (-9)),
      (''BZIP2_RUN_OK'', Some 1), (''BZIP2_FLUSH_OK'', Some 2), (''BZIP2_FINISH_OK'', Some 3),
      (''BZIP2_STREAM_END'', Some 4)]"

definition CL_SCAN_flags :: c_enum where
  "CL_SCAN_flags = enumerators
     [(''CL_SCAN_RAW'', Some 0), (''CL_SCAN_ARCHIVE'', Some 1), (''CL_SCAN_MAIL'', Some 2),
      (''CL_SCAN_OLE2'', Some 4), (''CL_SCAN_BLOCKENCRYPTED'', Some 8),
      (''CL_SCAN_HTML'', Some 16), (''CL_SCAN_PE'', Some 32),
      (''CL_SCAN_BLOCKBROKEN'', Some 64), (''CL_SCAN_MAILURL'', Some 128),
      (''CL_SCAN_BLOCKMAX'', Some 256), (''CL_SCAN_ALGORITHMIC'', Some 512),
      (''CL_SCAN_PHISHING_BLOCKSSL'', Some 2048), (''CL_SCAN_PHISHING_BLOCKCLOAK'', Some 4096),
      (''CL_SCAN_ELF'', Some 8192), (''CL_SCAN_PDF'', Some 16384),
      (''CL_SCAN_STRUCTURED'', Some 32768), (''CL_SCAN_STRUCTURED_SSN_NORMAL'', Some 65536),
      (''CL_SCAN_STRUCTURED_SSN_STRIPPED'', Some 131072),
      (''CL_SCAN_PARTIAL_MESSAGE'', Some 262144),
      (''CL_SCAN_HEURISTIC_PRECEDENCE'', Some 524288), (''CL_SCAN_BLOCKMACROS'', Some 1048576),
      (''CL_SCAN_ALLMATCHES'', Some 2097152), (''CL_SCAN_SWF'', Some 4194304),
      (''CL_SCAN_PARTITION_INTXN'', Some 8388608), (''CL_SCAN_XMLDOCS'', Some 16777216),
      (''CL_SCAN_HWP3'', Some 33554432), (''CL_SCAN_FILE_PROPERTIES'', Some 268435456),
      (''CL_SCAN_PERFORMANCE_INFO'', Some 1073741824),
      (''CL_SCAN_INTERNAL_COLLECT_SHA'', Some 2147483648)]"

definition seek_whence :: c_enum where
  "seek_whence = enumerators
     [(''SEEK_SET'', Some 0), (''SEEK_CUR'', None), (''SEEK_END'', None)]"

section \<open>The compiler's copy, \<^verbatim>\<open>libclambcc/bytecode_api.h\<close>\<close>

definition lib_BytecodeKind :: c_enum where
  "lib_BytecodeKind = enumerators
     [(''BC_GENERIC'', Some 0), (''BC_STARTUP'', Some 1), (''_BC_START_HOOKS'', Some 256),
      (''BC_LOGICAL'', Some 256), (''BC_PE_UNPACKER'', None), (''BC_PDF'', None),
      (''BC_PE_ALL'', None), (''BC_PRECLASS'', None), (''BC_ELF_UNPACKER'', None),
      (''BC_MACHO_UNPACKER'', None), (''_BC_LAST_HOOK'', None)]"

definition lib_FunctionalityLevels :: c_enum where
  "lib_FunctionalityLevels = enumerators
     [(''FUNC_LEVEL_096'', Some 51), (''FUNC_LEVEL_096_dev'', Some 52),
      (''FUNC_LEVEL_096_1'', Some 53), (''FUNC_LEVEL_096_1_dev'', Some 54),
      (''FUNC_LEVEL_096_2'', Some 54), (''FUNC_LEVEL_096_2_dev'', Some 55),
      (''FUNC_LEVEL_096_3'', Some 55), (''FUNC_LEVEL_096_4'', Some 56),
      (''FUNC_LEVEL_096_5'', Some 58), (''FUNC_LEVEL_097'', Some 60),
      (''FUNC_LEVEL_097_1'', Some 61), (''FUNC_LEVEL_097_2'', Some 62),
      (''FUNC_LEVEL_097_3'', Some 63), (''FUNC_LEVEL_097_4'', Some 64),
      (''FUNC_LEVEL_097_5'', Some 65), (''FUNC_LEVEL_097_6'', Some 67),
      (''FUNC_LEVEL_097_7'', Some 68), (''FUNC_LEVEL_097_8'', Some 69),
      (''FUNC_LEVEL_098'', Some 74), (''FUNC_LEVEL_098_1'', Some 76),
      (''FUNC_LEVEL_098_2'', Some 77), (''FUNC_LEVEL_098_3'', Some 77),
      (''FUNC_LEVEL_098_4'', Some 77), (''FUNC_LEVEL_098_5'', Some 79),
      (''FUNC_LEVEL_098_6'', Some 79), (''FUNC_LEVEL_098_7'', Some 80),
      (''FUNC_LEVEL_099'', Some 81), (''FUNC_LEVEL_099_1'', Some 82),
      (''FUNC_LEVEL_099_2'', Some 82), (''FUNC_LEVEL_099_3'', Some 84),
      (''FUNC_LEVEL_099_4'', Some 85), (''FUNC_LEVEL_0100_BETA'', Some 90),
      (''FUNC_LEVEL_0100'', Some 91), (''FUNC_LEVEL_0100_1'', Some 92),
      (''FUNC_LEVEL_0100_2'', Some 93), (''FUNC_LEVEL_0100_3'', Some 94),
      (''FUNC_LEVEL_0101_BETA'', Some 100), (''FUNC_LEVEL_0101'', Some 101),
      (''FUNC_LEVEL_0101_1'', Some 102), (''FUNC_LEVEL_0101_2'', Some 103),
      (''FUNC_LEVEL_0102_BETA'', Some 110)]"

definition lib_pdf_phase :: c_enum where
  "lib_pdf_phase = enumerators
     [(''PDF_PHASE_NONE'', None), (''PDF_PHASE_PARSED'', None), (''PDF_PHASE_POSTDUMP'', None),
      (''PDF_PHASE_END'', None), (''PDF_PHASE_PRE'', None)]"

definition lib_pdf_flag :: c_enum where
  "lib_pdf_flag = enumerators
     [(''BAD_PDF_VERSION'', Some 0), (''BAD_PDF_HEADERPOS'', None),
      (''BAD_PDF_TRAILER'', None), (''BAD_PDF_TOOMANYOBJS'', None),
      (''BAD_STREAM_FILTERS'', None), (''BAD_FLATE'', None), (''BAD_FLATESTART'', None),
      (''BAD_STREAMSTART'', None), (''BAD_ASCIIDECODE'', None), (''BAD_INDOBJ'', None),
      (''UNTERMINATED_OBJ_DICT'', None), (''ESCAPED_COMMON_PDFNAME'', None),
      (''HEX_JAVASCRIPT'', None), (''UNKNOWN_FILTER'', None), (''MANY_FILTERS'', None),
      (''HAS_OPENACTION'', None), (''BAD_STREAMLEN'', None), (''ENCRYPTED_PDF'', None),
      (''LINEARIZED_PDF'', None), (''DECRYPTABLE_PDF'', None), (''HAS_LAUNCHACTION'', None)]"

definition lib_pdf_objflags :: c_enum where
  "lib_pdf_objflags = enumerators
     [(''OBJ_STREAM'', Some 0), (''OBJ_DICT'', None), (''OBJ_EMBEDDED_FILE'', None),
      (''OBJ_FILTER_AH'', None), (''OBJ_FILTER_A85'', None), (''OBJ_FILTER_FLATE'', None),
      (''OBJ_FILTER_LZW'', None), (''OBJ_FILTER_RL'', None), (''OBJ_FILTER_FAX'', None),
      (''OBJ_FILTER_JBIG2'', None), (''OBJ_FILTER_DCT'', None), (''OBJ_FILTER_JPX'', None),
      (''OBJ_FILTER_CRYPT'', None), (''OBJ_FILTER_UNKNOWN'', None), (''OBJ_JAVASCRIPT'', None),
      (''OBJ_OPENACTION'', None), (''OBJ_HASFILTERS'', None), (''OBJ_SIGNED'', None),
      (''OBJ_IMAGE'', None), (''OBJ_TRUNCATED'', None), (''OBJ_FORCEDUMP'', None),
      (''OBJ_FILTER_STANDARD'', None), (''OBJ_LAUNCHACTION'', None), (''OBJ_PAGE'', None),
      (''OBJ_CONTENTS'', None)]"

definition lib_bc_json_type :: c_enum where
  "lib_bc_json_type = enumerators
     [(''JSON_TYPE_NULL'', Some 0), (''JSON_TYPE_BOOLEAN'', None),
      (''JSON_TYPE_DOUBLE'', None), (''JSON_TYPE_INT'', None), (''JSON_TYPE_OBJECT'', None),
      (''JSON_TYPE_ARRAY'', None), (''JSON_TYPE_STRING'', None)]"

definition lib_CL_SCAN_flags :: c_enum where
  "lib_CL_SCAN_flags = enumerators
     [(''CL_SCAN_RAW'', Some 0), (''CL_SCAN_ARCHIVE'', Some 1), (''CL_SCAN_MAIL'', Some 2),
      (''CL_SCAN_OLE2'', Some 4), (''CL_SCAN_BLOCKENCRYPTED'', Some 8),
      (''CL_SCAN_HTML'', Some 16), (''CL_SCAN_PE'', Some 32),
      (''CL_SCAN_BLOCKBROKEN'', Some 64), (''CL_SCAN_MAILURL'', Some 128),
      (''CL_SCAN_BLOCKMAX'', Some 256), (''CL_SCAN_ALGORITHMIC'', Some 512),
      (''CL_SCAN_PHISHING_BLOCKSSL'', Some 2048), (''CL_SCAN_PHISHING_BLOCKCLOAK'', Some 4096),
      (''CL_SCAN_ELF'', Some 8192), (''CL_SCAN_PDF'', Some 16384),
      (''CL_SCAN_STRUCTURED'', Some 32768), (''CL_SCAN_STRUCTURED_SSN_NORMAL'', Some 65536),
      (''CL_SCAN_STRUCTURED_SSN_STRIPPED'', Some 131072),
      (''CL_SCAN_PARTIAL_MESSAGE'', Some 262144),
      (''CL_SCAN_HEURISTIC_PRECEDENCE'', Some 524288), (''CL_SCAN_BLOCKMACROS'', Some 1048576),
      (''CL_SCAN_ALLMATCHES'', Some 2097152), (''CL_SCAN_SWF'', Some 4194304),
      (''CL_SCAN_PARTITION_INTXN'', Some 8388608), (''CL_SCAN_XMLDOCS'', Some 16777216),
      (''CL_SCAN_HWP3'', Some 33554432), (''CL_SCAN_FILE_PROPERTIES'', Some 268435456),
      (''CL_SCAN_PERFORMANCE_INFO'', Some 1073741824),
      (''CL_SCAN_INTERNAL_COLLECT_SHA'', Some 2147483648)]"

section \<open>\<^verbatim>\<open>headers/bytecode_detect.h\<close>\<close>

definition arch_list :: c_enum where
  "arch_list = enumerators
     [(''arch_unknown'', Some 0), (''arch_i386'', None), (''arch_x86_64'', None),
      (''arch_ppc32'', None), (''arch_ppc64'', None), (''arch_arm'', None),
      (''arch_sparc'', None), (''arch_sparc64'', None), (''arch_mips'', None),
      (''arch_mips64'', None), (''arch_alpha'', None), (''arch_hppa1'', None),
      (''arch_hppa2'', None), (''arch_m68k'', None), (''arch_ANY'', Some 15)]"

definition os_kind_conf :: c_enum where
  "os_kind_conf = enumerators
     [(''os_unknown'', Some 0), (''os_aix'', None), (''os_beos'', None), (''os_bsd'', None),
      (''os_darwin'', None), (''os_gnu_hurd'', None), (''os_hpux'', None),
      (''os_interix'', None), (''os_irix'', None), (''os_kfreebsd_gnu'', None),
      (''os_linux'', None), (''os_os2'', None), (''os_osf'', None), (''os_qnx6'', None),
      (''os_solaris'', None), (''os_win32'', None), (''os_win64'', None),
      (''os_generic'', None), (''os_ANY'', Some 255)]"

definition os_kind_llvm :: c_enum where
  "os_kind_llvm = enumerators
     [(''llvm_os_UnknownOS'', Some 0), (''llvm_os_AuroraUX'', None),
      (''llvm_os_Cygwin'', None), (''llvm_os_Darwin'', None), (''llvm_os_DragonFly'', None),
      (''llvm_os_FreeBSD'', None), (''llvm_os_Linux'', None), (''llvm_os_Lv2'', None),
      (''llvm_os_MinGW32'', None), (''llvm_os_MinGW64'', None), (''llvm_os_NetBSD'', None),
      (''llvm_os_OpenBSD'', None), (''llvm_os_Psp'', None), (''llvm_os_Solaris'', None),
      (''llvm_os_Win32'', None), (''llvm_os_Haiku'', None), (''llvm_os_Minix'', None),
      (''llvm_os_ANY'', Some 255)]"

definition compiler_list :: c_enum where
  "compiler_list = enumerators
     [(''compiler_unknown'', Some 0), (''compiler_gnuc'', None), (''compiler_llvm'', None),
      (''compiler_clang'', None), (''compiler_intel'', None), (''compiler_msc'', None),
      (''compiler_sun'', None), (''compiler_other'', None), (''compiler_ANY'', Some 15)]"

definition endian_list :: c_enum where
  "endian_list = enumerators
     [(''endian_little'', Some 0), (''endian_big'', Some 1), (''endian_ANY'', Some 15)]"

definition os_feature_bits :: c_enum where
  "os_feature_bits = enumerators
     [(''feature_map_rwx'', Some 0), (''feature_selinux'', Some 1),
      (''feature_selinux_enforcing'', Some 2), (''feature_pax'', Some 3),
      (''feature_pax_mprotect'', Some 4)]"

section \<open>\<^verbatim>\<open>libclambcc/clambc.h\<close>\<close>

definition bc_global :: c_enum where
  "bc_global = enumerators
     [(''_FIRST_GLOBAL'', Some 32768), (''GLOBAL_MATCH_COUNTS'', Some 32768),
      (''GLOBAL_KIND'', None), (''GLOBAL_VIRUSNAMES'', None), (''GLOBAL_PEDATA'', None),
      (''GLOBAL_FILESIZE'', None), (''GLOBAL_MATCH_OFFSETS'', None), (''_LAST_GLOBAL'', None)]"

datatype bc_opcode =
    OP_BC_ADD
    | OP_BC_SUB | OP_BC_MUL | OP_BC_UDIV | OP_BC_SDIV | OP_BC_UREM | OP_BC_SREM | OP_BC_SHL
    | OP_BC_LSHR | OP_BC_ASHR | OP_BC_AND | OP_BC_OR | OP_BC_XOR | OP_BC_TRUNC | OP_BC_SEXT
    | OP_BC_ZEXT | OP_BC_BRANCH | OP_BC_JMP | OP_BC_RET | OP_BC_RET_VOID | OP_BC_ICMP_EQ
    | OP_BC_ICMP_NE | OP_BC_ICMP_UGT | OP_BC_ICMP_UGE | OP_BC_ICMP_ULT | OP_BC_ICMP_ULE
    | OP_BC_ICMP_SGT | OP_BC_ICMP_SGE | OP_BC_ICMP_SLE | OP_BC_ICMP_SLT | OP_BC_SELECT
    | OP_BC_CALL_DIRECT | OP_BC_CALL_API | OP_BC_COPY | OP_BC_GEP1 | OP_BC_GEPZ | OP_BC_GEPN
    | OP_BC_STORE | OP_BC_LOAD | OP_BC_MEMSET | OP_BC_MEMCPY | OP_BC_MEMMOVE | OP_BC_MEMCMP
    | OP_BC_ISBIGENDIAN | OP_BC_ABORT | OP_BC_BSWAP16 | OP_BC_BSWAP32 | OP_BC_BSWAP64
    | OP_BC_PTRDIFF32 | OP_BC_PTRTOINT64 | OP_BC_INVALID

text \<open>The enumerators in order: \<^verbatim>\<open>OP_BC_ADD = 1\<close>, each next one is one more.\<close>

definition bc_opcodes :: "bc_opcode list" where
  "bc_opcodes =
     [OP_BC_ADD, OP_BC_SUB, OP_BC_MUL, OP_BC_UDIV, OP_BC_SDIV, OP_BC_UREM, OP_BC_SREM,
      OP_BC_SHL, OP_BC_LSHR, OP_BC_ASHR, OP_BC_AND, OP_BC_OR, OP_BC_XOR, OP_BC_TRUNC,
      OP_BC_SEXT, OP_BC_ZEXT, OP_BC_BRANCH, OP_BC_JMP, OP_BC_RET, OP_BC_RET_VOID,
      OP_BC_ICMP_EQ, OP_BC_ICMP_NE, OP_BC_ICMP_UGT, OP_BC_ICMP_UGE, OP_BC_ICMP_ULT,
      OP_BC_ICMP_ULE, OP_BC_ICMP_SGT, OP_BC_ICMP_SGE, OP_BC_ICMP_SLE, OP_BC_ICMP_SLT,
      OP_BC_SELECT, OP_BC_CALL_DIRECT, OP_BC_CALL_API, OP_BC_COPY, OP_BC_GEP1, OP_BC_GEPZ,
      OP_BC_GEPN, OP_BC_STORE, OP_BC_LOAD, OP_BC_MEMSET, OP_BC_MEMCPY, OP_BC_MEMMOVE,
      OP_BC_MEMCMP, OP_BC_ISBIGENDIAN, OP_BC_ABORT, OP_BC_BSWAP16, OP_BC_BSWAP32,
      OP_BC_BSWAP64, OP_BC_PTRDIFF32, OP_BC_PTRTOINT64, OP_BC_INVALID]"

fun opcode_num :: "bc_opcode \<Rightarrow> nat" where
  "opcode_num OP_BC_ADD = 1"
| "opcode_num OP_BC_SUB = 2"
| "opcode_num OP_BC_MUL = 3"
| "opcode_num OP_BC_UDIV = 4"
| "opcode_num OP_BC_SDIV = 5"
| "opcode_num OP_BC_UREM = 6"
| "opcode_num OP_BC_SREM = 7"
| "opcode_num OP_BC_SHL = 8"
| "opcode_num OP_BC_LSHR = 9"
| "opcode_num OP_BC_ASHR = 10"
| "opcode_num OP_BC_AND = 11"
| "opcode_num OP_BC_OR = 12"
| "opcode_num OP_BC_XOR = 13"
| "opcode_num OP_BC_TRUNC = 14"
| "opcode_num OP_BC_SEXT = 15"
| "opcode_num OP_BC_ZEXT = 16"
| "opcode_num OP_BC_BRANCH = 17"
| "opcode_num OP_BC_JMP = 18"
| "opcode_num OP_BC_RET = 19"
| "opcode_num OP_BC_RET_VOID = 20"
| "opcode_num OP_BC_ICMP_EQ = 21"
| "opcode_num OP_BC_ICMP_NE = 22"
| "opcode_num OP_BC_ICMP_UGT = 23"
| "opcode_num OP_BC_ICMP_UGE = 24"
| "opcode_num OP_BC_ICMP_ULT = 25"
| "opcode_num OP_BC_ICMP_ULE = 26"
| "opcode_num OP_BC_ICMP_SGT = 27"
| "opcode_num OP_BC_ICMP_SGE = 28"
| "opcode_num OP_BC_ICMP_SLE = 29"
| "opcode_num OP_BC_ICMP_SLT = 30"
| "opcode_num OP_BC_SELECT = 31"
| "opcode_num OP_BC_CALL_DIRECT = 32"
| "opcode_num OP_BC_CALL_API = 33"
| "opcode_num OP_BC_COPY = 34"
| "opcode_num OP_BC_GEP1 = 35"
| "opcode_num OP_BC_GEPZ = 36"
| "opcode_num OP_BC_GEPN = 37"
| "opcode_num OP_BC_STORE = 38"
| "opcode_num OP_BC_LOAD = 39"
| "opcode_num OP_BC_MEMSET = 40"
| "opcode_num OP_BC_MEMCPY = 41"
| "opcode_num OP_BC_MEMMOVE = 42"
| "opcode_num OP_BC_MEMCMP = 43"
| "opcode_num OP_BC_ISBIGENDIAN = 44"
| "opcode_num OP_BC_ABORT = 45"
| "opcode_num OP_BC_BSWAP16 = 46"
| "opcode_num OP_BC_BSWAP32 = 47"
| "opcode_num OP_BC_BSWAP64 = 48"
| "opcode_num OP_BC_PTRDIFF32 = 49"
| "opcode_num OP_BC_PTRTOINT64 = 50"
| "opcode_num OP_BC_INVALID = 51"

definition operand_counts :: "nat list" where
  "operand_counts =
     [0, 2, 2, 2, 2, 2, 2, 2, 2, 2, 2, 2, 2, 2, 1, 1, 1, 3, 1, 1, 0, 2, 2, 2, 2, 2,
      2, 2, 2, 2, 2, 3, 0, 0, 2, 3, 3, 0, 2, 1, 3, 3, 3, 3, 0, 0, 1, 1, 1, 2, 1]"

definition BC_FORMAT_096 :: nat where "BC_FORMAT_096 = 6"
definition BC_FORMAT_LEVEL :: nat where "BC_FORMAT_LEVEL = 7"
definition BC_HEADER :: string where "BC_HEADER = ''ClamBC''"
definition BC_START_TID :: nat where "BC_START_TID = 69"

section \<open>The platform description of \<^verbatim>\<open>headers/bytecode_detect.h\<close>\<close>

record cli_environment =
  env_platform_id_a :: uint32_t
  env_platform_id_b :: uint32_t
  env_platform_id_c :: uint32_t
  env_c_version :: uint32_t
  env_cpp_version :: uint32_t
  env_functionality_level :: uint32_t
  env_dconf_level :: uint32_t
  env_engine_version :: "int8_t list"
  env_triple :: "int8_t list"
  env_cpu :: "int8_t list"
  env_sysname :: "int8_t list"
  env_release :: "int8_t list"
  env_version :: "int8_t list"
  env_machine :: "int8_t list"
  env_big_endian :: uint8_t
  env_sizeof_ptr :: uint8_t
  env_arch :: uint8_t
  env_os_category :: uint8_t
  env_os :: uint8_t
  env_compiler :: uint8_t
  env_has_jit_compiled :: uint8_t
  env_os_features :: uint8_t
  env_reserved0 :: uint8_t

definition MAKE_VERSION :: "uint32_t \<Rightarrow> uint32_t \<Rightarrow> uint32_t \<Rightarrow> uint32_t \<Rightarrow> uint32_t" where
  "MAKE_VERSION a b c d = push_bit 24 a OR push_bit 16 b OR push_bit 8 c OR d"

text \<open>
  \<^verbatim>\<open>strncpy(field, value, sizeof(field) - 1)\<close> copies the string up to its NUL or up to
  the size and pads with NULs; the macro then stores a NUL in the last cell. \<open>value\<close> is the
  string's bytes without the terminator.
\<close>

definition strncpy :: "bytes \<Rightarrow> bytes \<Rightarrow> nat \<Rightarrow> bytes" where
  "strncpy dst src n = take n (takeWhile (\<lambda>c. c \<noteq> 0) src @ replicate n 0) @ drop n dst"

definition INIT_STRFIELD :: "bytes \<Rightarrow> bytes \<Rightarrow> bytes" where
  "INIT_STRFIELD field val =
     (let f = strncpy field val (length field - 1) in f[length field - 1 := 0])"

section \<open>Facts about the tables\<close>

lemma length_strncpy: "n \<le> length dst \<Longrightarrow> length (strncpy dst src n) = length dst"
  by (simp add: strncpy_def)

lemma length_INIT_STRFIELD: "length (INIT_STRFIELD field val) = length field"
  by (simp add: INIT_STRFIELD_def Let_def length_strncpy)

lemma INIT_STRFIELD_terminated: "field \<noteq> [] \<Longrightarrow> last (INIT_STRFIELD field val) = 0"
proof -
  assume ne: "field \<noteq> []"
  then have "INIT_STRFIELD field val \<noteq> []"
    using length_INIT_STRFIELD[of field val] by auto
  with ne show ?thesis
    by (simp add: last_conv_nth length_INIT_STRFIELD)
      (simp add: INIT_STRFIELD_def Let_def length_strncpy)
qed

lemma enum_from_names: "map fst (enum_from n es) = map fst es"
  by (induction n es rule: enum_from.induct) auto

lemma enum_from_unvalued:
  "\<forall>e \<in> set es. snd e = None \<Longrightarrow> map snd (enum_from n es) = map (\<lambda>i. n + int i) [0..<length es]"
proof (induction n es rule: enum_from.induct)
  case (2 n s es)
  then have "map snd (enum_from (n + 1) es) = map (\<lambda>i. n + int (Suc i)) [0..<length es]"
    by (simp add: algebra_simps)
  also have "\<dots> = map (\<lambda>i. n + int i) (map Suc [0..<length es])"
    by (simp add: comp_def)
  finally show ?case
    by (simp add: map_Suc_upt upt_conv_Cons del: upt_Suc)
qed auto

lemma opcode_num_order: "map opcode_num bc_opcodes = [1..<52]"
  by code_simp

lemma bc_opcodes_UNIV: "set bc_opcodes = UNIV"
proof -
  have "x \<in> set bc_opcodes" for x
    by (cases x) (simp_all add: bc_opcodes_def)
  then show ?thesis by blast
qed

lemma inj_opcode_num: "inj opcode_num"
proof -
  have "distinct (map opcode_num bc_opcodes)" by (simp add: opcode_num_order)
  then show ?thesis by (simp add: distinct_map bc_opcodes_UNIV)
qed

lemma opcode_num_range: "1 \<le> opcode_num x \<and> opcode_num x \<le> 51"
  by (cases x) simp_all

lemma operand_counts_length: "length operand_counts = opcode_num OP_BC_INVALID"
  by (simp add: operand_counts_def)

text \<open>
  the functionality levels are numbered in release order: along the enumeration of
  \<^verbatim>\<open>headers/bytecode_api.h\<close> the values never decrease, so a level test
  \<^verbatim>\<open>min < FUNC_LEVEL_x\<close> means an older engine. The compiler is built with its own
  copy of the enumeration; the only level it gives another number is
  \<^verbatim>\<open>FUNC_LEVEL_0101_2\<close>, 103 instead of 102.
\<close>

theorem functionality_levels_ordered:
  "sorted (map snd FunctionalityLevels)
   \<and> filter (\<lambda>(s, v). enum_value FunctionalityLevels s \<noteq> Some v) lib_FunctionalityLevels
       = [(''FUNC_LEVEL_0101_2'', 103)]
   \<and> enum_value FunctionalityLevels ''FUNC_LEVEL_0101_2'' = Some 102"
  by code_simp

end
