(* ===== verification/BC_PE_Structs.thy ===== *)
theory BC_PE_Structs
  imports BC_Prelude
begin

text \<open>
  The structures of \<^verbatim>\<open>headers/bytecode_pe_structs.h\<close>, \<^verbatim>\<open>headers/bytecode_pe.h\<close>
  and \<^verbatim>\<open>headers/bytecode_execs.h\<close> as records (field names carry a prefix, since the
  headers reuse names), and the C layout rules that give their sizes and offsets.
\<close>

section \<open>Structures\<close>

record pe_image_file_hdr =
  fh_Magic :: uint32_t
  fh_Machine :: uint16_t
  fh_NumberOfSections :: uint16_t
  fh_TimeDateStamp :: uint32_t
  fh_PointerToSymbolTable :: uint32_t
  fh_NumberOfSymbols :: uint32_t
  fh_SizeOfOptionalHeader :: uint16_t
  fh_Characteristics :: uint16_t

definition pe_image_file_hdr_fields :: "(nat \<times> nat) list" where
  "pe_image_file_hdr_fields =
     [(4, 4), (2, 2), (2, 2), (4, 4), (4, 4), (4, 4), (2, 2), (2, 2)]"

record pe_image_data_dir =
  dd_VirtualAddress :: uint32_t
  dd_Size :: uint32_t

definition pe_image_data_dir_fields :: "(nat \<times> nat) list" where
  "pe_image_data_dir_fields =
     [(4, 4), (4, 4)]"

record pe_image_optional_hdr32 =
  o32_Magic :: uint16_t
  o32_MajorLinkerVersion :: uint8_t
  o32_MinorLinkerVersion :: uint8_t
  o32_SizeOfCode :: uint32_t
  o32_SizeOfInitializedData :: uint32_t
  o32_SizeOfUninitializedData :: uint32_t
  o32_AddressOfEntryPoint :: uint32_t
  o32_BaseOfCode :: uint32_t
  o32_BaseOfData :: uint32_t
  o32_ImageBase :: uint32_t
  o32_SectionAlignment :: uint32_t
  o32_FileAlignment :: uint32_t
  o32_MajorOperatingSystemVersion :: uint16_t
  o32_MinorOperatingSystemVersion :: uint16_t
  o32_MajorImageVersion :: uint16_t
  o32_MinorImageVersion :: uint16_t
  o32_MajorSubsystemVersion :: uint16_t
  o32_MinorSubsystemVersion :: uint16_t
  o32_Win32VersionValue :: uint32_t
  o32_SizeOfImage :: uint32_t
  o32_SizeOfHeaders :: uint32_t
  o32_CheckSum :: uint32_t
  o32_Subsystem :: uint16_t
  o32_DllCharacteristics :: uint16_t
  o32_SizeOfStackReserve :: uint32_t
  o32_SizeOfStackCommit :: uint32_t
  o32_SizeOfHeapReserve :: uint32_t
  o32_SizeOfHeapCommit :: uint32_t
  o32_LoaderFlags :: uint32_t
  o32_NumberOfRvaAndSizes :: uint32_t

definition pe_image_optional_hdr32_fields :: "(nat \<times> nat) list" where
  "pe_image_optional_hdr32_fields =
     [(2, 2), (1, 1), (1, 1), (4, 4), (4, 4), (4, 4), (4, 4), (4, 4), (4, 4), (4, 4),
      (4, 4), (4, 4), (2, 2), (2, 2), (2, 2), (2, 2), (2, 2), (2, 2), (4, 4), (4, 4),
      (4, 4), (4, 4), (2, 2), (2, 2), (4, 4), (4, 4), (4, 4), (4, 4), (4, 4), (4, 4)]"

record pe_image_optional_hdr64 =
  o64_Magic :: uint16_t
  o64_MajorLinkerVersion :: uint8_t
  o64_MinorLinkerVersion :: uint8_t
  o64_SizeOfCode :: uint32_t
  o64_SizeOfInitializedData :: uint32_t
  o64_SizeOfUninitializedData :: uint32_t
  o64_AddressOfEntryPoint :: uint32_t
  o64_BaseOfCode :: uint32_t
  o64_ImageBase :: uint64_t
  o64_SectionAlignment :: uint32_t
  o64_FileAlignment :: uint32_t
  o64_MajorOperatingSystemVersion :: uint16_t
  o64_MinorOperatingSystemVersion :: uint16_t
  o64_MajorImageVersion :: uint16_t
  o64_MinorImageVersion :: uint16_t
  o64_MajorSubsystemVersion :: uint16_t
  o64_MinorSubsystemVersion :: uint16_t
  o64_Win32VersionValue :: uint32_t
  o64_SizeOfImage :: uint32_t
  o64_SizeOfHeaders :: uint32_t
  o64_CheckSum :: uint32_t
  o64_Subsystem :: uint16_t
  o64_DllCharacteristics :: uint16_t
  o64_SizeOfStackReserve :: uint64_t
  o64_SizeOfStackCommit :: uint64_t
  o64_SizeOfHeapReserve :: uint64_t
  o64_SizeOfHeapCommit :: uint64_t
  o64_LoaderFlags :: uint32_t
  o64_NumberOfRvaAndSizes :: uint32_t

definition pe_image_optional_hdr64_fields :: "(nat \<times> nat) list" where
  "pe_image_optional_hdr64_fields =
     [(2, 2), (1, 1), (1, 1), (4, 4), (4, 4), (4, 4), (4, 4), (4, 4), (8, 8), (4, 4),
      (4, 4), (2, 2), (2, 2), (2, 2), (2, 2), (2, 2), (2, 2), (4, 4), (4, 4), (4, 4),
      (4, 4), (2, 2), (2, 2), (8, 8), (8, 8), (8, 8), (8, 8), (4, 4), (4, 4)]"

record pe_image_section_hdr =
  sh_Name :: "uint8_t list"
  sh_VirtualSize :: uint32_t
  sh_VirtualAddress :: uint32_t
  sh_SizeOfRawData :: uint32_t
  sh_PointerToRawData :: uint32_t
  sh_PointerToRelocations :: uint32_t
  sh_PointerToLinenumbers :: uint32_t
  sh_NumberOfRelocations :: uint16_t
  sh_NumberOfLinenumbers :: uint16_t
  sh_Characteristics :: uint32_t

definition pe_image_section_hdr_fields :: "(nat \<times> nat) list" where
  "pe_image_section_hdr_fields =
     [(8, 1), (4, 4), (4, 4), (4, 4), (4, 4), (4, 4), (4, 4), (2, 2), (2, 2), (4, 4)]"

record pe_certificate_hdr =
  cert_length :: uint32_t
  cert_revision :: uint16_t
  cert_type :: uint16_t

definition pe_certificate_hdr_fields :: "(nat \<times> nat) list" where
  "pe_certificate_hdr_fields =
     [(4, 4), (2, 2), (2, 2)]"

record cli_pe_hook_data =
  pd_offset :: uint32_t
  pd_ep :: uint32_t
  pd_nsections :: uint16_t
  pd_dummy :: uint16_t
  pd_file_hdr :: pe_image_file_hdr
  pd_opt32 :: pe_image_optional_hdr32
  pd_opt32_dirs :: "pe_image_data_dir list"
  pd_dummy2 :: uint32_t
  pd_opt64 :: pe_image_optional_hdr64
  pd_opt64_dirs :: "pe_image_data_dir list"
  pd_dirs :: "pe_image_data_dir list"
  pd_e_lfanew :: uint32_t
  pd_overlays :: uint32_t
  pd_overlays_sz :: int32_t
  pd_hdr_size :: uint32_t

record cli_exe_section =
  sec_rva :: uint32_t
  sec_vsz :: uint32_t
  sec_raw :: uint32_t
  sec_rsz :: uint32_t
  sec_chr :: uint32_t
  sec_urva :: uint32_t
  sec_uvsz :: uint32_t
  sec_uraw :: uint32_t
  sec_ursz :: uint32_t

definition cli_exe_section_fields :: "(nat \<times> nat) list" where
  "cli_exe_section_fields =
     [(4, 4), (4, 4), (4, 4), (4, 4), (4, 4), (4, 4), (4, 4), (4, 4), (4, 4)]"

section \<open>Layout\<close>

text \<open>
  A field is a size and an alignment. Each field starts at the next multiple of its
  alignment, and the structure's size is rounded up to its largest alignment.
\<close>

definition align_up :: "nat \<Rightarrow> nat \<Rightarrow> nat" where
  "align_up n a = ((n + a - 1) div a) * a"

fun field_offsets :: "nat \<Rightarrow> (nat \<times> nat) list \<Rightarrow> nat list" where
  "field_offsets off [] = []"
| "field_offsets off ((s, a) # fs) = align_up off a # field_offsets (align_up off a + s) fs"

fun fields_end :: "nat \<Rightarrow> (nat \<times> nat) list \<Rightarrow> nat" where
  "fields_end off [] = off"
| "fields_end off ((s, a) # fs) = fields_end (align_up off a + s) fs"

definition sizeof_fields :: "(nat \<times> nat) list \<Rightarrow> nat" where
  "sizeof_fields fs = align_up (fields_end 0 fs) (fold max (map snd fs) 1)"

lemma align_up_ge: "0 < a \<Longrightarrow> n \<le> align_up n a"
proof -
  assume a: "0 < a"
  have "n + a - 1 = ((n + a - 1) div a) * a + (n + a - 1) mod a" by simp
  moreover have "(n + a - 1) mod a < a" using a by simp
  ultimately show ?thesis using a unfolding align_up_def by linarith
qed

lemma align_up_dvd: "a dvd align_up n a"
  by (simp add: align_up_def)

lemma align_up_less: "0 < a \<Longrightarrow> align_up n a < n + a"
proof -
  assume a: "0 < a"
  have "((n + a - 1) div a) * a \<le> n + a - 1" by simp
  with a show ?thesis unfolding align_up_def by linarith
qed

lemma fields_end_ge: "\<forall>f \<in> set fs. 0 < snd f \<Longrightarrow> off \<le> fields_end off fs"
proof (induction off fs rule: fields_end.induct)
  case (2 off s a fs)
  then have "align_up off a + s \<le> fields_end (align_up off a + s) fs" by simp
  moreover have "off \<le> align_up off a" using 2 by (simp add: align_up_ge)
  ultimately show ?case by simp
qed simp

lemma sizeof_pe_structs:
  "sizeof_fields pe_image_file_hdr_fields = 24"
  "sizeof_fields pe_image_data_dir_fields = 8"
  "sizeof_fields pe_image_optional_hdr32_fields = 96"
  "sizeof_fields pe_image_optional_hdr64_fields = 112"
  "sizeof_fields pe_image_section_hdr_fields = 40"
  "sizeof_fields cli_exe_section_fields = 36"
  by code_simp+

end
