(* ===== verification/BC_Env.thy ===== *)
theory BC_Env
  imports BC_Endian BC_Enums BC_PE_Structs
begin

text \<open>
  What a bytecode sees of the engine: the read-only globals that
  \<^verbatim>\<open>headers/bytecode_api.h\<close> declares, and the API functions it may call. The API is
  implemented in libclamav, outside this repository, so it is a record of functions over an
  abstract engine state \<open>'w\<close> that every definition using it takes as an argument. The
  predicates below name what \<^verbatim>\<open>bytecode_api.h\<close> documents of single functions; theorems
  that rely on one have it as a hypothesis.
\<close>

section \<open>Globals\<close>

record bc_env =
  big_endian :: bool
  clambc_match_counts :: "uint32_t list"
  clambc_match_offsets :: "uint32_t list"
  clambc_pedata :: cli_pe_hook_data
  clambc_filesize :: "uint32_t list"
  clambc_kind :: uint16_t

definition wf_env :: "bc_env \<Rightarrow> bool" where
  "wf_env e \<longleftrightarrow> length (clambc_match_counts e) = 64 \<and> length (clambc_match_offsets e) = 64
     \<and> length (clambc_filesize e) = 1
     \<and> length (pd_opt32_dirs (clambc_pedata e)) = 16 \<and> length (pd_opt64_dirs (clambc_pedata e)) = 16
     \<and> length (pd_dirs (clambc_pedata e)) = 16"

definition kind_value :: "string \<Rightarrow> uint16_t" where
  "kind_value s = (case enum_value BytecodeKind s of Some v \<Rightarrow> word_of_int v | None \<Rightarrow> 0)"

abbreviation BC_PE_ALL :: uint16_t where "BC_PE_ALL \<equiv> kind_value ''BC_PE_ALL''"
abbreviation BC_PE_UNPACKER :: uint16_t where "BC_PE_UNPACKER \<equiv> kind_value ''BC_PE_UNPACKER''"

definition level_value :: "string \<Rightarrow> uint32_t" where
  "level_value s = (case enum_value FunctionalityLevels s of Some v \<Rightarrow> word_of_int v | None \<Rightarrow> 0)"

definition SEEK_SET :: uint32_t where "SEEK_SET = 0"
definition SEEK_CUR :: uint32_t where "SEEK_CUR = 1"

section \<open>API functions\<close>

text \<open>
  An output buffer is a result: \<open>api_read n\<close> returns the amount and the bytes stored,
  \<open>api_fill_buffer\<close> and \<open>api_disasm_x86\<close> the new contents of the buffer.
\<close>

record 'w bc_api =
  api_seek :: "int32_t \<Rightarrow> uint32_t \<Rightarrow> 'w \<Rightarrow> int32_t \<times> 'w"
  api_read :: "int32_t \<Rightarrow> 'w \<Rightarrow> int32_t \<times> bytes \<times> 'w"
  api_setvirusname :: "bytes \<Rightarrow> uint32_t \<Rightarrow> 'w \<Rightarrow> 'w"
  api_debug_print_str :: "bytes \<Rightarrow> uint32_t \<Rightarrow> 'w \<Rightarrow> 'w"
  api_debug_print_uint :: "uint32_t \<Rightarrow> 'w \<Rightarrow> 'w"
  api_disasm_x86 :: "bytes \<Rightarrow> uint32_t \<Rightarrow> 'w \<Rightarrow> uint32_t \<times> bytes \<times> 'w"
  api_pe_rawaddr :: "uint32_t \<Rightarrow> 'w \<Rightarrow> uint32_t"
  api_get_pe_section :: "uint32_t \<Rightarrow> 'w \<Rightarrow> int32_t \<times> cli_exe_section"
  api_fill_buffer ::
    "bytes \<Rightarrow> uint32_t \<Rightarrow> uint32_t \<Rightarrow> uint32_t \<Rightarrow> uint32_t \<Rightarrow> 'w \<Rightarrow> int32_t \<times> bytes \<times> 'w"
  api_file_find_limit :: "bytes \<Rightarrow> uint32_t \<Rightarrow> int32_t \<Rightarrow> 'w \<Rightarrow> int32_t"
  api_engine_functionality_level :: "'w \<Rightarrow> uint32_t"

section \<open>Documented behaviour\<close>

text \<open>
  \<^verbatim>\<open>seek\<close>: ``Changes the current file position to the specified one'' and returns the
  ``absolute position in file''; it returns -1 and leaves the position alone when the
  position is invalid. \<open>pos\<close> observes the current position of the engine state.
\<close>

definition seek_documented :: "'w bc_api \<Rightarrow> ('w \<Rightarrow> int32_t) \<Rightarrow> bool" where
  "seek_documented api pos \<longleftrightarrow> (\<forall>off w.
     (fst (api_seek api off SEEK_SET w) = off \<and> pos (snd (api_seek api off SEEK_SET w)) = off)
     \<or> (fst (api_seek api off SEEK_SET w) = -1
         \<and> pos (snd (api_seek api off SEEK_SET w)) = pos w))"

text \<open>
  \<^verbatim>\<open>read\<close>: returns the amount read, which is the number of bytes it stored, and never
  stores more than it was asked for.
\<close>

definition read_documented :: "'w bc_api \<Rightarrow> bool" where
  "read_documented api \<longleftrightarrow> (\<forall>n w. case api_read api n w of (r, data, w') \<Rightarrow>
     (0 \<le>s r \<longrightarrow> unat r = length data) \<and> (r <s 0 \<longrightarrow> data = []) \<and> length data \<le> unat n)"

text \<open>Bytes stored at the start of a buffer.\<close>

definition overwrite :: "bytes \<Rightarrow> bytes \<Rightarrow> bytes" where
  "overwrite buf data = data @ drop (length data) buf"

lemma overwrite_full: "length data = length buf \<Longrightarrow> overwrite buf data = data"
  by (simp add: overwrite_def)

lemma seek_documentedE:
  assumes "seek_documented api pos" and "api_seek api off SEEK_SET w = (r, w')"
  shows "(r = off \<and> pos w' = off) \<or> (r = -1 \<and> pos w' = pos w)"
  using assms(1)[unfolded seek_documented_def, rule_format, of off w] assms(2) by simp

lemma read_documentedE:
  assumes "read_documented api" and "api_read api n w = (r, data, w')"
  shows "0 \<le>s r \<Longrightarrow> length data = unat r" and "r <s 0 \<Longrightarrow> data = []"
    and "length data \<le> unat n"
  using assms(1)[unfolded read_documented_def, rule_format, of n w] assms(2) by simp_all

section \<open>A sample engine\<close>

text \<open>
  An engine over a fixed file whose only state is the file position. It satisfies the
  documented behaviour and serves to evaluate the helpers at concrete inputs.
\<close>

definition sample_api :: "bytes \<Rightarrow> uint32_t \<Rightarrow> int32_t bc_api" where
  "sample_api file level = \<lparr>
     api_seek = (\<lambda>off wh w. if unat off \<le> length file then (off, off) else (-1, w)),
     api_read = (\<lambda>n w. let data = take (unat n) (drop (unat w) file)
                  in (of_nat (length data), data, w + of_nat (length data))),
     api_setvirusname = (\<lambda>_ _ w. w),
     api_debug_print_str = (\<lambda>_ _ w. w),
     api_debug_print_uint = (\<lambda>_ w. w),
     api_disasm_x86 = (\<lambda>buf n w. (0, buf, w)),
     api_pe_rawaddr = (\<lambda>rva w. if unat rva < length file then rva else PE_INVALID_RVA),
     api_get_pe_section = (\<lambda>n w. (-1, \<lparr>sec_rva = 0, sec_vsz = 0, sec_raw = 0, sec_rsz = 0,
        sec_chr = 0, sec_urva = 0, sec_uvsz = 0, sec_uraw = 0, sec_ursz = 0\<rparr>)),
     api_fill_buffer = (\<lambda>buf len filled cursor fill w. (0, buf, w)),
     api_file_find_limit = (\<lambda>data n lim w. -1),
     api_engine_functionality_level = (\<lambda>_. level)\<rparr>"

lemma sample_api_seek: "seek_documented (sample_api file level) (\<lambda>w. w)"
  by (simp add: seek_documented_def sample_api_def)

lemma sint_of_small_nat: "k < 2 ^ 31 \<Longrightarrow> sint (of_nat k :: 32 word) = int k"
  by (simp add: signed_of_nat signed_take_bit_int_eq_self)

lemma sample_api_read: "length file < 2 ^ 31 \<Longrightarrow> read_documented (sample_api file level)"
  unfolding read_documented_def
proof (intro allI)
  fix n :: int32_t and w :: int32_t
  assume len: "length file < 2 ^ 31"
  let ?d = "take (unat n) (drop (unat w) file)"
  have "length ?d \<le> length file" by simp
  with len have k: "length ?d < 2 ^ 31" by linarith
  have "sint (of_nat (length ?d) :: 32 word) = int (length ?d)"
    by (rule sint_of_small_nat[OF k])
  moreover have "unat (of_nat (length ?d) :: 32 word) = length ?d"
    using k by (simp add: unat_of_nat)
  ultimately show "case api_read (sample_api file level) n w of (r, data, w') \<Rightarrow>
      (0 \<le>s r \<longrightarrow> unat r = length data) \<and> (r <s 0 \<longrightarrow> data = []) \<and> length data \<le> unat n"
    by (simp add: sample_api_def Let_def word_sle_eq word_sless_alt)
qed

lemma kind_values:
  "kind_value ''BC_PE_UNPACKER'' = 257" "kind_value ''BC_PDF'' = 258"
  "kind_value ''BC_PE_ALL'' = 259" "kind_value ''BC_PRECLASS'' = 260"
  "kind_value ''BC_STARTUP'' = 1" "kind_value ''BC_LOGICAL'' = 256"
  by code_simp+

lemma level_values:
  "level_value ''FUNC_LEVEL_096_1'' = 53" "level_value ''FUNC_LEVEL_096_1_dev'' = 54"
  by code_simp+

section \<open>A sample environment\<close>

text \<open>All-zero headers, used to evaluate the accessors at concrete inputs.\<close>

definition zero_file_hdr :: pe_image_file_hdr where
  "zero_file_hdr =
     \<lparr>fh_Magic = 0, fh_Machine = 0, fh_NumberOfSections = 0, fh_TimeDateStamp = 0,
     fh_PointerToSymbolTable = 0, fh_NumberOfSymbols = 0, fh_SizeOfOptionalHeader = 0,
     fh_Characteristics = 0\<rparr>"

definition zero_hdr32 :: pe_image_optional_hdr32 where
  "zero_hdr32 =
     \<lparr>o32_Magic = 0, o32_MajorLinkerVersion = 0, o32_MinorLinkerVersion = 0,
     o32_SizeOfCode = 0, o32_SizeOfInitializedData = 0, o32_SizeOfUninitializedData = 0,
     o32_AddressOfEntryPoint = 0, o32_BaseOfCode = 0, o32_BaseOfData = 0, o32_ImageBase = 0,
     o32_SectionAlignment = 0, o32_FileAlignment = 0, o32_MajorOperatingSystemVersion = 0,
     o32_MinorOperatingSystemVersion = 0, o32_MajorImageVersion = 0, o32_MinorImageVersion =
     0, o32_MajorSubsystemVersion = 0, o32_MinorSubsystemVersion = 0, o32_Win32VersionValue =
     0, o32_SizeOfImage = 0, o32_SizeOfHeaders = 0, o32_CheckSum = 0, o32_Subsystem = 0,
     o32_DllCharacteristics = 0, o32_SizeOfStackReserve = 0, o32_SizeOfStackCommit = 0,
     o32_SizeOfHeapReserve = 0, o32_SizeOfHeapCommit = 0, o32_LoaderFlags = 0,
     o32_NumberOfRvaAndSizes = 0\<rparr>"

definition zero_hdr64 :: pe_image_optional_hdr64 where
  "zero_hdr64 =
     \<lparr>o64_Magic = 0, o64_MajorLinkerVersion = 0, o64_MinorLinkerVersion = 0,
     o64_SizeOfCode = 0, o64_SizeOfInitializedData = 0, o64_SizeOfUninitializedData = 0,
     o64_AddressOfEntryPoint = 0, o64_BaseOfCode = 0, o64_ImageBase = 0, o64_SectionAlignment
     = 0, o64_FileAlignment = 0, o64_MajorOperatingSystemVersion = 0,
     o64_MinorOperatingSystemVersion = 0, o64_MajorImageVersion = 0, o64_MinorImageVersion =
     0, o64_MajorSubsystemVersion = 0, o64_MinorSubsystemVersion = 0, o64_Win32VersionValue =
     0, o64_SizeOfImage = 0, o64_SizeOfHeaders = 0, o64_CheckSum = 0, o64_Subsystem = 0,
     o64_DllCharacteristics = 0, o64_SizeOfStackReserve = 0, o64_SizeOfStackCommit = 0,
     o64_SizeOfHeapReserve = 0, o64_SizeOfHeapCommit = 0, o64_LoaderFlags = 0,
     o64_NumberOfRvaAndSizes = 0\<rparr>"

definition zero_pedata :: cli_pe_hook_data where
  "zero_pedata =
     \<lparr>pd_offset = 0, pd_ep = 0, pd_nsections = 0, pd_dummy = 0, pd_file_hdr =
     zero_file_hdr, pd_opt32 = zero_hdr32, pd_opt32_dirs = replicate 16
     \<lparr>dd_VirtualAddress = 0, dd_Size = 0\<rparr>, pd_dummy2 = 0, pd_opt64 =
     zero_hdr64, pd_opt64_dirs = replicate 16 \<lparr>dd_VirtualAddress = 0, dd_Size =
     0\<rparr>, pd_dirs = replicate 16 \<lparr>dd_VirtualAddress = 0, dd_Size = 0\<rparr>,
     pd_e_lfanew = 0, pd_overlays = 0, pd_overlays_sz = 0, pd_hdr_size = 0\<rparr>"

definition sample_env :: "uint16_t \<Rightarrow> bc_env" where
  "sample_env k = \<lparr>big_endian = False, clambc_match_counts = replicate 64 0,
     clambc_match_offsets = replicate 64 0, clambc_pedata = zero_pedata,
     clambc_filesize = [0], clambc_kind = k\<rparr>"

end
