(* ===== verification/BC_PE.thy ===== *)
theory BC_PE
  imports BC_Env "HOL-Library.Monad_Syntax"
begin

text \<open>
  The PE helpers of \<^verbatim>\<open>headers/bytecode_local.h\<close> (from \<^verbatim>\<open>hasExeInfo\<close> to
  \<^verbatim>\<open>readRVA\<close>). \<^verbatim>\<open>NEED_PE_INFO\<close> calls a function that does not exist when the
  bytecode is not a PE hook, so such a bytecode does not build: \<open>None\<close>. The headers in
  \<open>clambc_pedata\<close> are the file's little-endian bytes as the host loads them;
  \<open>pe_loaded\<close> relates them to the numbers in the file.
\<close>

section \<open>Hook queries\<close>

definition hasExeInfo :: "bc_env \<Rightarrow> bool" where
  "hasExeInfo e \<longleftrightarrow> pd_offset (clambc_pedata e) \<noteq> -1"

definition hasPEInfo :: "bc_env \<Rightarrow> bool" where
  "hasPEInfo e \<longleftrightarrow> clambc_kind e = BC_PE_ALL \<or> clambc_kind e = BC_PE_UNPACKER"

definition NEED_PE_INFO :: "bc_env \<Rightarrow> unit option" where
  "NEED_PE_INFO e = (if \<not> hasPEInfo e then None else Some ())"

definition isPE64 :: "bc_env \<Rightarrow> bool option" where
  "isPE64 e = map_option
     (\<lambda>_. le16_to_host (big_endian e) (o64_Magic (pd_opt64 (clambc_pedata e))) = 0x020b)
     (NEED_PE_INFO e)"

section \<open>Header fields\<close>

definition getPEMajorLinkerVersion :: "bc_env \<Rightarrow> uint8_t option" where
  "getPEMajorLinkerVersion e = map_option
     (\<lambda>pe64.
        if pe64 then o64_MajorLinkerVersion (pd_opt64 (clambc_pedata e))
        else o32_MajorLinkerVersion (pd_opt32 (clambc_pedata e)))
     (isPE64 e)"

definition getPEMinorLinkerVersion :: "bc_env \<Rightarrow> uint8_t option" where
  "getPEMinorLinkerVersion e = map_option
     (\<lambda>pe64.
        if pe64 then o64_MinorLinkerVersion (pd_opt64 (clambc_pedata e))
        else o32_MinorLinkerVersion (pd_opt32 (clambc_pedata e)))
     (isPE64 e)"

definition getPESizeOfCode :: "bc_env \<Rightarrow> uint32_t option" where
  "getPESizeOfCode e = map_option
     (\<lambda>pe64. le32_to_host (big_endian e)
        (if pe64 then o64_SizeOfCode (pd_opt64 (clambc_pedata e))
         else o32_SizeOfCode (pd_opt32 (clambc_pedata e))))
     (isPE64 e)"

definition getPESizeOfInitializedData :: "bc_env \<Rightarrow> uint32_t option" where
  "getPESizeOfInitializedData e = map_option
     (\<lambda>pe64. le32_to_host (big_endian e)
        (if pe64 then o64_SizeOfInitializedData (pd_opt64 (clambc_pedata e))
         else o32_SizeOfInitializedData (pd_opt32 (clambc_pedata e))))
     (isPE64 e)"

definition getPESizeOfUninitializedData :: "bc_env \<Rightarrow> uint32_t option" where
  "getPESizeOfUninitializedData e = map_option
     (\<lambda>pe64. le32_to_host (big_endian e)
        (if pe64 then o64_SizeOfUninitializedData (pd_opt64 (clambc_pedata e))
         else o32_SizeOfUninitializedData (pd_opt32 (clambc_pedata e))))
     (isPE64 e)"

definition getPEBaseOfCode :: "bc_env \<Rightarrow> uint32_t option" where
  "getPEBaseOfCode e = map_option
     (\<lambda>pe64. le32_to_host (big_endian e)
        (if pe64 then o64_BaseOfCode (pd_opt64 (clambc_pedata e))
         else o32_BaseOfCode (pd_opt32 (clambc_pedata e))))
     (isPE64 e)"

definition getPEBaseOfData :: "bc_env \<Rightarrow> uint32_t option" where
  "getPEBaseOfData e = map_option
     (\<lambda>pe64. le32_to_host (big_endian e)
        (if pe64 then 0
         else o32_BaseOfData (pd_opt32 (clambc_pedata e))))
     (isPE64 e)"

definition getPEImageBase :: "bc_env \<Rightarrow> uint64_t option" where
  "getPEImageBase e = map_option
     (\<lambda>pe64. le64_to_host (big_endian e)
        (if pe64 then o64_ImageBase (pd_opt64 (clambc_pedata e))
         else ucast (o32_ImageBase (pd_opt32 (clambc_pedata e)))))
     (isPE64 e)"

definition getPESectionAlignment :: "bc_env \<Rightarrow> uint32_t option" where
  "getPESectionAlignment e = map_option
     (\<lambda>pe64. le32_to_host (big_endian e)
        (if pe64 then o64_SectionAlignment (pd_opt64 (clambc_pedata e))
         else o32_SectionAlignment (pd_opt32 (clambc_pedata e))))
     (isPE64 e)"

definition getPEFileAlignment :: "bc_env \<Rightarrow> uint32_t option" where
  "getPEFileAlignment e = map_option
     (\<lambda>pe64. le32_to_host (big_endian e)
        (if pe64 then o64_FileAlignment (pd_opt64 (clambc_pedata e))
         else o32_FileAlignment (pd_opt32 (clambc_pedata e))))
     (isPE64 e)"

definition getPEMajorOperatingSystemVersion :: "bc_env \<Rightarrow> uint16_t option" where
  "getPEMajorOperatingSystemVersion e = map_option
     (\<lambda>pe64. le16_to_host (big_endian e)
        (if pe64 then o64_MajorOperatingSystemVersion (pd_opt64 (clambc_pedata e))
         else o32_MajorOperatingSystemVersion (pd_opt32 (clambc_pedata e))))
     (isPE64 e)"

definition getPEMinorOperatingSystemVersion :: "bc_env \<Rightarrow> uint16_t option" where
  "getPEMinorOperatingSystemVersion e = map_option
     (\<lambda>pe64. le16_to_host (big_endian e)
        (if pe64 then o64_MinorOperatingSystemVersion (pd_opt64 (clambc_pedata e))
         else o32_MinorOperatingSystemVersion (pd_opt32 (clambc_pedata e))))
     (isPE64 e)"

definition getPEMajorImageVersion :: "bc_env \<Rightarrow> uint16_t option" where
  "getPEMajorImageVersion e = map_option
     (\<lambda>pe64. le16_to_host (big_endian e)
        (if pe64 then o64_MajorImageVersion (pd_opt64 (clambc_pedata e))
         else o32_MajorImageVersion (pd_opt32 (clambc_pedata e))))
     (isPE64 e)"

definition getPEMinorImageVersion :: "bc_env \<Rightarrow> uint16_t option" where
  "getPEMinorImageVersion e = map_option
     (\<lambda>pe64. le16_to_host (big_endian e)
        (if pe64 then o64_MinorImageVersion (pd_opt64 (clambc_pedata e))
         else o32_MinorImageVersion (pd_opt32 (clambc_pedata e))))
     (isPE64 e)"

definition getPEMajorSubsystemVersion :: "bc_env \<Rightarrow> uint16_t option" where
  "getPEMajorSubsystemVersion e = map_option
     (\<lambda>pe64. le16_to_host (big_endian e)
        (if pe64 then o64_MajorSubsystemVersion (pd_opt64 (clambc_pedata e))
         else o32_MajorSubsystemVersion (pd_opt32 (clambc_pedata e))))
     (isPE64 e)"

definition getPEMinorSubsystemVersion :: "bc_env \<Rightarrow> uint16_t option" where
  "getPEMinorSubsystemVersion e = map_option
     (\<lambda>pe64. le16_to_host (big_endian e)
        (if pe64 then o64_MinorSubsystemVersion (pd_opt64 (clambc_pedata e))
         else o32_MinorSubsystemVersion (pd_opt32 (clambc_pedata e))))
     (isPE64 e)"

definition getPEWin32VersionValue :: "bc_env \<Rightarrow> uint32_t option" where
  "getPEWin32VersionValue e = map_option
     (\<lambda>pe64. le32_to_host (big_endian e)
        (if pe64 then o64_Win32VersionValue (pd_opt64 (clambc_pedata e))
         else o32_Win32VersionValue (pd_opt32 (clambc_pedata e))))
     (isPE64 e)"

definition getPESizeOfImage :: "bc_env \<Rightarrow> uint32_t option" where
  "getPESizeOfImage e = map_option
     (\<lambda>pe64. le32_to_host (big_endian e)
        (if pe64 then o64_SizeOfImage (pd_opt64 (clambc_pedata e))
         else o32_SizeOfImage (pd_opt32 (clambc_pedata e))))
     (isPE64 e)"

definition getPESizeOfHeaders :: "bc_env \<Rightarrow> uint32_t option" where
  "getPESizeOfHeaders e = map_option
     (\<lambda>pe64. le32_to_host (big_endian e)
        (if pe64 then o64_SizeOfHeaders (pd_opt64 (clambc_pedata e))
         else o32_SizeOfHeaders (pd_opt32 (clambc_pedata e))))
     (isPE64 e)"

definition getPECheckSum :: "bc_env \<Rightarrow> uint32_t option" where
  "getPECheckSum e = map_option
     (\<lambda>pe64. le32_to_host (big_endian e)
        (if pe64 then o64_CheckSum (pd_opt64 (clambc_pedata e))
         else o32_CheckSum (pd_opt32 (clambc_pedata e))))
     (isPE64 e)"

definition getPESubsystem :: "bc_env \<Rightarrow> uint16_t option" where
  "getPESubsystem e = map_option
     (\<lambda>pe64. le16_to_host (big_endian e)
        (if pe64 then o64_Subsystem (pd_opt64 (clambc_pedata e))
         else o32_Subsystem (pd_opt32 (clambc_pedata e))))
     (isPE64 e)"

definition getPEDllCharacteristics :: "bc_env \<Rightarrow> uint16_t option" where
  "getPEDllCharacteristics e = map_option
     (\<lambda>pe64. le16_to_host (big_endian e)
        (if pe64 then o64_DllCharacteristics (pd_opt64 (clambc_pedata e))
         else o32_DllCharacteristics (pd_opt32 (clambc_pedata e))))
     (isPE64 e)"

definition getPESizeOfStackReserve :: "bc_env \<Rightarrow> uint32_t option" where
  "getPESizeOfStackReserve e = map_option
     (\<lambda>pe64. le32_to_host (big_endian e) (ucast
        (if pe64 then o64_SizeOfStackReserve (pd_opt64 (clambc_pedata e))
         else ucast (o32_SizeOfStackReserve (pd_opt32 (clambc_pedata e))) :: uint64_t)))
     (isPE64 e)"

definition getPESizeOfStackCommit :: "bc_env \<Rightarrow> uint32_t option" where
  "getPESizeOfStackCommit e = map_option
     (\<lambda>pe64. le32_to_host (big_endian e) (ucast
        (if pe64 then o64_SizeOfStackCommit (pd_opt64 (clambc_pedata e))
         else ucast (o32_SizeOfStackCommit (pd_opt32 (clambc_pedata e))) :: uint64_t)))
     (isPE64 e)"

definition getPESizeOfHeapReserve :: "bc_env \<Rightarrow> uint32_t option" where
  "getPESizeOfHeapReserve e = map_option
     (\<lambda>pe64. le32_to_host (big_endian e) (ucast
        (if pe64 then o64_SizeOfHeapReserve (pd_opt64 (clambc_pedata e))
         else ucast (o32_SizeOfHeapReserve (pd_opt32 (clambc_pedata e))) :: uint64_t)))
     (isPE64 e)"

definition getPESizeOfHeapCommit :: "bc_env \<Rightarrow> uint32_t option" where
  "getPESizeOfHeapCommit e = map_option
     (\<lambda>pe64. le32_to_host (big_endian e) (ucast
        (if pe64 then o64_SizeOfHeapCommit (pd_opt64 (clambc_pedata e))
         else ucast (o32_SizeOfHeapCommit (pd_opt32 (clambc_pedata e))) :: uint64_t)))
     (isPE64 e)"

definition getPELoaderFlags :: "bc_env \<Rightarrow> uint32_t option" where
  "getPELoaderFlags e = map_option
     (\<lambda>pe64. le32_to_host (big_endian e)
        (if pe64 then o64_LoaderFlags (pd_opt64 (clambc_pedata e))
         else o32_LoaderFlags (pd_opt32 (clambc_pedata e))))
     (isPE64 e)"

definition getPEMachine :: "bc_env \<Rightarrow> uint16_t option" where
  "getPEMachine e = map_option
     (\<lambda>_. le16_to_host (big_endian e) (fh_Machine (pd_file_hdr (clambc_pedata e))))
     (NEED_PE_INFO e)"

definition getPETimeDateStamp :: "bc_env \<Rightarrow> uint32_t option" where
  "getPETimeDateStamp e = map_option
     (\<lambda>_. le32_to_host (big_endian e) (fh_TimeDateStamp (pd_file_hdr (clambc_pedata e))))
     (NEED_PE_INFO e)"

definition getPEPointerToSymbolTable :: "bc_env \<Rightarrow> uint32_t option" where
  "getPEPointerToSymbolTable e = map_option
     (\<lambda>_. le32_to_host (big_endian e) (fh_PointerToSymbolTable (pd_file_hdr (clambc_pedata e))))
     (NEED_PE_INFO e)"

definition getPENumberOfSymbols :: "bc_env \<Rightarrow> uint32_t option" where
  "getPENumberOfSymbols e = map_option
     (\<lambda>_. le32_to_host (big_endian e) (fh_NumberOfSymbols (pd_file_hdr (clambc_pedata e))))
     (NEED_PE_INFO e)"

definition getPESizeOfOptionalHeader :: "bc_env \<Rightarrow> uint16_t option" where
  "getPESizeOfOptionalHeader e = map_option
     (\<lambda>_. le16_to_host (big_endian e) (fh_SizeOfOptionalHeader (pd_file_hdr (clambc_pedata e))))
     (NEED_PE_INFO e)"

definition getPECharacteristics :: "bc_env \<Rightarrow> uint16_t option" where
  "getPECharacteristics e = map_option
     (\<lambda>_. le16_to_host (big_endian e) (fh_Characteristics (pd_file_hdr (clambc_pedata e))))
     (NEED_PE_INFO e)"

definition getPEisDLL :: "bc_env \<Rightarrow> bool option" where
  "getPEisDLL e = map_option (\<lambda>c. c AND 0x2000 \<noteq> 0) (getPECharacteristics e)"

definition getPEDataDirRVA :: "bc_env \<Rightarrow> uint32_t \<Rightarrow> uint32_t option" where
  "getPEDataDirRVA e n = do {
     NEED_PE_INFO e;
     if n < 16 then do {
       pe64 \<leftarrow> isPE64 e;
       d \<leftarrow> nth_opt (if pe64 then pd_opt64_dirs (clambc_pedata e)
                     else pd_opt32_dirs (clambc_pedata e)) (unat n);
       Some (le32_to_host (big_endian e) (dd_VirtualAddress d)) }
     else Some 0 }"

definition getPEDataDirSize :: "bc_env \<Rightarrow> uint32_t \<Rightarrow> uint32_t option" where
  "getPEDataDirSize e n = do {
     NEED_PE_INFO e;
     if n < 16 then do {
       pe64 \<leftarrow> isPE64 e;
       d \<leftarrow> nth_opt (if pe64 then pd_opt64_dirs (clambc_pedata e)
                     else pd_opt32_dirs (clambc_pedata e)) (unat n);
       Some (le32_to_host (big_endian e) (dd_Size d)) }
     else Some 0 }"

definition getNumberOfSections :: "bc_env \<Rightarrow> uint16_t" where
  "getNumberOfSections e = pd_nsections (clambc_pedata e)"

definition getPELFANew :: "bc_env \<Rightarrow> uint32_t option" where
  "getPELFANew e = map_option (\<lambda>_. le32_to_host (big_endian e) (pd_e_lfanew (clambc_pedata e)))
     (NEED_PE_INFO e)"

text \<open>The file offset \<^verbatim>\<open>readPESectionName\<close> computes, in 32-bit arithmetic.\<close>

definition section_name_offset :: "bc_env \<Rightarrow> uint32_t \<Rightarrow> uint32_t option" where
  "section_name_offset e n = do {
     lfanew \<leftarrow> getPELFANew e;
     let at = lfanew + of_nat (sizeof_fields pe_image_file_hdr_fields)
                + of_nat (sizeof_fields pe_image_optional_hdr32_fields);
     pe64 \<leftarrow> isPE64 e;
     soh \<leftarrow> getPESizeOfOptionalHeader e;
     let at = (if \<not> pe64 then at + (ucast soh - of_nat (sizeof_fields pe_image_optional_hdr32_fields))
               else at + (of_nat (sizeof_fields pe_image_optional_hdr64_fields)
                            - of_nat (sizeof_fields pe_image_optional_hdr32_fields)));
     Some (at + n * of_nat (sizeof_fields pe_image_section_hdr_fields)) }"

definition readPESectionName ::
  "'w bc_api \<Rightarrow> bc_env \<Rightarrow> bytes \<Rightarrow> uint32_t \<Rightarrow> 'w \<Rightarrow> (int32_t \<times> bytes \<times> 'w) option" where
  "readPESectionName api e name n w = do {
     NEED_PE_INFO e;
     if n \<ge> ucast (getNumberOfSections e) then Some (-1, name, w)
     else do {
       at \<leftarrow> section_name_offset e n;
       let (pos, w1) = api_seek api at SEEK_SET w;
       if pos = -1 then Some (-2, name, w1)
       else (case api_read api 8 w1 of (got, data, w2) \<Rightarrow>
         if got \<noteq> 8 then Some (-3, overwrite name data, w2)
         else (case api_seek api pos SEEK_SET w2 of (_, w3) \<Rightarrow>
           Some (0, overwrite name data, w3))) } }"

definition getEntryPoint :: "bc_env \<Rightarrow> uint32_t" where
  "getEntryPoint e = pd_ep (clambc_pedata e)"

definition getExeOffset :: "bc_env \<Rightarrow> uint32_t" where
  "getExeOffset e = pd_offset (clambc_pedata e)"

definition getImageBase :: "bc_env \<Rightarrow> uint32_t option" where
  "getImageBase e = map_option
     (\<lambda>_. le32_to_host (big_endian e) (o32_ImageBase (pd_opt32 (clambc_pedata e))))
     (NEED_PE_INFO e)"

definition getVirtualEntryPoint :: "bc_env \<Rightarrow> uint32_t option" where
  "getVirtualEntryPoint e = do {
     NEED_PE_INFO e;
     pe64 \<leftarrow> isPE64 e;
     Some (le32_to_host (big_endian e)
       (if pe64 then o64_AddressOfEntryPoint (pd_opt64 (clambc_pedata e))
        else o32_AddressOfEntryPoint (pd_opt32 (clambc_pedata e)))) }"

definition getSectionRVA :: "'w bc_api \<Rightarrow> uint32_t \<Rightarrow> 'w \<Rightarrow> uint32_t" where
  "getSectionRVA api i w = (case api_get_pe_section api i w of (r, sec) \<Rightarrow>
     if r = -1 then -1 else sec_rva sec)"

definition getSectionVirtualSize :: "'w bc_api \<Rightarrow> uint32_t \<Rightarrow> 'w \<Rightarrow> uint32_t" where
  "getSectionVirtualSize api i w = (case api_get_pe_section api i w of (r, sec) \<Rightarrow>
     if r = -1 then -1 else sec_vsz sec)"

definition readRVA :: "'w bc_api \<Rightarrow> uint32_t \<Rightarrow> bytes \<Rightarrow> size_t \<Rightarrow> 'w \<Rightarrow> bool \<times> bytes \<times> 'w" where
  "readRVA api rva buf bufsize w =
     (let off = api_pe_rawaddr api rva w in
      if off = PE_INVALID_RVA then (False, buf, w)
      else case api_seek api off SEEK_SET w of (oldpos, w1) \<Rightarrow>
        if oldpos = -1 then (False, buf, w1)
        else case api_read api bufsize w1 of (got, data, w2) \<Rightarrow>
          if got \<noteq> bufsize then (False, overwrite buf data, w2)
          else case api_seek api oldpos SEEK_SET w2 of (_, w3) \<Rightarrow>
            (True, overwrite buf data, w3))"

section \<open>The file's headers as the host sees them\<close>

text \<open>
  libclamav copies the file's header bytes into the hook data, so on a big-endian host each
  multi-byte field holds the file's number with its bytes swapped. Given the numbers the
  file contains, \<open>pe_loaded be\<close> is the hook data of a host of that byte order.
\<close>

definition pe_image_file_hdr_loaded :: "bool \<Rightarrow> pe_image_file_hdr \<Rightarrow> pe_image_file_hdr" where
  "pe_image_file_hdr_loaded be h = \<lparr>
     fh_Magic = le32_to_host be (fh_Magic h),
     fh_Machine = le16_to_host be (fh_Machine h),
     fh_NumberOfSections = le16_to_host be (fh_NumberOfSections h),
     fh_TimeDateStamp = le32_to_host be (fh_TimeDateStamp h),
     fh_PointerToSymbolTable = le32_to_host be (fh_PointerToSymbolTable h),
     fh_NumberOfSymbols = le32_to_host be (fh_NumberOfSymbols h),
     fh_SizeOfOptionalHeader = le16_to_host be (fh_SizeOfOptionalHeader h),
     fh_Characteristics = le16_to_host be (fh_Characteristics h)\<rparr>"

definition pe_image_data_dir_loaded :: "bool \<Rightarrow> pe_image_data_dir \<Rightarrow> pe_image_data_dir" where
  "pe_image_data_dir_loaded be h = \<lparr>
     dd_VirtualAddress = le32_to_host be (dd_VirtualAddress h),
     dd_Size = le32_to_host be (dd_Size h)\<rparr>"

definition pe_image_optional_hdr32_loaded :: "bool \<Rightarrow> pe_image_optional_hdr32 \<Rightarrow> pe_image_optional_hdr32" where
  "pe_image_optional_hdr32_loaded be h = \<lparr>
     o32_Magic = le16_to_host be (o32_Magic h),
     o32_MajorLinkerVersion = o32_MajorLinkerVersion h,
     o32_MinorLinkerVersion = o32_MinorLinkerVersion h,
     o32_SizeOfCode = le32_to_host be (o32_SizeOfCode h),
     o32_SizeOfInitializedData = le32_to_host be (o32_SizeOfInitializedData h),
     o32_SizeOfUninitializedData = le32_to_host be (o32_SizeOfUninitializedData h),
     o32_AddressOfEntryPoint = le32_to_host be (o32_AddressOfEntryPoint h),
     o32_BaseOfCode = le32_to_host be (o32_BaseOfCode h),
     o32_BaseOfData = le32_to_host be (o32_BaseOfData h),
     o32_ImageBase = le32_to_host be (o32_ImageBase h),
     o32_SectionAlignment = le32_to_host be (o32_SectionAlignment h),
     o32_FileAlignment = le32_to_host be (o32_FileAlignment h),
     o32_MajorOperatingSystemVersion = le16_to_host be (o32_MajorOperatingSystemVersion h),
     o32_MinorOperatingSystemVersion = le16_to_host be (o32_MinorOperatingSystemVersion h),
     o32_MajorImageVersion = le16_to_host be (o32_MajorImageVersion h),
     o32_MinorImageVersion = le16_to_host be (o32_MinorImageVersion h),
     o32_MajorSubsystemVersion = le16_to_host be (o32_MajorSubsystemVersion h),
     o32_MinorSubsystemVersion = le16_to_host be (o32_MinorSubsystemVersion h),
     o32_Win32VersionValue = le32_to_host be (o32_Win32VersionValue h),
     o32_SizeOfImage = le32_to_host be (o32_SizeOfImage h),
     o32_SizeOfHeaders = le32_to_host be (o32_SizeOfHeaders h),
     o32_CheckSum = le32_to_host be (o32_CheckSum h),
     o32_Subsystem = le16_to_host be (o32_Subsystem h),
     o32_DllCharacteristics = le16_to_host be (o32_DllCharacteristics h),
     o32_SizeOfStackReserve = le32_to_host be (o32_SizeOfStackReserve h),
     o32_SizeOfStackCommit = le32_to_host be (o32_SizeOfStackCommit h),
     o32_SizeOfHeapReserve = le32_to_host be (o32_SizeOfHeapReserve h),
     o32_SizeOfHeapCommit = le32_to_host be (o32_SizeOfHeapCommit h),
     o32_LoaderFlags = le32_to_host be (o32_LoaderFlags h),
     o32_NumberOfRvaAndSizes = le32_to_host be (o32_NumberOfRvaAndSizes h)\<rparr>"

definition pe_image_optional_hdr64_loaded :: "bool \<Rightarrow> pe_image_optional_hdr64 \<Rightarrow> pe_image_optional_hdr64" where
  "pe_image_optional_hdr64_loaded be h = \<lparr>
     o64_Magic = le16_to_host be (o64_Magic h),
     o64_MajorLinkerVersion = o64_MajorLinkerVersion h,
     o64_MinorLinkerVersion = o64_MinorLinkerVersion h,
     o64_SizeOfCode = le32_to_host be (o64_SizeOfCode h),
     o64_SizeOfInitializedData = le32_to_host be (o64_SizeOfInitializedData h),
     o64_SizeOfUninitializedData = le32_to_host be (o64_SizeOfUninitializedData h),
     o64_AddressOfEntryPoint = le32_to_host be (o64_AddressOfEntryPoint h),
     o64_BaseOfCode = le32_to_host be (o64_BaseOfCode h),
     o64_ImageBase = le64_to_host be (o64_ImageBase h),
     o64_SectionAlignment = le32_to_host be (o64_SectionAlignment h),
     o64_FileAlignment = le32_to_host be (o64_FileAlignment h),
     o64_MajorOperatingSystemVersion = le16_to_host be (o64_MajorOperatingSystemVersion h),
     o64_MinorOperatingSystemVersion = le16_to_host be (o64_MinorOperatingSystemVersion h),
     o64_MajorImageVersion = le16_to_host be (o64_MajorImageVersion h),
     o64_MinorImageVersion = le16_to_host be (o64_MinorImageVersion h),
     o64_MajorSubsystemVersion = le16_to_host be (o64_MajorSubsystemVersion h),
     o64_MinorSubsystemVersion = le16_to_host be (o64_MinorSubsystemVersion h),
     o64_Win32VersionValue = le32_to_host be (o64_Win32VersionValue h),
     o64_SizeOfImage = le32_to_host be (o64_SizeOfImage h),
     o64_SizeOfHeaders = le32_to_host be (o64_SizeOfHeaders h),
     o64_CheckSum = le32_to_host be (o64_CheckSum h),
     o64_Subsystem = le16_to_host be (o64_Subsystem h),
     o64_DllCharacteristics = le16_to_host be (o64_DllCharacteristics h),
     o64_SizeOfStackReserve = le64_to_host be (o64_SizeOfStackReserve h),
     o64_SizeOfStackCommit = le64_to_host be (o64_SizeOfStackCommit h),
     o64_SizeOfHeapReserve = le64_to_host be (o64_SizeOfHeapReserve h),
     o64_SizeOfHeapCommit = le64_to_host be (o64_SizeOfHeapCommit h),
     o64_LoaderFlags = le32_to_host be (o64_LoaderFlags h),
     o64_NumberOfRvaAndSizes = le32_to_host be (o64_NumberOfRvaAndSizes h)\<rparr>"

definition pe_loaded :: "bool \<Rightarrow> cli_pe_hook_data \<Rightarrow> cli_pe_hook_data" where
  "pe_loaded be p = p\<lparr>
     pd_file_hdr := pe_image_file_hdr_loaded be (pd_file_hdr p),
     pd_opt32 := pe_image_optional_hdr32_loaded be (pd_opt32 p),
     pd_opt32_dirs := map (pe_image_data_dir_loaded be) (pd_opt32_dirs p),
     pd_opt64 := pe_image_optional_hdr64_loaded be (pd_opt64 p),
     pd_opt64_dirs := map (pe_image_data_dir_loaded be) (pd_opt64_dirs p),
     pd_e_lfanew := le32_to_host be (pd_e_lfanew p)\<rparr>"

definition env_on :: "bool \<Rightarrow> bc_env \<Rightarrow> bc_env" where
  "env_on be e = e\<lparr>big_endian := be, clambc_pedata := pe_loaded be (clambc_pedata e)\<rparr>"

section \<open>Endianness\<close>

lemmas pe_accessor_defs [bc_defs] =
  getPEMajorLinkerVersion_def getPEMinorLinkerVersion_def getPESizeOfCode_def
  getPESizeOfInitializedData_def getPESizeOfUninitializedData_def getPEBaseOfCode_def
  getPEBaseOfData_def getPEImageBase_def getPESectionAlignment_def getPEFileAlignment_def
  getPEMajorOperatingSystemVersion_def getPEMinorOperatingSystemVersion_def
  getPEMajorImageVersion_def getPEMinorImageVersion_def getPEMajorSubsystemVersion_def
  getPEMinorSubsystemVersion_def getPEWin32VersionValue_def getPESizeOfImage_def
  getPESizeOfHeaders_def getPECheckSum_def getPESubsystem_def getPEDllCharacteristics_def
  getPESizeOfStackReserve_def getPESizeOfStackCommit_def getPESizeOfHeapReserve_def
  getPESizeOfHeapCommit_def getPELoaderFlags_def getPEMachine_def getPETimeDateStamp_def
  getPEPointerToSymbolTable_def getPENumberOfSymbols_def getPESizeOfOptionalHeader_def
  getPECharacteristics_def getPEisDLL_def getPELFANew_def getImageBase_def
  getVirtualEntryPoint_def

lemmas pe_loaded_defs =
  env_on_def pe_loaded_def pe_image_file_hdr_loaded_def pe_image_optional_hdr32_loaded_def
  pe_image_optional_hdr64_loaded_def pe_image_data_dir_loaded_def

lemma le_of_file [simp]:
  "le16_to_host be (le16_to_host be u) = u" "le32_to_host be (le32_to_host be v) = v"
  "le64_to_host be (le64_to_host be x) = x"
  by (simp_all add: bo16.le_involution bo32.le_involution bo64.le_involution)

lemma le_on_little [simp]:
  "le16_to_host False u = u" "le32_to_host False v = v" "le64_to_host False x = x"
  by (simp_all add: le16_to_host_def le32_to_host_def le64_to_host_def)

lemma le32_zero [simp]: "le32_to_host be 0 = 0"
  by (cases be) (simp_all add: le32_to_host_def bswap32_def eval_nat_numeral)

lemma NEED_PE_INFO_hook: "hasPEInfo e \<Longrightarrow> NEED_PE_INFO e = Some ()"
  by (simp add: NEED_PE_INFO_def)

lemma NEED_PE_INFO_env_on [simp]: "NEED_PE_INFO (env_on be e) = NEED_PE_INFO e"
  by (simp add: NEED_PE_INFO_def hasPEInfo_def env_on_def)

lemma isPE64_env_on [simp]:
  "isPE64 (env_on be e) = map_option (\<lambda>_. o64_Magic (pd_opt64 (clambc_pedata e)) = 0x020b)
     (NEED_PE_INFO e)"
  by (simp add: isPE64_def) (simp add: pe_loaded_defs)





section \<open>Fields wider than 32 bits\<close>

lemma bswap32_of_bswap64: "bswap32 (ucast (bswap64 v)) = ucast (drop_bit 32 v)"
proof (rule bytes_le_eqI[where n = 4])
  have "bytes_le 4 (bswap32 (ucast (bswap64 v))) = rev (take 4 (bytes_le 8 (bswap64 v)))"
    by (simp add: bytes_bswap32 bytes_le_ucast take_bytes_le)
  also have "\<dots> = drop 4 (bytes_le 8 v)"
    by (simp add: bytes_bswap64 rev_take)
  also have "\<dots> = bytes_le 4 (ucast (drop_bit 32 v) :: 32 word)"
    by (simp add: drop_bytes_le bytes_le_ucast)
  finally show "bytes_le 4 (bswap32 (ucast (bswap64 v)))
      = bytes_le 4 (ucast (drop_bit 32 v) :: 32 word)" .
qed simp

lemma bswap64_of_bswap32: "bswap64 (ucast (bswap32 v)) = push_bit 32 (ucast v)"
proof (rule bytes_le_eqI[where n = 8])
  have "bytes_le 8 (bswap64 (ucast (bswap32 v))) = replicate 4 0 @ bytes_le 4 v"
    using bytes_le_zero_extend[where 'a = 32 and 'b = 64, of 4 4 "bswap32 v"]
    by (simp add: bytes_bswap64 bytes_bswap32)
  also have "\<dots> = bytes_le 8 (push_bit 32 (ucast v :: 64 word))"
    using bytes_le_push_bit[where 'a = 64, of 4 4 "ucast v"]
    by (simp add: bytes_le_ucast)
  finally show "bytes_le 8 (bswap64 (ucast (bswap32 v))) = bytes_le 8 (push_bit 32 (ucast v :: 64 word))" .
qed simp

text \<open>
  the accessors that mix 32-bit and 64-bit header fields are wrong on a big-endian host.
  The stack and heap sizes of a PE32+ file are truncated to 32 bits before the byte swap, so
  the host reports the high half of the file's number where a little-endian host reports
  the low half; the ImageBase of a PE32 file is extended to 64 bits before the byte swap
  and comes out shifted left by 32 bits.
\<close>

theorem wide_fields_big_endian:
  assumes "hasPEInfo e"
  shows "if o64_Magic (pd_opt64 (clambc_pedata e)) = 0x020b then
      getPESizeOfStackReserve (env_on be e) = Some
        (if be then ucast (drop_bit 32 (o64_SizeOfStackReserve (pd_opt64 (clambc_pedata e))))
         else ucast (o64_SizeOfStackReserve (pd_opt64 (clambc_pedata e))))
      \<and> getPESizeOfStackCommit (env_on be e) = Some
        (if be then ucast (drop_bit 32 (o64_SizeOfStackCommit (pd_opt64 (clambc_pedata e))))
         else ucast (o64_SizeOfStackCommit (pd_opt64 (clambc_pedata e))))
      \<and> getPESizeOfHeapReserve (env_on be e) = Some
        (if be then ucast (drop_bit 32 (o64_SizeOfHeapReserve (pd_opt64 (clambc_pedata e))))
         else ucast (o64_SizeOfHeapReserve (pd_opt64 (clambc_pedata e))))
      \<and> getPESizeOfHeapCommit (env_on be e) = Some
        (if be then ucast (drop_bit 32 (o64_SizeOfHeapCommit (pd_opt64 (clambc_pedata e))))
         else ucast (o64_SizeOfHeapCommit (pd_opt64 (clambc_pedata e))))
    else getPEImageBase (env_on be e) = Some
        (if be then push_bit 32 (ucast (o32_ImageBase (pd_opt32 (clambc_pedata e))))
         else ucast (o32_ImageBase (pd_opt32 (clambc_pedata e))))"
proof (cases "o64_Magic (pd_opt64 (clambc_pedata e)) = 0x020b")
  case True
  with assms bswap32_of_bswap64 show ?thesis
    by (simp add: pe_accessor_defs NEED_PE_INFO_hook)
      (simp add: pe_loaded_defs le32_to_host_def le64_to_host_def)
next
  case False
  with assms bswap64_of_bswap32 show ?thesis
    by (simp add: pe_accessor_defs NEED_PE_INFO_hook)
      (simp add: pe_loaded_defs le32_to_host_def le64_to_host_def)
qed

theorem wide_fields_big_endian_witness:
  "let e = sample_env 259\<lparr>clambc_pedata := zero_pedata\<lparr>
        pd_opt64 := zero_hdr64\<lparr>o64_Magic := 0x20b, o64_SizeOfStackReserve := 0x100000\<rparr>\<rparr>\<rparr>
   in getPESizeOfStackReserve (env_on True e) = Some 0
      \<and> getPESizeOfStackReserve (env_on False e) = Some 0x100000"
  using wide_fields_big_endian[of "sample_env 259\<lparr>clambc_pedata := zero_pedata\<lparr>
        pd_opt64 := zero_hdr64\<lparr>o64_Magic := 0x20b, o64_SizeOfStackReserve := 0x100000\<rparr>\<rparr>\<rparr>" True]
    wide_fields_big_endian[of "sample_env 259\<lparr>clambc_pedata := zero_pedata\<lparr>
        pd_opt64 := zero_hdr64\<lparr>o64_Magic := 0x20b, o64_SizeOfStackReserve := 0x100000\<rparr>\<rparr>\<rparr>" False]
  by (simp add: hasPEInfo_def kind_values sample_env_def)

section \<open>Section names and reads by virtual address\<close>

text \<open>
  where \<^verbatim>\<open>readPESectionName\<close> looks for the name of section \<open>n\<close>. For a PE32 file it
  is the start of the \<open>n\<close>-th 40-byte section header behind the optional header, whose size
  it takes from the file header. For a PE32+ file it is 112 bytes behind the file header,
  the size of \<^verbatim>\<open>struct pe_image_optional_hdr64\<close> without its data directory, whatever
  size the file header gives.
\<close>

theorem section_name_offset_value:
  assumes "hasPEInfo e"
  shows "section_name_offset (env_on be e) n = Some
     (pd_e_lfanew (clambc_pedata e) + 24
      + (if o64_Magic (pd_opt64 (clambc_pedata e)) = 0x020b then 112
         else ucast (fh_SizeOfOptionalHeader (pd_file_hdr (clambc_pedata e))))
      + 40 * n)"
  using assms
  by (simp add: section_name_offset_def getPELFANew_def getPESizeOfOptionalHeader_def
      NEED_PE_INFO_hook sizeof_pe_structs Let_def)
    (simp add: pe_loaded_defs algebra_simps)

theorem section_name_offset_value_witness:
  "section_name_offset (env_on True (sample_env 259\<lparr>clambc_pedata := zero_pedata\<lparr>
      pd_e_lfanew := 128, pd_opt64 := zero_hdr64\<lparr>o64_Magic := 0x20b\<rparr>,
      pd_file_hdr := zero_file_hdr\<lparr>fh_SizeOfOptionalHeader := 240\<rparr>\<rparr>\<rparr>)) 0 = Some 264"
  by (subst section_name_offset_value) (simp_all add: hasPEInfo_def kind_values sample_env_def)

text \<open>
  \<^verbatim>\<open>readRVA\<close> returns true only after a full read at the raw address of the RVA, and
  then the buffer holds exactly the bytes read there. It does not put the file position
  back: \<^verbatim>\<open>seek\<close> returns the new position, not the old one, so the position it
  ``restores'' is the raw address itself.
\<close>

theorem readRVA_success:
  assumes "seek_documented api pos" and "read_documented api"
    and "readRVA api rva buf bufsize w = (True, buf', w')" and "length buf = unat bufsize"
    and "0 \<le>s bufsize"
  shows "api_pe_rawaddr api rva w \<noteq> PE_INVALID_RVA
     \<and> (\<exists>w1 data w2. api_seek api (api_pe_rawaddr api rva w) SEEK_SET w = (api_pe_rawaddr api rva w, w1)
          \<and> api_read api bufsize w1 = (bufsize, data, w2) \<and> buf' = data
          \<and> (pos w' = api_pe_rawaddr api rva w \<or> pos w' = pos w2))"
proof -
  let ?off = "api_pe_rawaddr api rva w"
  obtain p w1 where s1: "api_seek api ?off SEEK_SET w = (p, w1)" by fastforce
  obtain r data w2 where rd: "api_read api bufsize w1 = (r, data, w2)"
    by (metis prod_cases3)
  obtain q w3 where s2: "api_seek api p SEEK_SET w2 = (q, w3)" by fastforce
  have off: "?off \<noteq> PE_INVALID_RVA" and p: "p \<noteq> -1" and r: "r = bufsize"
    and buf': "buf' = overwrite buf data" and w': "w' = w3"
    using assms(3) s1 rd s2 by (auto simp: readRVA_def Let_def split: if_splits)
  have pq: "p = ?off" using seek_documentedE[OF assms(1) s1] p by blast
  have "length data = unat bufsize"
    using read_documentedE(1)[OF assms(2) rd] assms(5) r by simp
  then have "buf' = data" using buf' assms(4) by (simp add: overwrite_full)
  moreover have "pos w' = ?off \<or> pos w' = pos w2"
    using seek_documentedE[OF assms(1) s2] pq w' by blast
  ultimately show ?thesis using off s1 rd r pq by blast
qed

theorem readRVA_success_witness:
  "readRVA (sample_api [10, 11, 12, 13, 14] 60) 2 [0, 0] 2 0 = (True, [12, 13], 2)
   \<and> api_pe_rawaddr (sample_api [10, 11, 12, 13, 14] 60) 2 0 \<noteq> PE_INVALID_RVA"
proof -
  let ?api = "sample_api [10, 11, 12, 13, 14] 60"
  have run: "readRVA ?api 2 [0, 0] 2 0 = (True, [12, 13], 2)"
    by code_simp
  have rd: "read_documented ?api"
    by (rule sample_api_read) simp
  have "api_pe_rawaddr ?api 2 0 \<noteq> PE_INVALID_RVA"
    using readRVA_success[OF sample_api_seek rd run] by (simp add: word_sle_eq)
  with run show ?thesis by simp
qed

end
