(* ===== verification/BC_Match.thy ===== *)
theory BC_Match
  imports BC_Env
begin

text \<open>
  The rest of the source-level interface of \<^verbatim>\<open>headers/bytecode_local.h\<close>: the macros
  that declare a bytecode's configuration globals and subsignatures, the debug and virus
  name helpers, the match queries and \<^verbatim>\<open>memchr\<close>.
\<close>

section \<open>Debug output\<close>

text \<open>
  The overloads of \<^verbatim>\<open>debug\<close>: a string is printed with length 0, which stands for a
  NUL-terminated string, an integer with \<^verbatim>\<open>debug_print_uint\<close>.
\<close>

definition debug_str :: "'w bc_api \<Rightarrow> bytes \<Rightarrow> 'w \<Rightarrow> 'w" where
  "debug_str api str w = api_debug_print_str api str 0 w"

definition debug_bytes :: "'w bc_api \<Rightarrow> bytes \<Rightarrow> 'w \<Rightarrow> 'w" where
  "debug_bytes api str w = api_debug_print_str api str 0 w"

definition debug_uint :: "'w bc_api \<Rightarrow> uint32_t \<Rightarrow> 'w \<Rightarrow> 'w" where
  "debug_uint api a w = api_debug_print_uint api a w"

section \<open>Configuration globals\<close>

text \<open>
  Each configuration macro declares one global variable, which the compiler later finds by
  name. A declaration is a name and an initialiser: a character array, a pointer to a
  string, an array of strings, or a 16-bit constant.
\<close>

datatype ginit = CharArray string | CharPtr string | StringArray "string list" | Const16 uint16_t

type_synonym global_decl = "string \<times> ginit"

definition VIRUSNAME_PREFIX :: "string \<Rightarrow> global_decl" where
  "VIRUSNAME_PREFIX name = (''__clambc_virusname_prefix'', CharArray name)"

definition VIRUSNAMES :: "string list \<Rightarrow> global_decl" where
  "VIRUSNAMES names = (''__clambc_virusnames'', StringArray names)"

definition PE_UNPACKER_DECLARE :: global_decl where
  "PE_UNPACKER_DECLARE = (''__clambc_kind'', Const16 (kind_value ''BC_PE_UNPACKER''))"

definition PDF_HOOK_DECLARE :: global_decl where
  "PDF_HOOK_DECLARE = (''__clambc_kind'', Const16 (kind_value ''BC_PDF''))"

definition BYTECODE_ABORT_HOOK :: uint32_t where
  "BYTECODE_ABORT_HOOK = 0xcea5e"

definition PE_HOOK_DECLARE :: global_decl where
  "PE_HOOK_DECLARE = (''__clambc_kind'', Const16 (kind_value ''BC_PE_ALL''))"

definition PRECLASS_HOOK_DECLARE :: global_decl where
  "PRECLASS_HOOK_DECLARE = (''__clambc_kind'', Const16 (kind_value ''BC_PRECLASS''))"

definition ELF_UNPACKER_DECLARE :: global_decl where
  "ELF_UNPACKER_DECLARE = (''__clambc_kind'', Const16 (kind_value ''BC_ELF_UNPACKER''))"

definition MACHO_UNPACKER_DECLARE :: global_decl where
  "MACHO_UNPACKER_DECLARE = (''__clambc_kind'', Const16 (kind_value ''BC_MACHO_UNPACKER''))"

definition TARGET :: "uint16_t \<Rightarrow> global_decl" where
  "TARGET tgt = (''__Target'', Const16 tgt)"

definition COPYRIGHT :: "string \<Rightarrow> global_decl" where
  "COPYRIGHT c = (''__Copyright'', CharPtr c)"

definition ICONGROUP1 :: "string \<Rightarrow> global_decl" where
  "ICONGROUP1 g = (''__IconGroup1'', CharPtr g)"

definition ICONGROUP2 :: "string \<Rightarrow> global_decl" where
  "ICONGROUP2 g = (''__IconGroup2'', CharPtr g)"

definition FUNCTIONALITY_LEVEL_MIN :: "uint16_t \<Rightarrow> global_decl" where
  "FUNCTIONALITY_LEVEL_MIN m = (''__FuncMin'', Const16 m)"

definition FUNCTIONALITY_LEVEL_MAX :: "uint16_t \<Rightarrow> global_decl" where
  "FUNCTIONALITY_LEVEL_MAX m = (''__FuncMax'', Const16 m)"

definition LDB_ADDATTRIBUTES :: "string \<Rightarrow> global_decl" where
  "LDB_ADDATTRIBUTES x = (''__ldb_rawattrs'', CharPtr x)"

definition CONTAINER :: "string \<Rightarrow> global_decl" where
  "CONTAINER x = (''__ldb_container'', CharPtr x)"

section \<open>Subsignatures\<close>

record signature =
  sig_id :: uint64_t

text \<open>
  \<^verbatim>\<open>DECLARE_SIGNATURE(name)\<close> adds the two fields \<^verbatim>\<open>name_sig\<close> (the pattern) and
  \<^verbatim>\<open>name\<close> (the id) to \<^verbatim>\<open>struct __Signatures\<close>.
\<close>

definition DECLARE_SIGNATURE :: "string \<Rightarrow> string list \<Rightarrow> string list" where
  "DECLARE_SIGNATURE name fs = fs @ [name @ ''_sig'', name]"

definition SIGNATURES_DECL :: "string list \<Rightarrow> string list" where
  "SIGNATURES_DECL names = fold DECLARE_SIGNATURE names []"

text \<open>
  \<^verbatim>\<open>__COUNTER__\<close> is a preprocessor counter that each use increments, and the
  initialiser of \<^verbatim>\<open>Signatures\<close> uses it once per subsignature after taking a bias from
  it. \<open>DEFINE_SIGNATURE\<close> is one step: it takes the counter and returns the next one with
  the two initialised fields.
\<close>

definition SIGNATURES_DEF_BEGIN :: "uint32_t \<Rightarrow> uint32_t \<times> uint32_t" where
  "SIGNATURES_DEF_BEGIN counter = (counter + 1, counter + 1)"

definition DEFINE_SIGNATURE ::
  "uint32_t \<Rightarrow> string \<Rightarrow> string \<Rightarrow> uint32_t \<Rightarrow> (string \<times> string \<times> signature) \<times> uint32_t" where
  "DEFINE_SIGNATURE bias name hex counter =
     ((name, hex, \<lparr>sig_id = ucast (counter - bias)\<rparr>), counter + 1)"

fun define_all ::
  "uint32_t \<Rightarrow> (string \<times> string) list \<Rightarrow> uint32_t \<Rightarrow> (string \<times> string \<times> signature) list" where
  "define_all bias [] counter = []"
| "define_all bias ((name, hex) # ds) counter =
     (case DEFINE_SIGNATURE bias name hex counter of (s, counter') \<Rightarrow>
        s # define_all bias ds counter')"

definition Signatures :: "uint32_t \<Rightarrow> (string \<times> string) list \<Rightarrow> (string \<times> string \<times> signature) list" where
  "Signatures counter ds = (case SIGNATURES_DEF_BEGIN counter of (bias, counter') \<Rightarrow>
     define_all bias ds counter')"

section \<open>Match queries\<close>

text \<open>\<open>None\<close> is an id outside the 64 entries of the match tables.\<close>

definition count_match :: "bc_env \<Rightarrow> signature \<Rightarrow> uint32_t option" where
  "count_match e sig = nth_opt (clambc_match_counts e) (unat (sig_id sig))"

definition matches :: "bc_env \<Rightarrow> signature \<Rightarrow> uint32_t option" where
  "matches e sig = map_option (\<lambda>c. if c \<noteq> 0 then 1 else 0)
     (nth_opt (clambc_match_counts e) (unat (sig_id sig)))"

definition match_location :: "'w bc_api \<Rightarrow> bc_env \<Rightarrow> signature \<Rightarrow> uint32_t \<Rightarrow> 'w \<Rightarrow> uint32_t option" where
  "match_location api e sig goback w = map_option
     (\<lambda>pos. if api_engine_functionality_level api w \<le> level_value ''FUNC_LEVEL_096_1''
        then (let pos = pos - goback in if pos \<le>s 0 then 0 else pos)
        else pos)
     (nth_opt (clambc_match_offsets e) (unat (sig_id sig)))"

text \<open>The messages \<^verbatim>\<open>match_location_check\<close> prints, as bytes.\<close>

definition msg :: "string \<Rightarrow> bytes" where
  "msg s = map (\<lambda>c. of_nat (of_char c)) s"

definition match_location_check ::
  "'w bc_api \<Rightarrow> bc_env \<Rightarrow> signature \<Rightarrow> uint32_t \<Rightarrow> bytes \<Rightarrow> uint32_t \<Rightarrow> 'w \<Rightarrow> (int32_t \<times> 'w) option" where
  "match_location_check api e sig goback static_start static_len w =
     map_option (\<lambda>pos.
       case api_seek api pos SEEK_SET w of (r, w1) \<Rightarrow>
       if r \<noteq> pos then (-1, w1)
       else let cpos = api_file_find_limit api static_start static_len (pos + goback) w1 in
       if cpos = -1 then
         (-1, debug_uint api pos
           (debug_str api (msg ''Engine reported match, but we couldn't find it! Engine reported (after fixup):'') w1))
       else case api_seek api cpos SEEK_SET w1 of (r2, w2) \<Rightarrow>
       if r2 \<noteq> cpos then (-1, w2)
       else if cpos \<noteq> pos
               \<and> level_value ''FUNC_LEVEL_096_1_dev'' \<le> api_engine_functionality_level api w2 then
         (cpos, debug_str api (msg ''but goback fixed it up!'')
           (debug_uint api pos (debug_str api (msg ''reported by engine:'')
             (debug_uint api cpos
               (debug_str api (msg ''wrong match pos reported by engine, real match pos:'') w2)))))
       else (cpos, w2))
     (match_location api e sig goback w)"

section \<open>Virus names, file size, \<^verbatim>\<open>memchr\<close>\<close>

definition foundVirus :: "'w bc_api \<Rightarrow> bytes \<Rightarrow> 'w \<Rightarrow> 'w" where
  "foundVirus api virusname w = api_setvirusname api virusname 0 w"

definition foundVirus_prefix :: "'w bc_api \<Rightarrow> 'w \<Rightarrow> 'w" where
  "foundVirus_prefix api w = foundVirus api [] w"

definition getFilesize :: "bc_env \<Rightarrow> uint32_t option" where
  "getFilesize e = nth_opt (clambc_filesize e) 0"

text \<open>
  \<^verbatim>\<open>char\<close> is signed (\<^verbatim>\<open>bytecode_types.h\<close> makes it the type \<^verbatim>\<open>int8_t\<close>), so
  the comparison \<^verbatim>\<open>*p == cc\<close> is between a sign-extended byte of the buffer and a
  zero-extended \<^verbatim>\<open>unsigned char\<close>. The result is the index of the byte found, and
  \<open>None\<close> the null pointer.
\<close>

fun memchr_from :: "uint8_t \<Rightarrow> bytes \<Rightarrow> nat \<Rightarrow> nat \<Rightarrow> nat option c_result" where
  "memchr_from cc s p 0 = Ret None"
| "memchr_from cc s p (Suc n) =
     (if length s \<le> p then Undefined
      else if (scast (s ! p) :: int32_t) = ucast cc then Ret (Some p)
      else memchr_from cc s (Suc p) n)"

definition memchr :: "bytes \<Rightarrow> int32_t \<Rightarrow> size_t \<Rightarrow> nat option c_result" where
  "memchr s c n = memchr_from (ucast c) s 0 (unat n)"

section \<open>Subsignature ids\<close>

lemma define_all_ids:
  "map (\<lambda>(_, _, s). sig_id s) (define_all bias ds (bias + of_nat k))
     = map (\<lambda>i. ucast (of_nat i :: uint32_t)) [k..<k + length ds]"
proof (induction ds arbitrary: k)
  case (Cons d ds)
  obtain name hex where d: "d = (name, hex)" by fastforce
  have "bias + of_nat k + 1 = bias + of_nat (Suc k)" by (simp only: of_nat_Suc add_ac)
  then have "define_all bias (d # ds) (bias + of_nat k)
      = (name, hex, \<lparr>sig_id = ucast (of_nat k :: uint32_t)\<rparr>) # define_all bias ds (bias + of_nat (Suc k))"
    by (simp only: d DEFINE_SIGNATURE_def define_all.simps prod.case) simp
  with Cons[of "Suc k"] show ?case
    by (simp add: upt_conv_Cons del: upt_Suc of_nat_Suc)
qed simp

lemma define_all_names:
  "map (\<lambda>(name, hex, _). (name, hex)) (define_all bias ds counter) = ds"
  by (induction bias ds counter rule: define_all.induct) (auto simp: DEFINE_SIGNATURE_def)

text \<open>
  the ids that \<^verbatim>\<open>DEFINE_SIGNATURE\<close> gives the subsignatures are 0, 1, 2 and so on in
  the order of their definitions, whatever other macros used \<^verbatim>\<open>__COUNTER__\<close> before,
  and every subsignature keeps its name and its pattern.
\<close>

theorem signature_ids_zero_based:
  assumes "length ds \<le> 2 ^ 32"
  shows "map (\<lambda>(_, _, s). unat (sig_id s)) (Signatures counter ds) = [0..<length ds]
     \<and> map (\<lambda>(name, hex, _). (name, hex)) (Signatures counter ds) = ds"
proof -
  have "map (\<lambda>(_, _, s). sig_id s) (Signatures counter ds)
      = map (\<lambda>i. ucast (of_nat i :: uint32_t)) [0..<length ds]"
    using define_all_ids[of "counter + 1" ds 0]
    by (simp add: Signatures_def SIGNATURES_DEF_BEGIN_def)
  from arg_cong[OF this, of "map unat"]
  have "map (\<lambda>(_, _, s). unat (sig_id s)) (Signatures counter ds)
      = map (\<lambda>i. unat (ucast (of_nat i :: uint32_t) :: uint64_t)) [0..<length ds]"
    by (simp add: comp_def case_prod_unfold)
  also have "\<dots> = [0..<length ds]"
    using assms by (intro map_idI) (simp add: unsigned_ucast_eq unsigned_of_nat take_bit_nat_eq_self)
  finally show ?thesis
    by (simp add: define_all_names Signatures_def SIGNATURES_DEF_BEGIN_def)
qed

theorem signature_ids_zero_based_witness:
  "map (\<lambda>(_, _, s). unat (sig_id s)) (Signatures 0xFFFFFFFF [(''a'', ''6161''), (''b'', ''62'')]) = [0, 1]"
  using signature_ids_zero_based[of "[(''a'', ''6161''), (''b'', ''62'')]" "0xFFFFFFFF"]
  by (simp add: upt_rec)

section \<open>Match positions\<close>

lemma match_location_in_range:
  "unat (sig_id sig) < length (clambc_match_offsets e) \<Longrightarrow>
     match_location api e sig goback w = Some
       (let pos = clambc_match_offsets e ! unat (sig_id sig) in
        if 53 < api_engine_functionality_level api w then pos
        else if pos - goback \<le>s 0 then 0 else pos - goback)"
  by (simp add: match_location_def nth_opt_def level_values Let_def not_le[symmetric])

text \<open>
  What a match position is worth. \<^verbatim>\<open>match_location_check\<close> returns a position
  \<open>r\<close> other than -1 exactly when the seek to the position \<^verbatim>\<open>match_location\<close> reports
  succeeds, \<^verbatim>\<open>file_find_limit\<close> finds the static start at \<open>r\<close> searching up to
  \<^verbatim>\<open>goback\<close> bytes past the reported position, and the seek to \<open>r\<close> succeeds. On
  every other path it returns -1.
\<close>

theorem match_location_check_sound:
  assumes "r \<noteq> -1"
  shows "(\<exists>w'. match_location_check api e sig goback start len w = Some (r, w')) \<longleftrightarrow>
     (\<exists>pos. match_location api e sig goback w = Some pos
        \<and> fst (api_seek api pos SEEK_SET w) = pos
        \<and> api_file_find_limit api start len (pos + goback) (snd (api_seek api pos SEEK_SET w)) = r
        \<and> fst (api_seek api r SEEK_SET (snd (api_seek api pos SEEK_SET w))) = r)"
proof (cases "match_location api e sig goback w")
  case (Some pos)
  obtain p w1 where s1: "api_seek api pos SEEK_SET w = (p, w1)" by fastforce
  define c where "c = api_file_find_limit api start len (pos + goback) w1"
  obtain q w2 where s2: "api_seek api c SEEK_SET w1 = (q, w2)" by fastforce
  show ?thesis
    by (cases "c = r")
      (use assms s2 in \<open>auto simp: match_location_check_def Some s1 Let_def simp flip: c_def\<close>)
qed (simp add: match_location_check_def)

theorem match_location_check_sound_witness:
  "let api = (sample_api (replicate 100 0) 60)\<lparr>api_file_find_limit := \<lambda>_ _ _ _. 7\<rparr>;
       e = sample_env 259\<lparr>clambc_match_offsets := 5 # replicate 63 0\<rparr>
   in \<exists>w'. match_location_check api e \<lparr>sig_id = 0\<rparr> 4 [1] 1 0 = Some (7, w')"
proof -
  let ?api = "(sample_api (replicate 100 0) 60)\<lparr>api_file_find_limit := \<lambda>_ _ _ _. 7\<rparr>"
  let ?e = "sample_env 259\<lparr>clambc_match_offsets := 5 # replicate 63 0\<rparr>"
  have "match_location ?api ?e \<lparr>sig_id = 0\<rparr> 4 0 = Some 5" by code_simp
  moreover have "api_seek ?api 5 SEEK_SET 0 = (5, 5)" and "api_seek ?api 7 SEEK_SET 5 = (7, 7)"
    and "api_file_find_limit ?api [1] 1 9 5 = 7"
    by code_simp+
  ultimately show ?thesis
    using match_location_check_sound[of 7 ?api ?e "\<lparr>sig_id = 0\<rparr>" 4 "[1]" 1 0] by (simp add: Let_def)
qed

section \<open>\<^verbatim>\<open>memchr\<close>\<close>

lemma sint_scast8: "sint (scast (b::8 word) :: 32 word) = sint b"
  by (rule sint_up_scast) (simp add: is_up)

lemma sint_ucast8: "sint (ucast (b::8 word) :: 32 word) = uint b"
  using uint_lt2p[of b] by (simp add: sint_value uint_up_ucast is_up)

lemma scast_eq_ucast_iff:
  "(scast (b :: uint8_t) :: int32_t) = ucast c \<longleftrightarrow> b = c \<and> c < 128"
proof -
  have "(scast b :: int32_t) = ucast c \<longleftrightarrow> sint (scast b :: int32_t) = sint (ucast c :: int32_t)"
    by (auto intro: signed_word_eqI)
  also have "\<dots> \<longleftrightarrow> sint b = uint c"
    by (simp only: sint_scast8 sint_ucast8)
  also have "\<dots> \<longleftrightarrow> b = c \<and> uint c < 128"
  proof -
    have "uint b < 256" and "0 \<le> uint c"
      using uint_lt2p[of b] by simp_all
    then have "uint b - 256 \<noteq> uint c" by linarith
    then show ?thesis by (auto simp: sint_value word_uint_eq_iff)
  qed
  finally show ?thesis by (simp add: word_less_def)
qed

lemma find_upt_Suc:
  "find P [p..<p + Suc n] = (if P p then Some p else find P [Suc p..<Suc p + n])"
  by (simp add: upt_conv_Cons del: upt_Suc)

lemma memchr_from_value:
  "p + n \<le> length s \<Longrightarrow> memchr_from cc s p n =
     Ret (find (\<lambda>i. s ! i = cc \<and> cc < 128) [p..<p + n])"
proof (induction n arbitrary: p)
  case (Suc n)
  then show ?case
    unfolding find_upt_Suc by (simp add: scast_eq_ucast_iff)
qed simp

lemma memchr_from_undefined:
  assumes "length s < p + n" and "\<forall>i. p \<le> i \<and> i < length s \<longrightarrow> s ! i \<noteq> cc" and "p \<le> length s"
  shows "memchr_from cc s p n = Undefined"
  using assms
proof (induction n arbitrary: p)
  case (Suc n)
  then show ?case by (cases "p = length s") (auto simp: scast_eq_ucast_iff)
qed simp

text \<open>
  C39: \<^verbatim>\<open>memchr\<close> inside the bounds of its buffer. It returns the first of the
  \<open>n\<close> bytes that equals \<open>c\<close> converted to an unsigned char when that value is an
  ASCII one, and the null pointer for every \<open>c\<close> from 0x80 up, whether or not the byte
  occurs: the comparison sign-extends the byte of the buffer and zero-extends the one looked
  for.
\<close>

theorem memchr_correct:
  assumes "unat n \<le> length s"
  shows "memchr s c n = Ret (if (ucast c :: uint8_t) < 128
           then find (\<lambda>i. s ! i = ucast c) [0..<unat n] else None)"
proof (cases "(ucast c :: uint8_t) < 128")
  case False
  have "find (\<lambda>i. False) xs = None" for xs :: "nat list" by (simp add: find_None_iff)
  with False assms show ?thesis by (simp add: memchr_def memchr_from_value)
qed (use assms in \<open>simp add: memchr_def memchr_from_value\<close>)

theorem memchr_correct_witness:
  "memchr [0x4d, 0x5a, 0x90] 0x5a 3 = Ret (Some 1) \<and> memchr [0x4d, 0x5a, 0x90] 0x90 3 = Ret None"
  using memchr_correct[of 3 "[0x4d, 0x5a, 0x90]" "0x5a"] memchr_correct[of 3 "[0x4d, 0x5a, 0x90]" "0x90"]
  by (simp add: upt_rec)

end
