(* ===== verification/BC_Scanner.thy ===== *)
theory BC_Scanner
  imports BC_Env
begin

text \<open>
  The re2c support macros of \<^verbatim>\<open>headers/bytecode_local.h\<close>: the buffered scanner that a
  bytecode's regular expressions run on. The scanner's pointers all point into its buffer,
  so a pointer is its offset from \<^verbatim>\<open>&re2c_sbuffer[0]\<close>; differences are taken in
  \<open>int\<close> and converted to the width of the variable that receives them.
\<close>

section \<open>The scanner\<close>

definition RE2C_BSIZE :: nat where
  "RE2C_BSIZE = 1024"

record regex_scanner_t =
  scur :: int
  slim :: int
  smrk :: int
  sctx :: int
  stok :: int
  sres :: int32_t
  stokstart :: int32_t
  sbuffer :: bytes

definition RE2C_FILLBUFFER :: "'w bc_api \<Rightarrow> int32_t \<Rightarrow> regex_scanner_t \<Rightarrow> 'w \<Rightarrow> regex_scanner_t \<times> 'w" where
  "RE2C_FILLBUFFER api need s w =
     (let cursor = word_of_int (stok s) :: uint32_t;
          limit = word_of_int (slim s) :: uint32_t
      in case api_fill_buffer api (sbuffer s) (of_nat RE2C_BSIZE) limit cursor need w of
        (limit, buf, w') \<Rightarrow>
          let s = s\<lparr>sbuffer := buf\<rparr> in
          if limit = 0 then (s\<lparr>sres := 0\<rparr>, w')
          else if limit \<le>s need then (s\<lparr>sres := -1\<rparr>, w')
          else let curoff = word_of_int (scur s - stok s) :: uint32_t;
                   mrkoff = word_of_int (smrk s - stok s) :: uint32_t;
                   ctxoff = word_of_int (sctx s - stok s) :: uint32_t
               in (s\<lparr>slim := sint limit, stok := 0, scur := uint curoff, smrk := uint mrkoff,
                     sctx := uint ctxoff, sres := limit\<rparr>, w'))"

text \<open>
  \<^verbatim>\<open>YYFILL(n)\<close> leaves the scanning loop when the refill did not succeed: the flag says
  whether the loop goes on.
\<close>

definition YYFILL :: "'w bc_api \<Rightarrow> int32_t \<Rightarrow> regex_scanner_t \<Rightarrow> 'w \<Rightarrow> bool \<times> regex_scanner_t \<times> 'w" where
  "YYFILL api n s w = (case RE2C_FILLBUFFER api n s w of (s', w') \<Rightarrow> (\<not> sres s' \<le>s 0, s', w'))"

text \<open>
  \<^verbatim>\<open>REGEX_SCANNER\<close> declares the scanner's variables and fills the buffer. The token
  pointer and the buffer are not initialised: \<open>tok0\<close>, \<open>start0\<close> and \<open>buf0\<close> are what
  the variables happen to hold.
\<close>

definition REGEX_SCANNER ::
  "'w bc_api \<Rightarrow> int \<Rightarrow> int32_t \<Rightarrow> bytes \<Rightarrow> 'w \<Rightarrow> regex_scanner_t \<times> 'w" where
  "REGEX_SCANNER api tok0 start0 buf0 w =
     RE2C_FILLBUFFER api 0 \<lparr>scur = 0, slim = 0, smrk = 0, sctx = 0, stok = tok0,
       sres = 0, stokstart = start0, sbuffer = buf0\<rparr> w"

definition REGEX_POS :: "'w bc_api \<Rightarrow> regex_scanner_t \<Rightarrow> 'w \<Rightarrow> int \<times> 'w" where
  "REGEX_POS api s w = (case api_seek api 0 SEEK_CUR w of (p, w') \<Rightarrow>
     (- (slim s - scur s) + sint p, w'))"

definition REGEX_LOOP_BEGIN :: "'w bc_api \<Rightarrow> regex_scanner_t \<Rightarrow> 'w \<Rightarrow> regex_scanner_t \<times> 'w" where
  "REGEX_LOOP_BEGIN api s w = (let s = s\<lparr>stok := scur s\<rparr> in
     case REGEX_POS api s w of (p, w') \<Rightarrow> (s\<lparr>stokstart := word_of_int p\<rparr>, w'))"

definition REGEX_RESULT :: "regex_scanner_t \<Rightarrow> int32_t" where
  "REGEX_RESULT s = sres s"

text \<open>
  \<^verbatim>\<open>RE2C_DEBUG_PRINT\<close> prints the text of the current token, shortened to its two ends
  when it is longer than 80 bytes. \<open>buf0\<close> are the 81 uninitialised bytes of its buffer. The
  three \<^verbatim>\<open>break\<close>s end it without printing and without seeking back.
\<close>

definition RE2C_DEBUG_PRINT :: "'w bc_api \<Rightarrow> bytes \<Rightarrow> regex_scanner_t \<Rightarrow> 'w \<Rightarrow> 'w" where
  "RE2C_DEBUG_PRINT api buf0 s w =
     (case api_seek api 0 SEEK_CUR w of (here, w) \<Rightarrow>
      let d = word_of_int (slim s - scur s) :: uint32_t;
          end' = here - d;
          len = end' - stokstart s
      in if 80 < len then
           (case api_seek api (stokstart s) SEEK_SET w of (_, w) \<Rightarrow>
            case api_read api 37 w of (r, data, w) \<Rightarrow>
            if r = 37 then w
            else let buf = overwrite buf0 data;
                     buf = take 37 buf @ map (of_nat \<circ> of_char) ''[...]'' @ drop 42 buf
            in case api_seek api (end' - 37) SEEK_SET w of (_, w) \<Rightarrow>
               case api_read api 37 w of (r, data, w) \<Rightarrow>
               if r \<noteq> 37 then w
               else let buf = (overwrite buf data)[80 := 0];
                        w = api_debug_print_str api buf 0 w
                    in snd (api_seek api here SEEK_SET w))
         else
           (case api_seek api (stokstart s) SEEK_SET w of (_, w) \<Rightarrow>
            case api_read api len w of (r, data, w) \<Rightarrow>
            if r \<noteq> len then w
            else let buf = (overwrite buf0 data)[unat len := 0, 80 := 0];
                     w = api_debug_print_str api buf 0 w
                 in snd (api_seek api here SEEK_SET w)))"

definition BUFFER_FILL ::
  "'w bc_api \<Rightarrow> bytes \<Rightarrow> uint32_t \<Rightarrow> uint32_t \<Rightarrow> uint32_t \<Rightarrow> 'w \<Rightarrow> uint32_t \<times> bytes \<times> 'w" where
  "BUFFER_FILL api buf cursor need limit w =
     api_fill_buffer api buf (of_nat (length buf)) limit cursor need w"

text \<open>The result is the cursor, the limit and the buffer after the macro.\<close>

definition BUFFER_ENSURE ::
  "'w bc_api \<Rightarrow> bytes \<Rightarrow> uint32_t \<Rightarrow> uint32_t \<Rightarrow> uint32_t \<Rightarrow> 'w \<Rightarrow> uint32_t \<times> uint32_t \<times> bytes \<times> 'w" where
  "BUFFER_ENSURE api buf cursor need limit w =
     (if limit \<le> cursor + need then
        (case BUFFER_FILL api buf cursor need limit w of (limit', buf', w') \<Rightarrow>
           (0, limit', buf', w'))
      else (cursor, limit, buf, w))"

section \<open>Well-formed scanners\<close>

definition wf_scanner :: "regex_scanner_t \<Rightarrow> bool" where
  "wf_scanner s \<longleftrightarrow> length (sbuffer s) = RE2C_BSIZE
     \<and> 0 \<le> stok s \<and> stok s \<le> scur s \<and> stok s \<le> smrk s \<and> stok s \<le> sctx s
     \<and> scur s \<le> slim s \<and> smrk s \<le> slim s \<and> sctx s \<le> slim s \<and> slim s \<le> int RE2C_BSIZE"

text \<open>The bytes of the token read so far and of the input buffered after it.\<close>

definition token_text :: "regex_scanner_t \<Rightarrow> bytes" where
  "token_text s = take (nat (slim s - stok s)) (drop (nat (stok s)) (sbuffer s))"

text \<open>
  \<^verbatim>\<open>fill_buffer\<close> as documented: the result is the number of bytes available in the
  buffer from position 0 on, so it is at most the length, and ``the character at the cursor
  will be at position 0 after this call'', with the rest of what was filled behind it.
\<close>

definition fill_documented :: "'w bc_api \<Rightarrow> bool" where
  "fill_documented api \<longleftrightarrow> (\<forall>buf len filled cursor need w.
     cursor \<le> filled \<and> filled \<le> len \<and> unat len = length buf \<longrightarrow>
     (case api_fill_buffer api buf len filled cursor need w of (r, buf', w') \<Rightarrow>
        length buf' = length buf \<and>
        (0 <s r \<longrightarrow> unat (filled - cursor) \<le> unat r \<and> unat r \<le> length buf
           \<and> take (unat (filled - cursor)) buf' = take (unat (filled - cursor)) (drop (unat cursor) buf))))"

lemma uint_of_offset: "0 \<le> k \<Longrightarrow> k \<le> 1024 \<Longrightarrow> uint (word_of_int k :: 32 word) = k"
  by (simp add: uint_word_of_int_eq take_bit_int_eq_self)

lemma uint_of_offset_diff:
  "0 \<le> a - b \<Longrightarrow> a - b \<le> 1024 \<Longrightarrow> uint (word_of_int a - word_of_int b :: 32 word) = a - b"
  by (metis uint_of_offset wi_hom_sub)

lemma unat_of_offset: "0 \<le> k \<Longrightarrow> k \<le> 1024 \<Longrightarrow> unat (word_of_int k :: 32 word) = nat k"
  by (simp add: uint_of_offset flip: nat_uint_eq)

lemma wf_scannerD:
  assumes "wf_scanner s"
  shows "length (sbuffer s) = 1024" "0 \<le> stok s" "stok s \<le> scur s" "stok s \<le> smrk s"
    "stok s \<le> sctx s" "scur s \<le> slim s" "smrk s \<le> slim s" "sctx s \<le> slim s" "slim s \<le> 1024"
  using assms by (simp_all add: wf_scanner_def RE2C_BSIZE_def)

text \<open>What a refill does to a well-formed scanner, in terms of the engine's answer.\<close>

lemma fill_answer:
  assumes fd: "fill_documented api" and wf: "wf_scanner s"
    and r: "api_fill_buffer api (sbuffer s) (of_nat RE2C_BSIZE) (word_of_int (slim s))
              (word_of_int (stok s)) need w = (r, buf, w')"
  shows "length buf = 1024"
    and "0 <s r \<Longrightarrow> nat (slim s - stok s) \<le> unat r \<and> unat r \<le> 1024
           \<and> take (nat (slim s - stok s)) buf = token_text s"
proof -
  note wfD = wf_scannerD[OF wf]
  let ?f = "word_of_int (slim s) :: uint32_t" and ?c = "word_of_int (stok s) :: uint32_t"
  have f: "unat ?f = nat (slim s)" and c: "unat ?c = nat (stok s)"
    using wfD by (auto intro!: unat_of_offset)
  have le: "?c \<le> ?f" using f c wfD by (simp add: word_le_nat_alt nat_mono)
  have "?f \<le> of_nat RE2C_BSIZE" using f wfD by (simp add: word_le_nat_alt RE2C_BSIZE_def)
  moreover have "unat (of_nat RE2C_BSIZE :: uint32_t) = length (sbuffer s)"
    using wfD by (simp add: RE2C_BSIZE_def)
  ultimately have "length buf = 1024 \<and> (0 <s r \<longrightarrow> unat (?f - ?c) \<le> unat r \<and> unat r \<le> 1024
      \<and> take (unat (?f - ?c)) buf = take (unat (?f - ?c)) (drop (nat (stok s)) (sbuffer s)))"
    using fd[unfolded fill_documented_def, rule_format, of ?c ?f "of_nat RE2C_BSIZE" "sbuffer s" need w]
      le r wfD(1) c by simp
  moreover have "unat (?f - ?c) = nat (slim s - stok s)"
    using unat_sub[OF le] f c wfD by (simp add: nat_diff_distrib)
  ultimately show "length buf = 1024"
    and "0 <s r \<Longrightarrow> nat (slim s - stok s) \<le> unat r \<and> unat r \<le> 1024
           \<and> take (nat (slim s - stok s)) buf = token_text s"
    by (simp_all add: token_text_def)
qed

lemma sint_le_1024: "0 <s (r :: int32_t) \<Longrightarrow> sint r = int (unat r)"
  using sint_value[of r] uint_lt2p[of r] by (simp add: word_sless_alt split: if_splits)

lemma signed_trichotomy: "\<not> (r :: int32_t) \<le>s n \<Longrightarrow> 0 \<le>s n \<Longrightarrow> 0 <s r"
  by (simp add: word_sle_eq word_sless_alt)

lemma RE2C_FILLBUFFER_refilled:
  assumes "fill_documented api" and wf: "wf_scanner s" and "0 \<le>s need"
    and run: "RE2C_FILLBUFFER api need s w = (s', w')" and ok: "0 <s sres s'"
  shows "stok s' = 0 \<and> scur s' = scur s - stok s \<and> smrk s' = smrk s - stok s
     \<and> sctx s' = sctx s - stok s \<and> slim s' = sint (sres s') \<and> need <s sres s'
     \<and> slim s - stok s \<le> slim s' \<and> slim s' \<le> 1024 \<and> length (sbuffer s') = 1024
     \<and> take (nat (slim s - stok s)) (sbuffer s') = token_text s"
proof -
  obtain r buf w1 where r: "api_fill_buffer api (sbuffer s) (of_nat RE2C_BSIZE)
      (word_of_int (slim s)) (word_of_int (stok s)) need w = (r, buf, w1)"
    by (metis prod_cases3)
  note ans = fill_answer[OF assms(1) wf r]
  note wfD = wf_scannerD[OF wf]
  from run r ok have big: "\<not> r \<le>s need" and "r \<noteq> 0"
    by (auto simp: RE2C_FILLBUFFER_def Let_def word_sless_alt split: if_splits)
  then have pos: "0 <s r" using assms(3) signed_trichotomy by blast
  have s': "s' = s\<lparr>sbuffer := buf, slim := sint r, stok := 0,
      scur := scur s - stok s, smrk := smrk s - stok s, sctx := sctx s - stok s, sres := r\<rparr>"
    using run r big \<open>r \<noteq> 0\<close> wfD by (auto simp: RE2C_FILLBUFFER_def Let_def uint_of_offset_diff)
  from big have "need <s r" by (simp add: word_sle_eq word_sless_alt)
  moreover have "slim s - stok s \<le> sint r" and "sint r \<le> 1024"
    using ans(2)[OF pos] sint_le_1024[OF pos] by linarith+
  ultimately show ?thesis using ans pos s' by simp
qed

text \<open>
  C35: refilling the scanner's buffer is safe and loses nothing. For an engine whose
  \<^verbatim>\<open>fill_buffer\<close> behaves as documented, a successful \<^verbatim>\<open>RE2C_FILLBUFFER\<close> keeps the
  scanner well-formed, moves the token to the start of the buffer with the text read so far
  unchanged and the cursor, marker and context pointers at the same distance from it, and
  leaves more than the \<open>need\<close> bytes asked for between the token and the limit.
\<close>

theorem RE2C_FILLBUFFER_safe:
  assumes "fill_documented api" and "wf_scanner s" and "0 \<le>s need"
    and "RE2C_FILLBUFFER api need s w = (s', w')" and "0 <s sres s'"
  shows "wf_scanner s' \<and> stok s' = 0 \<and> sint need < slim s'
     \<and> (\<exists>new. token_text s' = token_text s @ new)
     \<and> scur s' - stok s' = scur s - stok s \<and> smrk s' - stok s' = smrk s - stok s
     \<and> sctx s' - stok s' = sctx s - stok s"
proof -
  note R = RE2C_FILLBUFFER_refilled[OF assms]
  note wfD = wf_scannerD[OF assms(2)]
  have wf': "wf_scanner s'" using R wfD by (auto simp: wf_scanner_def RE2C_BSIZE_def)
  have le: "nat (slim s - stok s) \<le> nat (slim s')" using R by (auto intro: nat_mono)
  have "token_text s' = take (nat (slim s')) (sbuffer s')" using R by (simp add: token_text_def)
  also have "\<dots> = token_text s @ drop (nat (slim s - stok s)) (take (nat (slim s')) (sbuffer s'))"
    using R le by (metis append_take_drop_id min.absorb1 take_take)
  finally show ?thesis using R wf' by (auto simp: word_sless_alt)
qed

text \<open>An engine that has \<open>rest\<close> left to read, and moves the buffer as documented.\<close>

definition fill_sample :: "bytes \<Rightarrow> bytes \<Rightarrow> uint32_t \<Rightarrow> uint32_t \<Rightarrow> uint32_t \<Rightarrow> uint32_t \<Rightarrow> 'w \<Rightarrow> int32_t \<times> bytes \<times> 'w" where
  "fill_sample rest buf len filled cursor need w =
     (let keep = take (unat filled - unat cursor) (drop (unat cursor) buf);
          new = take (length buf - length keep) rest
      in (of_nat (length keep + length new),
          keep @ new @ drop (length keep + length new) buf, w))"

lemma fill_sample_documented:
  fixes api :: "'w bc_api"
  shows "fill_documented (api\<lparr>api_fill_buffer := fill_sample rest\<rparr>)"
  unfolding fill_documented_def
proof (intro allI impI)
  fix buf :: bytes and len filled cursor need :: uint32_t and w :: 'w
  assume a: "cursor \<le> filled \<and> filled \<le> len \<and> unat len = length buf"
  let ?keep = "take (unat filled - unat cursor) (drop (unat cursor) buf)"
  let ?new = "take (length buf - length ?keep) rest"
  have le: "unat cursor \<le> unat filled" "unat filled \<le> length buf"
    using a by (simp_all add: word_le_nat_alt)
  then have keep: "length ?keep = unat filled - unat cursor" by simp
  have sub: "unat (filled - cursor) = unat filled - unat cursor" using a unat_sub by blast
  have small: "length ?keep + length ?new \<le> length buf" using keep le by simp
  have "length buf < 2 ^ 32" using a unsigned_less[of len, where 'a = nat] by simp
  then have "unat (of_nat k :: int32_t) = k" if "k \<le> length buf" for k
    using that by (simp add: unsigned_of_nat take_bit_nat_eq_self)
  from this[OF small]
  have r: "unat (of_nat (length ?keep + length ?new) :: int32_t) = length ?keep + length ?new" .
  have "fill_sample rest buf len filled cursor need w =
      (of_nat (length ?keep + length ?new), ?keep @ ?new @ drop (length ?keep + length ?new) buf, w)"
    by (simp add: fill_sample_def Let_def)
  with small r keep sub show "case api_fill_buffer (api\<lparr>api_fill_buffer := fill_sample rest\<rparr>)
      buf len filled cursor need w of (r, buf', w') \<Rightarrow> length buf' = length buf \<and>
        (0 <s r \<longrightarrow> unat (filled - cursor) \<le> unat r \<and> unat r \<le> length buf
           \<and> take (unat (filled - cursor)) buf' = take (unat (filled - cursor)) (drop (unat cursor) buf))"
    by (simp del: length_take of_nat_add)
qed

definition sample_scanner :: regex_scanner_t where
  "sample_scanner = \<lparr>scur = 4, slim = 5, smrk = 3, sctx = 2, stok = 2, sres = 5, stokstart = 0,
     sbuffer = [1, 2, 3, 4, 5] @ replicate 1019 0\<rparr>"

theorem RE2C_FILLBUFFER_safe_witness:
  "\<exists>new. token_text (fst (RE2C_FILLBUFFER
       (sample_api [] 60\<lparr>api_fill_buffer := fill_sample [6, 7, 8]\<rparr>) 4 sample_scanner 0))
     = [3, 4, 5] @ new"
proof -
  let ?api = "sample_api [] 60\<lparr>api_fill_buffer := fill_sample [6, 7, 8]\<rparr>"
  let ?run = "RE2C_FILLBUFFER ?api 4 sample_scanner 0"
  have "wf_scanner sample_scanner" and "token_text sample_scanner = [3, 4, 5]"
    by code_simp+
  moreover have "0 \<le>s (4 :: int32_t)" and "0 <s sres (fst ?run)" by code_simp+
  ultimately show ?thesis
    using RE2C_FILLBUFFER_safe[OF fill_sample_documented, of sample_scanner 4
        "[6, 7, 8]" "sample_api [] 60" 0 "fst ?run" "snd ?run"]
    by simp
qed

section \<open>Starting a scanner\<close>

text \<open>
  \<^verbatim>\<open>REGEX_SCANNER\<close> starts a well-formed scanner when the uninitialised token pointer
  happens to point to the start of the buffer.
\<close>

lemma REGEX_SCANNER_start:
  assumes "fill_documented api" and "length buf0 = 1024"
    and "REGEX_SCANNER api 0 start0 buf0 w = (s, w')" and "0 <s sres s"
  shows "wf_scanner s \<and> scur s = 0 \<and> stok s = 0"
proof -
  let ?s = "\<lparr>scur = 0, slim = 0, smrk = 0, sctx = 0, stok = 0, sres = 0, stokstart = start0,
      sbuffer = buf0\<rparr>"
  have "wf_scanner ?s" using assms(2) by (simp add: wf_scanner_def RE2C_BSIZE_def)
  from RE2C_FILLBUFFER_refilled[OF assms(1) this, of 0 w s w'] assms
  show ?thesis
    by (simp add: REGEX_SCANNER_def wf_scanner_def RE2C_BSIZE_def)
qed



end
