(* ===== verification/BC_Encode.thy ===== *)
theory BC_Encode
  imports BC_Enums
begin

text \<open>
  The text encoding of the bytecode format: the number and string printers of
  \<^verbatim>\<open>ClamBCOutputWriter\<close> in \<^verbatim>\<open>libclambcc/ClamBCWriter.cpp\<close>. A printer returns the
  characters it appends to its stream, or the error that ends the compilation. Beside each
  printer stands the reader of the format, as a specification, and the theorems are the
  round trips: what is printed is read back, with the rest of the stream untouched.
\<close>

section \<open>Errors and sequencing\<close>

text \<open>
  \<open>Stop\<close> is a call of \<^verbatim>\<open>ClamBCStop\<close>, which prints a message and exits; \<open>Failed\<close> is
  an assertion that does not hold. The asserts of the compiler are active in its builds.
\<close>

datatype wr_error = Stop string | Failed string

type_synonym out = "wr_error + bytes"

text \<open>Printing one thing after the other: the first error wins.\<close>

fun outs :: "out list \<Rightarrow> out" where
  "outs [] = Inr []"
| "outs (Inl e # os) = Inl e"
| "outs (Inr bs # os) = (case outs os of Inl e \<Rightarrow> Inl e | Inr cs \<Rightarrow> Inr (bs @ cs))"

definition chars :: "string \<Rightarrow> bytes" where
  "chars s = map (\<lambda>c. of_nat (of_char c)) s"

definition assert_that :: "bool \<Rightarrow> string \<Rightarrow> out" where
  "assert_that b m = (if b then Inr [] else Inl (Failed m))"

definition stop_if :: "bool \<Rightarrow> string \<Rightarrow> out" where
  "stop_if b m = (if b then Inl (Stop m) else Inr [])"

lemma outs_Inr_iff: "outs os = Inr bs \<longleftrightarrow> (\<exists>bss. os = map Inr bss \<and> bs = concat bss)"
proof (induction os arbitrary: bs)
  case Nil
  then show ?case by auto
next
  case (Cons o' os)
  show ?case
  proof (cases o')
    case (Inl e)
    then show ?thesis by auto
  next
    case (Inr b)
    show ?thesis
    proof
      assume "outs (o' # os) = Inr bs"
      then obtain cs where "outs os = Inr cs" and "bs = b @ cs"
        using Inr by (auto split: sum.splits)
      with Cons Inr show "\<exists>bss. o' # os = map Inr bss \<and> bs = concat bss"
        by (metis concat.simps(2) list.simps(9))
    next
      assume "\<exists>bss. o' # os = map Inr bss \<and> bs = concat bss"
      then obtain x xs where "o' = Inr x" "os = map Inr xs" "bs = x @ concat xs" by auto
      with Cons[of "concat xs"] show "outs (o' # os) = Inr bs" by auto
    qed
  qed
qed

lemma outs_map_Inr [simp]: "outs (map Inr bss) = Inr (concat bss)"
  by (auto simp: outs_Inr_iff)

lemma outs_append: "outs (xs @ ys) = outs [outs xs, outs ys]"
  by (induction xs rule: outs.induct) (cases "outs ys"; auto split: sum.splits)+

lemma outs_Cons_InrE:
  assumes "outs (o' # os) = Inr bs"
  obtains b cs where "o' = Inr b" "outs os = Inr cs" "bs = b @ cs"
  using assms by (cases o') (auto split: sum.splits)

lemma assert_that_Inr [simp]: "assert_that b m = Inr bs \<longleftrightarrow> b \<and> bs = []"
  by (auto simp: assert_that_def)

lemma stop_if_Inr [simp]: "stop_if b m = Inr bs \<longleftrightarrow> \<not> b \<and> bs = []"
  by (auto simp: stop_if_def)

text \<open>The same with results other than text: a step after another, and a loop over a list.\<close>

fun and_then :: "'e + 'a \<Rightarrow> ('a \<Rightarrow> 'e + 'b) \<Rightarrow> 'e + 'b" where
  "and_then (Inl e) f = Inl e"
| "and_then (Inr x) f = f x"

fun fold_err :: "('a \<Rightarrow> 's \<Rightarrow> 'e + 's) \<Rightarrow> 'a list \<Rightarrow> 's \<Rightarrow> 'e + 's" where
  "fold_err f [] s = Inr s"
| "fold_err f (x # xs) s = and_then (f x s) (fold_err f xs)"

lemma and_then_InrE:
  assumes "and_then m f = Inr y"
  obtains x where "m = Inr x" "f x = Inr y"
  using assms by (cases m) auto

lemma and_then_Inr_iff: "and_then m f = Inr y \<longleftrightarrow> (\<exists>x. m = Inr x \<and> f x = Inr y)"
  by (cases m) auto

text \<open>An invariant of the loop body is an invariant of the loop.\<close>

lemma fold_err_invariant:
  assumes "\<And>x s s'. x \<in> set xs \<Longrightarrow> P s \<Longrightarrow> f x s = Inr s' \<Longrightarrow> P s'"
    and "P s" and "fold_err f xs s = Inr s'"
  shows "P s'"
  using assms
proof (induction xs arbitrary: s)
  case (Cons x xs)
  from Cons.prems(3) obtain s1 where "f x s = Inr s1" "fold_err f xs s1 = Inr s'"
    by (auto elim: and_then_InrE)
  with Cons show ?case by (metis list.set_intros(1,2))
qed simp

section \<open>Numbers\<close>

text \<open>The loop of \<^verbatim>\<open>printNumber\<close>: the nibbles of \<open>n\<close>, least significant first.\<close>

lemma unat_drop_bit4: "unat (drop_bit 4 (n :: 'a::len word)) = unat n div 16"
proof -
  have "unat (drop_bit 4 n) = drop_bit 4 (unat n)" by (rule unat_drop_bit_eq)
  also have "\<dots> = unat n div 2 ^ 4" by (rule drop_bit_eq_div)
  finally show ?thesis by simp
qed

function nibbles :: "uint64_t \<Rightarrow> bytes" where
  "nibbles n = (if n = 0 then [] else (0x60 OR ucast (n AND 0xf)) # nibbles (drop_bit 4 n))"
  by pat_completeness auto
termination
proof (relation "measure unat")
  fix n :: uint64_t assume "n \<noteq> 0"
  then have "0 < unat n" by (simp add: unat_gt_0)
  then show "(drop_bit 4 n, n) \<in> measure unat" by (simp add: unat_drop_bit4)
qed simp

declare nibbles.simps [simp del]

definition printNumber :: "uint64_t \<Rightarrow> bool \<Rightarrow> out" where
  "printNumber n constant =
     (let ds = nibbles n; i = of_nat (length ds)
      in Inr ((if \<not> constant then 0x60 OR i else 0x40 OR i) # ds))"

text \<open>
  The loop of \<^verbatim>\<open>printFixedNumber\<close> returns what remains of \<open>n\<close>, which the assertion
  after it requires to be 0.
\<close>

fun fixed_nibbles :: "uint32_t \<Rightarrow> nat \<Rightarrow> bytes \<times> uint32_t" where
  "fixed_nibbles n 0 = ([], n)"
| "fixed_nibbles n (Suc k) =
     (case fixed_nibbles (drop_bit 4 n) k of (ds, r) \<Rightarrow> ((0x60 OR ucast (n AND 0xf)) # ds, r))"

definition printFixedNumber :: "uint32_t \<Rightarrow> nat \<Rightarrow> out" where
  "printFixedNumber n fixed =
     (case fixed_nibbles n fixed of (ds, r) \<Rightarrow>
        if r = 0 then Inr ds else Inl (Failed ''Fixed-width number cannot exceed width''))"

section \<open>Strings\<close>

definition char_nibbles :: "uint8_t \<Rightarrow> bytes" where
  "char_nibbles c = [0x60 OR (c AND 0xf), 0x60 OR (drop_bit 4 c AND 0xf)]"

definition printConstData :: "bytes \<Rightarrow> out" where
  "printConstData s =
     outs [Inr (chars ''|''), printNumber (of_nat (length s)) False, Inr (concat (map char_nibbles s))]"

text \<open>
  \<^verbatim>\<open>printString\<close> takes a C string, or the null pointer \<open>None\<close> for an environment
  variable that is not set. The string ends at its first NUL and is cut at
  \<open>maxlength\<close>; its terminator is printed too.
\<close>

definition printString :: "bytes option \<Rightarrow> nat \<Rightarrow> out" where
  "printString string maxlength =
     (let str = (case string of None \<Rightarrow> [] | Some s \<Rightarrow> take maxlength (takeWhile (\<lambda>c. c \<noteq> 0) s))
      in printConstData (str @ [0]))"

section \<open>The reader\<close>

text \<open>
  How the format is read: a number starts with a character that says how many nibbles
  follow, a constant likewise with another offset.
\<close>

fun read_nibbles :: "nat \<Rightarrow> bytes \<Rightarrow> (uint64_t \<times> bytes) option" where
  "read_nibbles 0 bs = Some (0, bs)"
| "read_nibbles (Suc k) [] = None"
| "read_nibbles (Suc k) (b # bs) =
     (if b AND 0xf0 = 0x60
      then map_option (\<lambda>(n, r). (ucast (b AND 0xf) OR push_bit 4 n, r)) (read_nibbles k bs)
      else None)"

definition readPrefixed :: "uint8_t \<Rightarrow> bytes \<Rightarrow> (uint64_t \<times> bytes) option" where
  "readPrefixed base bs = (case bs of [] \<Rightarrow> None
     | b # bs' \<Rightarrow> if base \<le> b \<and> b \<le> base + 16 then read_nibbles (unat (b - base)) bs' else None)"

definition readNumber :: "bytes \<Rightarrow> (uint64_t \<times> bytes) option" where
  "readNumber bs = readPrefixed 0x60 bs"

definition readConstant :: "bytes \<Rightarrow> (uint64_t \<times> bytes) option" where
  "readConstant bs = readPrefixed 0x40 bs"

definition readFixedNumber :: "nat \<Rightarrow> bytes \<Rightarrow> (uint64_t \<times> bytes) option" where
  "readFixedNumber k bs = read_nibbles k bs"

fun read_data :: "nat \<Rightarrow> bytes \<Rightarrow> (bytes \<times> bytes) option" where
  "read_data 0 bs = Some ([], bs)"
| "read_data (Suc k) (lo # hi # bs) =
     (if lo AND 0xf0 = 0x60 \<and> hi AND 0xf0 = 0x60
      then map_option (\<lambda>(s, r). (((lo AND 0xf) OR push_bit 4 (hi AND 0xf)) # s, r)) (read_data k bs)
      else None)"
| "read_data (Suc k) bs = None"

definition readConstData :: "bytes \<Rightarrow> (bytes \<times> bytes) option" where
  "readConstData bs = (case bs of [] \<Rightarrow> None
     | b # bs' \<Rightarrow> if b = 0x7c then
         (case readNumber bs' of None \<Rightarrow> None | Some (n, bs'') \<Rightarrow> read_data (unat n) bs'')
       else None)"

section \<open>Round trips\<close>

lemma nibble_tag: "((0x60 :: uint8_t) OR (x AND 0xf)) AND 0xf0 = 0x60"
proof -
  have "((0x60 :: uint8_t) OR (x AND 0xf)) AND 0xf0 = (0x60 AND 0xf0) OR (x AND (0xf AND 0xf0))"
    by (simp only: and.assoc bit.conj_disj_distrib2)
  then show ?thesis by simp
qed

lemma nibble_value: "((0x60 :: uint8_t) OR (x AND 0xf)) AND 0xf = x AND 0xf"
proof -
  have "((0x60 :: uint8_t) OR (x AND 0xf)) AND 0xf = (0x60 AND 0xf) OR (x AND (0xf AND 0xf))"
    by (simp only: and.assoc bit.conj_disj_distrib2)
  then show ?thesis by simp
qed

lemma and_0xf: "x AND 0xf = take_bit 4 (x :: 'a::len word)"
proof -
  have "(0xf :: 'a word) = mask 4" by (simp add: mask_eq_exp_minus_1)
  then show ?thesis by (simp only: take_bit_eq_mask)
qed

lemma ucast_and_0xf: "8 \<le> LENGTH('a::len) \<Longrightarrow> (ucast (n AND 0xf :: 'a word) :: uint8_t) = ucast n AND 0xf"
  unfolding and_0xf by (rule bit_word_eqI) (auto simp: bit_simps)

lemma join_nibble:
  assumes "8 \<le> LENGTH('a::len)"
  shows "ucast ((ucast (n :: 'a word) :: uint8_t) AND 0xf) OR push_bit 4 (drop_bit 4 n) = n"
  unfolding and_0xf
proof (rule bit_word_eqI)
  fix i assume "i < LENGTH('a)"
  with assms show "bit (ucast (take_bit 4 (ucast n :: uint8_t)) OR push_bit 4 (drop_bit 4 n)) i = bit n i"
    by (cases "i < 4") (auto simp: bit_simps)
qed

lemma read_nibbles_nibbles: "read_nibbles (length (nibbles n)) (nibbles n @ rest) = Some (n, rest)"
proof (induction n rule: nibbles.induct)
  case (1 n)
  show ?case
  proof (cases "n = 0")
    case False
    with 1 show ?thesis
      by (simp add: nibbles.simps[of n] ucast_and_0xf nibble_tag nibble_value join_nibble)
  qed (simp add: nibbles.simps)
qed

lemma length_nibbles: "unat n < 16 ^ k \<Longrightarrow> length (nibbles n) \<le> k"
proof (induction k arbitrary: n)
  case 0
  then have "n = 0" by (simp add: unat_eq_0)
  then show ?case by (simp add: nibbles.simps)
next
  case (Suc k)
  then have "unat (drop_bit 4 n) < 16 ^ k" by (simp add: unat_drop_bit4 less_mult_imp_div_less)
  with Suc.IH show ?case by (simp add: nibbles.simps[of n])
qed

lemma length_nibbles_16: "length (nibbles n) \<le> 16"
  using unsigned_less[of n, where 'a = nat] by (intro length_nibbles) simp

lemma prefix_char:
  assumes "k \<le> 16"
  shows "(0x60 :: uint8_t) OR of_nat k = 0x60 + of_nat k" "(0x40 :: uint8_t) OR of_nat k = 0x40 + of_nat k"
proof -
  have "k \<in> set [0..<17]" using assms by simp
  then have "k = 0 \<or> k = 1 \<or> k = 2 \<or> k = 3 \<or> k = 4 \<or> k = 5 \<or> k = 6 \<or> k = 7 \<or> k = 8 \<or> k = 9
      \<or> k = 10 \<or> k = 11 \<or> k = 12 \<or> k = 13 \<or> k = 14 \<or> k = 15 \<or> k = 16"
    by (simp add: upt_rec) presburger
  then show "(0x60 :: uint8_t) OR of_nat k = 0x60 + of_nat k"
    and "(0x40 :: uint8_t) OR of_nat k = 0x40 + of_nat k"
    by (elim disjE; simp)+
qed

lemma readPrefixed_printed:
  assumes "k \<le> 16" and "base = 0x60 \<or> base = 0x40"
  shows "readPrefixed base ((base OR of_nat k) # bs) = read_nibbles k bs"
proof -
  have "base OR of_nat k = base + of_nat k" using assms prefix_char by auto
  moreover have "unat (of_nat k :: uint8_t) = k" using assms(1) by (simp add: unsigned_of_nat take_bit_nat_eq_self)
  moreover have "base \<le> base + of_nat k \<and> base + of_nat k \<le> base + 16"
    using assms \<open>unat (of_nat k :: uint8_t) = k\<close>
    by (auto simp: word_le_nat_alt unat_word_ariths(1))
  ultimately show ?thesis by (simp add: readPrefixed_def)
qed

lemma printNumber_Inr: "\<exists>bs. printNumber n c = Inr bs"
  by (simp add: printNumber_def Let_def)

lemma readNumber_printNumber [emit_simps]:
  "printNumber n False = Inr bs \<Longrightarrow> readNumber (bs @ rest) = Some (n, rest)"
  using readPrefixed_printed[OF length_nibbles_16, of "0x60" n] read_nibbles_nibbles[of n rest]
  by (auto simp: printNumber_def Let_def readNumber_def)

lemma readConstant_printNumber [emit_simps]:
  "printNumber n True = Inr bs \<Longrightarrow> readConstant (bs @ rest) = Some (n, rest)"
  using readPrefixed_printed[OF length_nibbles_16, of "0x40" n] read_nibbles_nibbles[of n rest]
  by (auto simp: printNumber_def Let_def readConstant_def)

text \<open>
  C26: numbers survive the encoding. Printing a 64-bit number always succeeds with at most 17
  characters, reading it back as what it was printed as gives the number and the rest of the
  stream, and reading it as the other sort fails, so that a reader can tell constants from
  plain numbers.
\<close>

theorem number_roundtrip:
  "\<exists>bs. printNumber n constant = Inr bs \<and> length bs \<le> 17
     \<and> (if constant then readConstant else readNumber) (bs @ rest) = Some (n, rest)
     \<and> (if constant then readNumber else readConstant) (bs @ rest) = None"
proof -
  let ?k = "length (nibbles n)"
  have u: "unat (of_nat ?k :: uint8_t) = ?k"
    using length_nibbles_16[of n] by (simp add: unsigned_of_nat take_bit_nat_eq_self)
  note pc = prefix_char[OF length_nibbles_16[of n]]
  have no: "\<not> (0x60 + of_nat ?k \<le> (0x50 :: uint8_t))" "\<not> ((0x60 :: uint8_t) \<le> 0x40 + of_nat ?k)"
    using length_nibbles_16[of n] u by (simp_all add: word_le_nat_alt unat_word_ariths(1))
  show ?thesis
    using length_nibbles_16[of n] readNumber_printNumber[of n _ rest] readConstant_printNumber[of n _ rest] no
    by (simp add: printNumber_def Let_def readNumber_def readConstant_def readPrefixed_def pc)
qed

lemma fixed_nibbles_value:
  "fixed_nibbles n k = (ds, r) \<Longrightarrow> length ds = k \<and> unat r = unat n div 16 ^ k
     \<and> read_nibbles k (ds @ rest) = Some (ucast (take_bit (4 * k) n), rest)"
proof (induction k arbitrary: n ds r)
  case 0
  then show ?case by simp
next
  case (Suc k)
  obtain ds' where f: "fixed_nibbles (drop_bit 4 n) k = (ds', r)" and ds: "ds = (0x60 OR ucast (n AND 0xf)) # ds'"
    using Suc.prems by (auto split: prod.splits)
  have "(ucast (ucast n AND 0xf :: uint8_t) :: uint64_t) OR push_bit 4 (ucast (take_bit (4 * k) (drop_bit 4 n)))
      = ucast (take_bit (4 * Suc k) n)"
    unfolding and_0xf
  proof (rule bit_word_eqI)
    fix i assume "i < LENGTH(64)"
    then show "bit ((ucast (take_bit 4 (ucast n) :: uint8_t) :: uint64_t) OR push_bit 4 (ucast (take_bit (4 * k) (drop_bit 4 n)))) i
        = bit (ucast (take_bit (4 * Suc k) n) :: uint64_t) i"
      by (cases "i < 4") (auto simp: bit_simps)
  qed
  with Suc.IH[OF f] show ?case
    by (simp add: ds ucast_and_0xf nibble_tag nibble_value unat_drop_bit4 div_mult2_eq)
qed

lemma printFixedNumber_Inr_iff:
  "(\<exists>bs. printFixedNumber n k = Inr bs) \<longleftrightarrow> unat n < 16 ^ k"
proof -
  obtain ds r where f: "fixed_nibbles n k = (ds, r)" by fastforce
  have "r = 0 \<longleftrightarrow> unat n div 16 ^ k = 0" using fixed_nibbles_value[OF f] by (metis unat_eq_0)
  then show ?thesis by (auto simp: printFixedNumber_def f div_eq_0_iff)
qed

lemma readFixedNumber_print [emit_simps]:
  assumes "printFixedNumber n k = Inr bs"
  shows "readFixedNumber k (bs @ rest) = Some (ucast n, rest) \<and> length bs = k"
proof -
  obtain ds r where f: "fixed_nibbles n k = (ds, r)" by fastforce
  then have ds: "ds = bs" using assms by (auto simp: printFixedNumber_def split: if_splits)
  have "unat n < 16 ^ k" using assms printFixedNumber_Inr_iff by blast
  then have "unat n < 2 ^ (4 * k)" by (simp add: power_mult)
  then have "take_bit (4 * k) n = n"
    by (intro unsigned_word_eqI[where 'a = nat]) (simp add: unsigned_take_bit_eq take_bit_nat_eq_self)
  with fixed_nibbles_value[OF f, of rest] show ?thesis by (simp add: readFixedNumber_def ds)
qed

text \<open>
  fixed-width numbers. \<^verbatim>\<open>printFixedNumber\<close> succeeds exactly when the number fits
  into the nibbles it is given, and then prints as many characters as nibbles and reading
  them gives the number back.
\<close>

theorem fixed_number_roundtrip:
  "(case printFixedNumber n k of
      Inr bs \<Rightarrow> unat n < 16 ^ k \<and> length bs = k \<and> readFixedNumber k (bs @ rest) = Some (ucast n, rest)
    | Inl e \<Rightarrow> 16 ^ k \<le> unat n)"
  using readFixedNumber_print[of n k] printFixedNumber_Inr_iff[of n k]
  by (auto split: sum.splits)

lemma read_char_nibbles: "read_data (length s) (concat (map char_nibbles s) @ rest) = Some (s, rest)"
proof (induction s)
  case (Cons c s)
  have "(c AND 0xf) OR push_bit 4 (drop_bit 4 c AND 0xf) = c"
    unfolding and_0xf
  proof (rule bit_word_eqI)
    fix i assume "i < LENGTH(8)"
    then show "bit (take_bit 4 c OR push_bit 4 (take_bit 4 (drop_bit 4 c))) i = bit c i"
      by (cases "i < 4") (auto simp: bit_simps)
  qed
  with Cons show ?case by (simp add: char_nibbles_def nibble_tag nibble_value)
qed simp

lemma printConstData_Inr: "\<exists>bs. printConstData s = Inr bs"
  by (simp add: printConstData_def printNumber_def Let_def)

lemma readConstData_print [emit_simps]:
  assumes "printConstData s = Inr bs" and "length s < 2 ^ 64"
  shows "readConstData (bs @ rest) = Some (s, rest)"
proof -
  obtain ns where ns: "printNumber (of_nat (length s)) False = Inr ns" using printNumber_Inr by blast
  with assms have bs: "bs = 0x7c # ns @ concat (map char_nibbles s)"
    by (simp add: printConstData_def chars_def)
  have "unat (of_nat (length s) :: uint64_t) = length s"
    using assms(2) by (simp add: unsigned_of_nat take_bit_nat_eq_self)
  with readNumber_printNumber[OF ns] show ?thesis
    by (simp add: readConstData_def bs read_char_nibbles)
qed

text \<open>
  C27: strings. \<^verbatim>\<open>printString\<close> of a C string prints data that reads back as the string,
  cut at its first NUL and at the maximum length, with its terminator; the null pointer
  reads back as the empty string.
\<close>

theorem string_roundtrip:
  assumes "maxlen < 2 ^ 64 - 1"
  shows "\<exists>bs. printString s maxlen = Inr bs \<and> readConstData (bs @ rest) =
     Some (take maxlen (takeWhile (\<lambda>c. c \<noteq> 0) (case s of None \<Rightarrow> [] | Some x \<Rightarrow> x)) @ [0], rest)"
proof -
  let ?d = "take maxlen (takeWhile (\<lambda>c. c \<noteq> 0) (case s of None \<Rightarrow> [] | Some x \<Rightarrow> x)) @ [0]"
  have eq: "printString s maxlen = printConstData ?d" by (simp add: printString_def split: option.splits)
  obtain bs where bs: "printConstData ?d = Inr bs" using printConstData_Inr by blast
  have "length ?d \<le> Suc maxlen" by simp
  also have "\<dots> < 2 ^ 64" using assms by simp
  finally have "readConstData (bs @ rest) = Some (?d, rest)" by (rule readConstData_print[OF bs])
  with bs show ?thesis by (simp only: eq) blast
qed

theorem string_roundtrip_witness:
  "\<exists>bs. printString (Some [0x72, 0x6f, 0x6f, 0x74, 0]) 64 = Inr bs
     \<and> readConstData (bs @ [0x60]) = Some ([0x72, 0x6f, 0x6f, 0x74, 0], [0x60])"
  using string_roundtrip[of 64 "Some [0x72, 0x6f, 0x6f, 0x74, 0]" "[0x60]"] by simp

end
