(* ===== verification/BC_IR.thy ===== *)
theory BC_IR
  imports BC_Encode
begin

text \<open>
  The LLVM intermediate representation as far as the compiler's passes look at it: types,
  constants, instructions with their operands, functions and global variables. LLVM itself
  is outside this repository; these datatypes are the shape of its data structures, with one
  constructor per class that the passes test for by \<^verbatim>\<open>isa\<close> and \<^verbatim>\<open>dyn_cast\<close>.
\<close>

section \<open>Types\<close>

text \<open>
  Structures carry their name (empty for a literal structure) and whether they are packed,
  function types whether they take variable arguments.
\<close>

datatype ty = VoidTy | IntTy nat | FloatTy | PtrTy ty | ArrayTy nat ty
  | StructTy string bool "ty list" | OpaqueTy string | FunTy ty "ty list" bool

text \<open>\<^verbatim>\<open>subtype_begin\<close> to \<^verbatim>\<open>subtype_end\<close>: the types a type contains directly.\<close>

fun subtypes :: "ty \<Rightarrow> ty list" where
  "subtypes (PtrTy t) = [t]"
| "subtypes (ArrayTy n t) = [t]"
| "subtypes (StructTy s p ts) = ts"
| "subtypes (FunTy r ts v) = r # ts"
| "subtypes _ = []"

fun isOpaque :: "ty \<Rightarrow> bool" where
  "isOpaque (OpaqueTy s) = True"
| "isOpaque _ = False"

fun isPointerTy :: "ty \<Rightarrow> bool" where
  "isPointerTy (PtrTy t) = True"
| "isPointerTy _ = False"

fun isIntegerTy :: "ty \<Rightarrow> bool" where
  "isIntegerTy (IntTy n) = True"
| "isIntegerTy _ = False"

lemma size_subtypes: "t \<in> set (subtypes u) \<Longrightarrow> size t < size u"
  by (cases u) (auto dest: size_list_estimation'[OF _ order_refl, of _ _ size])

lemma sum_subtypes: "(\<Sum>t\<leftarrow>subtypes u. Suc (size t)) < Suc (size u)"
proof -
  have "size_list size ts = (\<Sum>t\<leftarrow>ts. Suc (size t))" for ts :: "ty list"
    by (induction ts) simp_all
  then show ?thesis by (cases u) simp_all
qed

section \<open>Constants and values\<close>

datatype cexpr = CE_GetElementPtr | CE_BitCast | CE_IntToPtr | CE_Other

text \<open>
  \<open>KInt w v\<close> is the integer of \<open>w\<close> bits with the zero-extended value \<open>v\<close>; the flag of
  \<open>KFloat\<close> says whether it is positive zero.
\<close>

datatype konst = KInt nat nat | KGlobal string | KExpr cexpr ty "konst list" | KNull ty
  | KZero ty | KArray "konst list" | KStruct "konst list" | KData "konst list"
  | KFloat bool | KUndef ty | KFunction string

text \<open>
  A value is a constant, a parameter by its position or an instruction by its number, each
  with its type.
\<close>

datatype val = VConst (val_ty: ty) konst | VArg (val_ty: ty) nat | VInst (val_ty: ty) nat

section \<open>Instructions\<close>

datatype binop = Add | Sub | Mul | UDiv | SDiv | URem | SRem | Shl | LShr | AShr | And | Or | Xor
  | FloatOp

datatype castop = Trunc | SExt | ZExt | BitCast bool | PtrToInt | IntToPtr | OtherCast

datatype pred = ICMP_EQ | ICMP_NE | ICMP_UGT | ICMP_UGE | ICMP_ULT | ICMP_ULE
  | ICMP_SGT | ICMP_SGE | ICMP_SLT | ICMP_SLE | BAD_PREDICATE

datatype intrinsic = I_memset | I_memcpy | I_memmove | I_bswap | I_other

record callee =
  fn_name :: string
  fn_ty :: ty
  fn_isDeclaration :: bool
  fn_isVarArg :: bool
  fn_sameCallingConv :: bool
  fn_intrinsic :: "intrinsic option"
  fn_arg_size :: nat

text \<open>
  The flag of \<open>BitCast\<close> says whether the cast is lossless; an alloca has the number of
  elements as its operand. A basic block is named by its number in the function; a phi node
  has pairs of an incoming value and the block it comes from. Calls of a function, of a
  pointer and of inline assembly (with the type of its code) are apart.
\<close>

datatype kind = Binary binop val val | Cast castop val | Select val val val | ICmp pred val val
  | Load val | Store val val | Alloca ty val | GetElementPtr val "val list"
  | Br nat | CondBr val nat nat | Switch val | Return "val option" | Unreachable
  | Call callee "val list" | IndirectCall val "val list" | InlineAsmCall ty "val list"
  | DbgIntrinsic | Phi "(val \<times> nat) list" | OtherInst "val list"

text \<open>The operands other than basic blocks, called functions and inline assembly.\<close>

fun operands :: "kind \<Rightarrow> val list" where
  "operands (Binary op a b) = [a, b]"
| "operands (Cast op a) = [a]"
| "operands (Select c a b) = [c, a, b]"
| "operands (ICmp p a b) = [a, b]"
| "operands (Load p) = [p]"
| "operands (Store v p) = [v, p]"
| "operands (Alloca t n) = [n]"
| "operands (GetElementPtr p is) = p # is"
| "operands (CondBr c a b) = [c]"
| "operands (Switch v) = [v]"
| "operands (Return (Some v)) = [v]"
| "operands (Call f as) = as"
| "operands (IndirectCall p as) = as @ [p]"
| "operands (InlineAsmCall t as) = as"
| "operands (Phi ivs) = map fst ivs"
| "operands (OtherInst vs) = vs"
| "operands _ = []"

text \<open>The same instruction with other operands.\<close>

fun map_operands :: "(val \<Rightarrow> val) \<Rightarrow> kind \<Rightarrow> kind" where
  "map_operands g (Binary op a b) = Binary op (g a) (g b)"
| "map_operands g (Cast op a) = Cast op (g a)"
| "map_operands g (Select c a b) = Select (g c) (g a) (g b)"
| "map_operands g (ICmp p a b) = ICmp p (g a) (g b)"
| "map_operands g (Load p) = Load (g p)"
| "map_operands g (Store v p) = Store (g v) (g p)"
| "map_operands g (Alloca t n) = Alloca t (g n)"
| "map_operands g (GetElementPtr p is) = GetElementPtr (g p) (map g is)"
| "map_operands g (CondBr c a b) = CondBr (g c) a b"
| "map_operands g (Switch v) = Switch (g v)"
| "map_operands g (Return v) = Return (map_option g v)"
| "map_operands g (Call f as) = Call f (map g as)"
| "map_operands g (IndirectCall p as) = IndirectCall (g p) (map g as)"
| "map_operands g (InlineAsmCall t as) = InlineAsmCall t (map g as)"
| "map_operands g (Phi ivs) = Phi (map (\<lambda>(v, b). (g v, b)) ivs)"
| "map_operands g (OtherInst vs) = OtherInst (map g vs)"
| "map_operands g (Br b) = Br b"
| "map_operands g Unreachable = Unreachable"
| "map_operands g DbgIntrinsic = DbgIntrinsic"

lemma operands_map [simp]: "operands (map_operands g k) = map g (operands k)"
proof (cases k)
  case (Return v)
  then show ?thesis by (cases v) simp_all
qed auto

text \<open>The types of all operands but basic blocks. What is called is the last operand.\<close>

fun callee_type :: "kind \<Rightarrow> ty list" where
  "callee_type (Call f as) = [PtrTy (fn_ty f)]"
| "callee_type (InlineAsmCall t as) = [t]"
| "callee_type _ = []"

definition operand_types :: "kind \<Rightarrow> ty list" where
  "operand_types k = map val_ty (operands k) @ callee_type k"

text \<open>\<^verbatim>\<open>isArrayAllocation\<close>: the number of elements is not the constant 1.\<close>

fun isArrayAllocation :: "val \<Rightarrow> bool" where
  "isArrayAllocation (VConst t (KInt w n)) = (n \<noteq> 1)"
| "isArrayAllocation _ = True"

record inst =
  inst_id :: nat
  inst_ty :: ty
  inst_kind :: kind

record bfunction =
  f_name :: string
  f_args :: "ty list"
  f_ret :: ty
  f_structRet :: bool
  f_blocks :: "inst list list"

definition f_insts :: "bfunction \<Rightarrow> inst list" where
  "f_insts f = concat (f_blocks f)"

text \<open>A number that no instruction of the function has, for a new one.\<close>

definition fresh_id :: "bfunction \<Rightarrow> nat" where
  "fresh_id f = Suc (Max (set (0 # map inst_id (f_insts f))))"

fun isPhi :: "kind \<Rightarrow> bool" where
  "isPhi (Phi ivs) = True"
| "isPhi _ = False"

text \<open>The blocks a terminator can go to.\<close>

fun successors :: "kind \<Rightarrow> nat list" where
  "successors (Br b) = [b]"
| "successors (CondBr v a b) = [a, b]"
| "successors _ = []"

text \<open>A basic block ends with its terminator and has no other.\<close>

fun isTerminator :: "kind \<Rightarrow> bool" where
  "isTerminator (Br b) = True"
| "isTerminator (CondBr v a b) = True"
| "isTerminator (Switch v) = True"
| "isTerminator (Return v) = True"
| "isTerminator Unreachable = True"
| "isTerminator _ = False"

lemma kind_map_operands [simp]:
  "isPhi (map_operands g k) = isPhi k" "isTerminator (map_operands g k) = isTerminator k"
  "successors (map_operands g k) = successors k"
  by (cases k; simp)+

definition wf_block :: "inst list \<Rightarrow> bool" where
  "wf_block b \<longleftrightarrow> b \<noteq> [] \<and> isTerminator (inst_kind (last b))
     \<and> list_all (\<lambda>i. \<not> isTerminator (inst_kind i)) (butlast b)"

section \<open>Modules\<close>

record gvar =
  gv_name :: string
  gv_ty :: ty
  gv_isConstant :: bool
  gv_init :: "konst option"
  gv_initUnused :: bool
  gv_threadLocal :: bool
  gv_hasSection :: bool

record mfunction =
  mf_ty :: ty
  mf_isDeclaration :: bool
  mf_unused :: bool
  mf_body :: bfunction

abbreviation mf_name :: "mfunction \<Rightarrow> string" where
  "mf_name f \<equiv> f_name (mf_body f)"

text \<open>
  The strings are the metadata nodes \<^verbatim>\<open>clambc.logicalsignature\<close> and
  \<^verbatim>\<open>clambc.virusnames\<close>, empty when the node is missing.
\<close>

record bmodule =
  m_globals :: "gvar list"
  m_functions :: "mfunction list"
  m_logicalSignature :: string
  m_virusnames :: string

end
