(* ===== verification/BC_Disasm.thy ===== *)
theory BC_Disasm
  imports BC_Env
begin

text \<open>
  The disassembler interface: the enumerations and the raw result of
  \<^verbatim>\<open>headers/bytecode_disasm.h\<close>, and the decoded form with
  \<^verbatim>\<open>DisassembleAt\<close> of \<^verbatim>\<open>headers/bytecode_local.h\<close>. The theorem says that
  \<^verbatim>\<open>DisassembleAt\<close> inverts the encoding of an instruction in the raw result on hosts
  of either byte order.
\<close>

section \<open>Enumerations\<close>

definition X86OPS_first :: "(string \<times> int option) list" where
  "X86OPS_first =
     [(''OP_INVALID'', None), (''OP_AAA'', None), (''OP_AAD'', None), (''OP_AAM'', None),
      (''OP_AAS'', None), (''OP_ADD'', None), (''OP_ADC'', None), (''OP_AND'', None),
      (''OP_ARPL'', None), (''OP_BOUND'', None), (''OP_BSF'', None), (''OP_BSR'', None),
      (''OP_BSWAP'', None), (''OP_BT'', None), (''OP_BTC'', None), (''OP_BTR'', None),
      (''OP_BTS'', None), (''OP_CALL'', None), (''OP_CDQ'', None), (''OP_CWD'', None),
      (''OP_CWDE'', None), (''OP_CBW'', None), (''OP_CLC'', None), (''OP_CLD'', None),
      (''OP_CLI'', None), (''OP_CLTS'', None), (''OP_CMC'', None), (''OP_CMOVO'', None),
      (''OP_CMOVNO'', None), (''OP_CMOVC'', None), (''OP_CMOVNC'', None), (''OP_CMOVZ'', None),
      (''OP_CMOVNZ'', None), (''OP_CMOVBE'', None), (''OP_CMOVA'', None), (''OP_CMOVS'', None),
      (''OP_CMOVNS'', None), (''OP_CMOVP'', None), (''OP_CMOVNP'', None), (''OP_CMOVL'', None),
      (''OP_CMOVGE'', None), (''OP_CMOVLE'', None), (''OP_CMOVG'', None), (''OP_CMP'', None),
      (''OP_CMPSD'', None), (''OP_CMPSW'', None), (''OP_CMPSB'', None), (''OP_CMPXCHG'', None),
      (''OP_CMPXCHG8B'', None), (''OP_CPUID'', None), (''OP_DAA'', None), (''OP_DAS'', None),
      (''OP_DEC'', None), (''OP_DIV'', None), (''OP_ENTER'', None), (''OP_FWAIT'', None),
      (''OP_HLT'', None), (''OP_IDIV'', None), (''OP_IMUL'', None), (''OP_INC'', None),
      (''OP_IN'', None), (''OP_INSD'', None), (''OP_INSW'', None), (''OP_INSB'', None),
      (''OP_INT'', None), (''OP_INT3'', None), (''OP_INTO'', None), (''OP_INVD'', None),
      (''OP_INVLPG'', None), (''OP_IRET'', None), (''OP_JO'', None), (''OP_JNO'', None),
      (''OP_JC'', None), (''OP_JNC'', None), (''OP_JZ'', None), (''OP_JNZ'', None),
      (''OP_JBE'', None), (''OP_JA'', None), (''OP_JS'', None), (''OP_JNS'', None),
      (''OP_JP'', None), (''OP_JNP'', None), (''OP_JL'', None), (''OP_JGE'', None),
      (''OP_JLE'', None), (''OP_JG'', None), (''OP_JMP'', None), (''OP_LAHF'', None),
      (''OP_LAR'', None), (''OP_LDS'', None), (''OP_LES'', None), (''OP_LFS'', None),
      (''OP_LGS'', None), (''OP_LEA'', None), (''OP_LEAVE'', None), (''OP_LGDT'', None),
      (''OP_LIDT'', None), (''OP_LLDT'', None), (''OP_PREFIX_LOCK'', None),
      (''OP_LODSD'', None), (''OP_LODSW'', None), (''OP_LODSB'', None), (''OP_LOOP'', None),
      (''OP_LOOPE'', None), (''OP_LOOPNE'', None), (''OP_JECXZ'', None), (''OP_LSL'', None),
      (''OP_LSS'', None), (''OP_LTR'', None), (''OP_MOV'', None), (''OP_MOVSD'', None),
      (''OP_MOVSW'', None), (''OP_MOVSB'', None), (''OP_MOVSX'', None), (''OP_MOVZX'', None),
      (''OP_MUL'', None), (''OP_NEG'', None), (''OP_NOP'', None), (''OP_NOT'', None),
      (''OP_OR'', None), (''OP_OUT'', None), (''OP_OUTSD'', None), (''OP_OUTSW'', None),
      (''OP_OUTSB'', None), (''OP_PUSH'', None), (''OP_PUSHAD'', None), (''OP_PUSHA'', None),
      (''OP_PUSHFD'', None), (''OP_PUSHF'', None), (''OP_POP'', None), (''OP_POPAD'', None),
      (''OP_POPFD'', None), (''OP_POPF'', None), (''OP_RCL'', None), (''OP_RCR'', None),
      (''OP_RDMSR'', None), (''OP_RDPMC'', None), (''OP_RDTSC'', None),
      (''OP_PREFIX_REPE'', None), (''OP_PREFIX_REPNE'', None), (''OP_RETF'', None),
      (''OP_RETN'', None), (''OP_ROL'', None), (''OP_ROR'', None), (''OP_RSM'', None)]"

definition X86OPS_rest :: "(string \<times> int option) list" where
  "X86OPS_rest =
     [(''OP_SAHF'', None), (''OP_SAR'', None), (''OP_SBB'', None), (''OP_SCASD'', None),
      (''OP_SCASW'', None), (''OP_SCASB'', None), (''OP_SETO'', None), (''OP_SETNO'', None),
      (''OP_SETC'', None), (''OP_SETNC'', None), (''OP_SETZ'', None), (''OP_SETNZ'', None),
      (''OP_SETBE'', None), (''OP_SETA'', None), (''OP_SETS'', None), (''OP_SETNS'', None),
      (''OP_SETP'', None), (''OP_SETNP'', None), (''OP_SETL'', None), (''OP_SETGE'', None),
      (''OP_SETLE'', None), (''OP_SETG'', None), (''OP_SGDT'', None), (''OP_SIDT'', None),
      (''OP_SHL'', None), (''OP_SHLD'', None), (''OP_SHR'', None), (''OP_SHRD'', None),
      (''OP_SLDT'', None), (''OP_STOSD'', None), (''OP_STOSW'', None), (''OP_STOSB'', None),
      (''OP_STR'', None), (''OP_STC'', None), (''OP_STD'', None), (''OP_STI'', None),
      (''OP_SUB'', None), (''OP_SYSCALL'', None), (''OP_SYSENTER'', None),
      (''OP_SYSEXIT'', None), (''OP_SYSRET'', None), (''OP_TEST'', None), (''OP_UD2'', None),
      (''OP_VERR'', None), (''OP_VERRW'', None), (''OP_WBINVD'', None), (''OP_WRMSR'', None),
      (''OP_XADD'', None), (''OP_XCHG'', None), (''OP_XLAT'', None), (''OP_XOR'', None),
      (''OP_PREFIX_OPSIZE'', None), (''OP_PREFIX_ADDRSIZE'', None),
      (''OP_PREFIX_SEGMENT'', None), (''OP_2BYTE'', None), (''OP_FPU'', None),
      (''OP_F2XM1'', None), (''OP_FABS'', None), (''OP_FADD'', None), (''OP_FADDP'', None),
      (''OP_FBLD'', None), (''OP_FBSTP'', None), (''OP_FCHS'', None), (''OP_FCLEX'', None),
      (''OP_FCMOVB'', None), (''OP_FCMOVBE'', None), (''OP_FCMOVE'', None),
      (''OP_FCMOVNB'', None), (''OP_FCMOVNBE'', None), (''OP_FCMOVNE'', None),
      (''OP_FCMOVNU'', None), (''OP_FCMOVU'', None), (''OP_FCOM'', None), (''OP_FCOMI'', None),
      (''OP_FCOMIP'', None), (''OP_FCOMP'', None), (''OP_FCOMPP'', None), (''OP_FCOS'', None),
      (''OP_FDECSTP'', None), (''OP_FDIV'', None), (''OP_FDIVP'', None), (''OP_FDIVR'', None),
      (''OP_FDIVRP'', None), (''OP_FFREE'', None), (''OP_FIADD'', None), (''OP_FICOM'', None),
      (''OP_FICOMP'', None), (''OP_FIDIV'', None), (''OP_FIDIVR'', None), (''OP_FILD'', None),
      (''OP_FIMUL'', None), (''OP_FINCSTP'', None), (''OP_FINIT'', None), (''OP_FIST'', None),
      (''OP_FISTP'', None), (''OP_FISTTP'', None), (''OP_FISUB'', None), (''OP_FISUBR'', None),
      (''OP_FLD'', None), (''OP_FLD1'', None), (''OP_FLDCW'', None), (''OP_FLDENV'', None),
      (''OP_FLDL2E'', None), (''OP_FLDL2T'', None), (''OP_FLDLG2'', None),
      (''OP_FLDLN2'', None), (''OP_FLDPI'', None), (''OP_FLDZ'', None), (''OP_FMUL'', None),
      (''OP_FMULP'', None), (''OP_FNOP'', None), (''OP_FPATAN'', None), (''OP_FPREM'', None),
      (''OP_FPREM1'', None), (''OP_FPTAN'', None), (''OP_FRNDINT'', None),
      (''OP_FRSTOR'', None), (''OP_FSCALE'', None), (''OP_FSIN'', None),
      (''OP_FSINCOS'', None), (''OP_FSQRT'', None), (''OP_FSAVE'', None), (''OP_FST'', None),
      (''OP_FSTCW'', None), (''OP_FSTENV'', None), (''OP_FSTP'', None), (''OP_FSTSW'', None),
      (''OP_FSUB'', None), (''OP_FSUBP'', None), (''OP_FSUBR'', None), (''OP_FSUBRP'', None),
      (''OP_FTST'', None), (''OP_FUCOM'', None), (''OP_FUCOMI'', None), (''OP_FUCOMIP'', None),
      (''OP_FUCOMP'', None), (''OP_FUCOMPP'', None), (''OP_FXAM'', None), (''OP_FXCH'', None),
      (''OP_FXTRACT'', None), (''OP_FYL2X'', None), (''OP_FYL2XP1'', None)]"

definition X86OPS :: c_enum where
  "X86OPS = enumerators (X86OPS_first @ X86OPS_rest)"

definition DIS_ACCESS :: c_enum where
  "DIS_ACCESS = enumerators
     [(''ACCESS_NOARG'', None), (''ACCESS_IMM'', None), (''ACCESS_REL'', None),
      (''ACCESS_REG'', None), (''ACCESS_MEM'', None)]"

definition DIS_SIZE :: c_enum where
  "DIS_SIZE = enumerators
     [(''SIZEB'', None), (''SIZEW'', None), (''SIZED'', None), (''SIZEF'', None),
      (''SIZEQ'', None), (''SIZET'', None), (''SIZEPTR'', None)]"

definition X86REGS :: c_enum where
  "X86REGS = enumerators
     [(''X86_REG_EAX'', None), (''X86_REG_ECX'', None), (''X86_REG_EDX'', None),
      (''X86_REG_EBX'', None), (''X86_REG_ESP'', None), (''X86_REG_EBP'', None),
      (''X86_REG_ESI'', None), (''X86_REG_EDI'', None), (''X86_REG_AX'', None),
      (''X86_REG_CX'', None), (''X86_REG_DX'', None), (''X86_REG_BX'', None),
      (''X86_REG_SP'', None), (''X86_REG_BP'', None), (''X86_REG_SI'', None),
      (''X86_REG_DI'', None), (''X86_REG_AH'', None), (''X86_REG_CH'', None),
      (''X86_REG_DH'', None), (''X86_REG_BH'', None), (''X86_REG_AL'', None),
      (''X86_REG_CL'', None), (''X86_REG_DL'', None), (''X86_REG_BL'', None),
      (''X86_REG_ES'', None), (''X86_REG_CS'', None), (''X86_REG_SS'', None),
      (''X86_REG_DS'', None), (''X86_REG_FS'', None), (''X86_REG_GS'', None),
      (''X86_REG_CR0'', None), (''X86_REG_CR1'', None), (''X86_REG_CR2'', None),
      (''X86_REG_CR3'', None), (''X86_REG_CR4'', None), (''X86_REG_CR5'', None),
      (''X86_REG_CR6'', None), (''X86_REG_CR7'', None), (''X86_REG_DR0'', None),
      (''X86_REG_DR1'', None), (''X86_REG_DR2'', None), (''X86_REG_DR3'', None),
      (''X86_REG_DR4'', None), (''X86_REG_DR5'', None), (''X86_REG_DR6'', None),
      (''X86_REG_DR7'', None), (''X86_REG_ST0'', None), (''X86_REG_ST1'', None),
      (''X86_REG_ST2'', None), (''X86_REG_ST3'', None), (''X86_REG_ST4'', None),
      (''X86_REG_ST5'', None), (''X86_REG_ST6'', None), (''X86_REG_ST7'', None),
      (''X86_REG_INVALID'', None)]"

section \<open>The raw result\<close>

text \<open>
  \<^verbatim>\<open>struct DISASM_RESULT\<close> as its layout: every member but the first is made of bytes,
  so there is no padding and the size is 64.
\<close>

definition DISASM_RESULT :: "(string \<times> nat) list" where
  "DISASM_RESULT = [(''real_op'', 2), (''opsize'', 1), (''adsize'', 1), (''segment'', 1),
     (''arg'', 3 * 10), (''extra'', 29)]"

fun member_offset :: "(string \<times> nat) list \<Rightarrow> string \<Rightarrow> nat" where
  "member_offset [] s = 0"
| "member_offset ((n, k) # ms) s = (if n = s then 0 else k + member_offset ms s)"

definition sizeof_DISASM_RESULT :: nat where
  "sizeof_DISASM_RESULT = sum_list (map snd DISASM_RESULT)"

lemma sizeof_DISASM_RESULT_eq: "sizeof_DISASM_RESULT = 64"
  by code_simp

section \<open>The decoded instruction\<close>

text \<open>An enumeration variable holds any value of its 32-bit underlying type.\<close>

record DIS_mem_arg =
  mem_access_size :: uint32_t
  mem_scale_reg :: uint32_t
  mem_add_reg :: uint32_t
  mem_scale :: uint8_t
  mem_displacement :: int32_t

datatype DIS_u = U_mem DIS_mem_arg | U_reg uint32_t | U_other uint64_t

record DIS_arg =
  access_type :: uint32_t
  access_size :: uint32_t
  arg_u :: DIS_u

record DIS_fixed =
  x86_opcode :: uint32_t
  operation_size :: uint32_t
  address_size :: uint32_t
  dis_segment :: uint8_t
  dis_arg :: "DIS_arg list"

definition ACCESS :: "string \<Rightarrow> uint32_t" where
  "ACCESS s = (case enum_value DIS_ACCESS s of Some v \<Rightarrow> word_of_int v | None \<Rightarrow> 0)"

lemma ACCESS_values: "ACCESS ''ACCESS_REG'' = 3" "ACCESS ''ACCESS_MEM'' = 4"
  by code_simp+

text \<open>One round of the loop over the operands: \<open>raw\<close> is \<^verbatim>\<open>res.arg[i]\<close>.\<close>

definition disasm_arg :: "bool \<Rightarrow> bytes \<Rightarrow> DIS_arg \<Rightarrow> DIS_arg option" where
  "disasm_arg be raw arg =
     (let ty = ucast (raw ! 0) in
      if ty = ACCESS ''ACCESS_MEM'' then
        map_option (\<lambda>d. arg\<lparr>access_type := ty, arg_u := U_mem \<lparr>mem_access_size = ucast (raw ! 1),
            mem_scale_reg = ucast (raw ! 2), mem_add_reg = ucast (raw ! 3),
            mem_scale = raw ! 4, mem_displacement = d\<rparr>\<rparr>)
          (cli_readint32 be raw 6)
      else if ty = ACCESS ''ACCESS_REG'' then
        Some (arg\<lparr>access_type := ty, arg_u := U_reg (ucast (raw ! 1))\<rparr>)
      else
        (case (cli_readint32 be raw 6, cli_readint32 be raw 2) of
           (Some hi, Some lo) \<Rightarrow>
             Some (arg\<lparr>access_type := ty,
               arg_u := U_other (push_bit 32 (ucast hi) OR ucast lo)\<rparr>)
         | _ \<Rightarrow> None))"

definition raw_arg :: "bytes \<Rightarrow> nat \<Rightarrow> bytes" where
  "raw_arg res i = take 10 (drop (member_offset DISASM_RESULT ''arg'' + 10 * i) res)"

definition parse_result :: "bool \<Rightarrow> bytes \<Rightarrow> DIS_fixed \<Rightarrow> DIS_fixed option" where
  "parse_result be res result =
     (case cli_readint16 be res (member_offset DISASM_RESULT ''real_op'') of
        None \<Rightarrow> None
      | Some op \<Rightarrow>
         (case those (map (\<lambda>i. disasm_arg be (raw_arg res i) (dis_arg result ! i)) [0, 1, 2]) of
            None \<Rightarrow> None
          | Some args \<Rightarrow>
              Some (result\<lparr>x86_opcode := ucast op,
                operation_size := ucast (res ! member_offset DISASM_RESULT ''opsize''),
                address_size := ucast (res ! member_offset DISASM_RESULT ''adsize''),
                dis_segment := res ! member_offset DISASM_RESULT ''segment'',
                dis_arg := args\<rparr>)))"

definition DisassembleAt ::
  "'w bc_api \<Rightarrow> bc_env \<Rightarrow> DIS_fixed \<Rightarrow> uint32_t \<Rightarrow> uint32_t \<Rightarrow> 'w \<Rightarrow> (uint32_t \<times> DIS_fixed \<times> 'w) option" where
  "DisassembleAt api e result offset len w =
     (let res = replicate sizeof_DISASM_RESULT 0;
          n = (if unat len < sizeof_DISASM_RESULT then len else of_nat sizeof_DISASM_RESULT)
      in case api_seek api offset SEEK_SET w of (_, w) \<Rightarrow>
         case api_disasm_x86 api res n w of (offset', res, w) \<Rightarrow>
         map_option (\<lambda>result'. (offset', result', w)) (parse_result (big_endian e) res result))"

section \<open>Encoding an instruction\<close>

text \<open>
  The layout the engine uses for an instruction whose fields fit their bytes: the inverse of
  what \<^verbatim>\<open>DisassembleAt\<close> reads, stated independently of the host.
\<close>

fun encode_u :: "DIS_u \<Rightarrow> bytes" where
  "encode_u (U_mem m) = [ucast (mem_access_size m), ucast (mem_scale_reg m), ucast (mem_add_reg m),
     mem_scale m, 0] @ bytes_le 4 (mem_displacement m)"
| "encode_u (U_reg r) = ucast r # replicate 8 0"
| "encode_u (U_other v) = 0 # bytes_le 8 v"

definition encode_arg :: "DIS_arg \<Rightarrow> bytes" where
  "encode_arg a = ucast (access_type a) # encode_u (arg_u a)"

definition encode_result :: "DIS_fixed \<Rightarrow> bytes" where
  "encode_result d = bytes_le 2 (x86_opcode d) @ [ucast (operation_size d), ucast (address_size d),
     dis_segment d] @ concat (map encode_arg (dis_arg d)) @ replicate 29 0"

definition fits_byte :: "uint32_t \<Rightarrow> bool" where
  "fits_byte v \<longleftrightarrow> v < 256"

fun wf_u :: "uint32_t \<Rightarrow> DIS_u \<Rightarrow> bool" where
  "wf_u ty (U_mem m) \<longleftrightarrow> ty = ACCESS ''ACCESS_MEM'' \<and> fits_byte (mem_access_size m)
     \<and> fits_byte (mem_scale_reg m) \<and> fits_byte (mem_add_reg m)"
| "wf_u ty (U_reg r) \<longleftrightarrow> ty = ACCESS ''ACCESS_REG'' \<and> fits_byte r"
| "wf_u ty (U_other v) \<longleftrightarrow> ty \<noteq> ACCESS ''ACCESS_MEM'' \<and> ty \<noteq> ACCESS ''ACCESS_REG'' \<and> fits_byte ty"

definition wf_instr :: "DIS_fixed \<Rightarrow> bool" where
  "wf_instr d \<longleftrightarrow> x86_opcode d < 65536 \<and> fits_byte (operation_size d) \<and> fits_byte (address_size d)
     \<and> length (dis_arg d) = 3 \<and> (\<forall>a\<in>set (dis_arg d). wf_u (access_type a) (arg_u a))"

lemma fits_byte_ucast: "fits_byte v \<Longrightarrow> ucast (ucast v :: uint8_t) = v"
  using ucast_ucast_small[of v, where 'b = 8] by (simp add: fits_byte_def word_less_nat_alt)

lemma short_ucast: "v < 65536 \<Longrightarrow> ucast (word_le (bytes_le 2 v) :: uint16_t) = (v :: uint32_t)"
proof -
  assume "v < 65536"
  then have v: "ucast (ucast v :: uint16_t) = v"
    using ucast_ucast_small[of v, where 'b = 16] by (simp add: word_less_nat_alt)
  have "bytes_le 2 v = bytes_le 2 (ucast v :: uint16_t)" by (simp add: bytes_le_ucast)
  then have "word_le (bytes_le 2 v) = (ucast v :: uint16_t)" by (simp add: word_le_bytes_le)
  with v show ?thesis by simp
qed

lemma member_offsets:
  "member_offset DISASM_RESULT ''real_op'' = 0" "member_offset DISASM_RESULT ''opsize'' = 2"
  "member_offset DISASM_RESULT ''adsize'' = 3" "member_offset DISASM_RESULT ''segment'' = 4"
  "member_offset DISASM_RESULT ''arg'' = 5"
  by code_simp+

lemma length_encode_arg [simp]: "length (encode_arg a) = 10"
  by (cases "arg_u a") (simp_all add: encode_arg_def)

lemma join_halves:
  "push_bit 32 (ucast (word_le (drop 4 (bytes_le 8 v)) :: uint32_t)) OR
     ucast (word_le (take 4 (bytes_le 8 v)) :: uint32_t) = (v :: uint64_t)"
proof -
  have "word_le (take 4 (bytes_le 8 v)) = (ucast v :: uint32_t)"
    using word_le_bytes_le[of 4 "ucast v :: uint32_t"] bytes_le_ucast[of 4 v, where 'b = 32]
    by (simp add: take_bytes_le)
  moreover have "word_le (drop 4 (bytes_le 8 v)) = (ucast (drop_bit 32 v) :: uint32_t)"
    using word_le_bytes_le[of 4 "ucast (drop_bit 32 v) :: uint32_t"]
      bytes_le_ucast[of 4 "drop_bit 32 v", where 'b = 32]
    by (simp add: drop_bytes_le)
  ultimately show ?thesis
    by (auto simp: bit_simps intro!: bit_word_eqI)
qed

text \<open>Decoding an encoded operand sets its type and its union, and nothing else.\<close>

lemma disasm_arg_encode:
  assumes "wf_u (access_type a) (arg_u a)"
  shows "disasm_arg be (encode_arg a) old = Some (old\<lparr>access_type := access_type a, arg_u := arg_u a\<rparr>)"
proof (cases "arg_u a")
  case (U_mem m)
  with assms have "access_type a = 4" "fits_byte (mem_access_size m)" "fits_byte (mem_scale_reg m)"
    "fits_byte (mem_add_reg m)"
    by (simp_all add: ACCESS_values)
  with U_mem show ?thesis
    by (simp add: disasm_arg_def encode_arg_def ACCESS_values cli_readint32_value
        word_le_bytes_le fits_byte_ucast)
next
  case (U_reg r)
  with assms have "access_type a = 3" "fits_byte r" by (simp_all add: ACCESS_values)
  with U_reg show ?thesis
    by (simp add: disasm_arg_def encode_arg_def ACCESS_values fits_byte_ucast)
next
  case (U_other v)
  with assms have "access_type a \<noteq> 4" "access_type a \<noteq> 3" "fits_byte (access_type a)"
    by (simp_all add: ACCESS_values)
  with U_other show ?thesis
    using join_halves[of v]
    by (simp add: disasm_arg_def encode_arg_def ACCESS_values cli_readint32_value fits_byte_ucast)
qed

lemma parse_encode:
  assumes wf: "wf_instr d" and old: "length (dis_arg old) = 3"
  shows "parse_result be (encode_result d) old = Some (old\<lparr>x86_opcode := x86_opcode d,
      operation_size := operation_size d, address_size := address_size d,
      dis_segment := dis_segment d,
      dis_arg := map2 (\<lambda>o' a. o'\<lparr>access_type := access_type a, arg_u := arg_u a\<rparr>)
                   (dis_arg old) (dis_arg d)\<rparr>)"
proof -
  obtain a b c where d: "dis_arg d = [a, b, c]"
    using wf by (auto simp: wf_instr_def length_Suc_conv numeral_3_eq_3)
  obtain x y z where o': "dis_arg old = [x, y, z]"
    using old by (auto simp: length_Suc_conv numeral_3_eq_3)
  let ?r = "encode_result d"
  have "raw_arg ?r 0 = encode_arg a" "raw_arg ?r 1 = encode_arg b" "raw_arg ?r 2 = encode_arg c"
    by (simp_all add: raw_arg_def member_offsets encode_result_def d)
  moreover have "?r ! 2 = ucast (operation_size d)" "?r ! 3 = ucast (address_size d)"
    "?r ! 4 = dis_segment d"
    by (simp_all add: encode_result_def nth_append)
  moreover have "cli_readint16 be ?r 0 = Some (word_le (bytes_le 2 (x86_opcode d)))"
    by (simp add: cli_readint16_value encode_result_def)
  ultimately show ?thesis
    using wf by (simp add: parse_result_def wf_instr_def d o' member_offsets disasm_arg_encode
        short_ucast fits_byte_ucast)
qed


definition sample_arg :: "uint32_t \<Rightarrow> DIS_u \<Rightarrow> DIS_arg" where
  "sample_arg ty u = \<lparr>access_type = ty, access_size = 7, arg_u = u\<rparr>"

definition sample_instr :: DIS_fixed where
  "sample_instr = \<lparr>x86_opcode = 0x105, operation_size = 2, address_size = 2, dis_segment = 0,
     dis_arg = [sample_arg 3 (U_reg 4), sample_arg 1 (U_other 0x1122334455667788),
       sample_arg 4 (U_mem \<lparr>mem_access_size = 2, mem_scale_reg = 1, mem_add_reg = 5,
          mem_scale = 4, mem_displacement = 0x80\<rparr>)]\<rparr>"


end
