(* ===== verification/BC_ApiTable.thy ===== *)
theory BC_ApiTable
  imports BC_Env BC_Disasm
begin

text \<open>
  The API contract between a bytecode and the engine: the functions
  \<^verbatim>\<open>headers/bytecode_api.h\<close> declares, the copy of them the compiler reads
  (\<^verbatim>\<open>libclambcc/bytecode_api.h\<close>), and the tables of
  \<^verbatim>\<open>headers/bytecode_api_decl.c.h\<close> by which the engine finds a function from the
  number the compiler writes. The theorems say that the three agree: names, order, types and
  dispatch tables.
\<close>

section \<open>Declarations\<close>

text \<open>
  A declaration is a name, a result type and parameter types. The flag of a pointer says that
  its target is \<^verbatim>\<open>const\<close>.
\<close>

datatype ctype = TInt32 | TUInt32 | TVoidPtr | TPtr bool string

type_synonym api_decl = "string \<times> ctype \<times> ctype list"

definition api_decls_1 :: "api_decl list" where
  "api_decls_1 =
     [(''test1'', TUInt32, [TUInt32, TUInt32]),
      (''read'', TInt32, [TPtr False ''uint8_t'', TInt32]),
      (''write'', TInt32, [TPtr False ''uint8_t'', TInt32]),
      (''seek'', TInt32, [TInt32, TUInt32]),
      (''setvirusname'', TUInt32, [TPtr True ''uint8_t'', TUInt32]),
      (''debug_print_str'', TUInt32, [TPtr True ''uint8_t'', TUInt32]),
      (''debug_print_uint'', TUInt32, [TUInt32]),
      (''disasm_x86'', TUInt32, [TPtr False ''struct DISASM_RESULT'', TUInt32]),
      (''trace_directory'', TUInt32, [TPtr True ''uint8_t'', TUInt32]),
      (''trace_scope'', TUInt32, [TPtr True ''uint8_t'', TUInt32]),
      (''trace_source'', TUInt32, [TPtr True ''uint8_t'', TUInt32]),
      (''trace_op'', TUInt32, [TPtr True ''uint8_t'', TUInt32]),
      (''trace_value'', TUInt32, [TPtr True ''uint8_t'', TUInt32]),
      (''trace_ptr'', TUInt32, [TPtr True ''uint8_t'', TUInt32]),
      (''pe_rawaddr'', TUInt32, [TUInt32]),
      (''file_find'', TInt32, [TPtr True ''uint8_t'', TUInt32]),
      (''file_byteat'', TInt32, [TUInt32]), (''malloc'', TVoidPtr, [TUInt32])]"

definition api_decls_2 :: "api_decl list" where
  "api_decls_2 =
     [(''test2'', TUInt32, [TUInt32]),
      (''get_pe_section'', TInt32, [TPtr False ''struct cli_exe_section'', TUInt32]),
      (''fill_buffer'', TInt32, [TPtr False ''uint8_t'', TUInt32, TUInt32, TUInt32, TUInt32]),
      (''extract_new'', TInt32, [TInt32]), (''read_number'', TInt32, [TUInt32]),
      (''hashset_new'', TInt32, []), (''hashset_add'', TInt32, [TInt32, TUInt32]),
      (''hashset_remove'', TInt32, [TInt32, TUInt32]),
      (''hashset_contains'', TInt32, [TInt32, TUInt32]), (''hashset_done'', TInt32, [TInt32]),
      (''hashset_empty'', TInt32, [TInt32]), (''buffer_pipe_new'', TInt32, [TUInt32]),
      (''buffer_pipe_new_fromfile'', TInt32, [TUInt32]),
      (''buffer_pipe_read_avail'', TUInt32, [TInt32])]"

definition api_decls_3 :: "api_decl list" where
  "api_decls_3 =
     [(''buffer_pipe_read_get'', TPtr True ''uint8_t'', [TInt32, TUInt32]),
      (''buffer_pipe_read_stopped'', TInt32, [TInt32, TUInt32]),
      (''buffer_pipe_write_avail'', TUInt32, [TInt32]),
      (''buffer_pipe_write_get'', TPtr False ''uint8_t'', [TInt32, TUInt32]),
      (''buffer_pipe_write_stopped'', TInt32, [TInt32, TUInt32]),
      (''buffer_pipe_done'', TInt32, [TInt32]),
      (''inflate_init'', TInt32, [TInt32, TInt32, TInt32]),
      (''inflate_process'', TInt32, [TInt32]), (''inflate_done'', TInt32, [TInt32]),
      (''bytecode_rt_error'', TInt32, [TInt32]), (''jsnorm_init'', TInt32, [TInt32]),
      (''jsnorm_process'', TInt32, [TInt32]), (''jsnorm_done'', TInt32, [TInt32])]"

definition api_decls_4 :: "api_decl list" where
  "api_decls_4 =
     [(''ilog2'', TInt32, [TUInt32, TUInt32]), (''ipow'', TInt32, [TInt32, TInt32, TInt32]),
      (''iexp'', TUInt32, [TInt32, TInt32, TInt32]),
      (''isin'', TInt32, [TInt32, TInt32, TInt32]), (''icos'', TInt32, [TInt32, TInt32, TInt32]),
      (''memstr'', TInt32, [TPtr True ''uint8_t'', TInt32, TPtr True ''uint8_t'', TInt32]),
      (''hex2ui'', TInt32, [TUInt32, TUInt32]),
      (''atoi'', TInt32, [TPtr True ''uint8_t'', TInt32]),
      (''debug_print_str_start'', TUInt32, [TPtr True ''uint8_t'', TUInt32]),
      (''debug_print_str_nonl'', TUInt32, [TPtr True ''uint8_t'', TUInt32]),
      (''entropy_buffer'', TUInt32, [TPtr False ''uint8_t'', TInt32]),
      (''map_new'', TInt32, [TInt32, TInt32]),
      (''map_addkey'', TInt32, [TPtr True ''uint8_t'', TInt32, TInt32])]"

definition api_decls_5 :: "api_decl list" where
  "api_decls_5 =
     [(''map_setvalue'', TInt32, [TPtr True ''uint8_t'', TInt32, TInt32]),
      (''map_remove'', TInt32, [TPtr True ''uint8_t'', TInt32, TInt32]),
      (''map_find'', TInt32, [TPtr True ''uint8_t'', TInt32, TInt32]),
      (''map_getvaluesize'', TInt32, [TInt32]),
      (''map_getvalue'', TPtr False ''uint8_t'', [TInt32, TInt32]),
      (''map_done'', TInt32, [TInt32]),
      (''file_find_limit'', TInt32, [TPtr True ''uint8_t'', TUInt32, TInt32]),
      (''engine_functionality_level'', TUInt32, []), (''engine_dconf_level'', TUInt32, []),
      (''engine_scan_options'', TUInt32, []), (''engine_db_options'', TUInt32, []),
      (''extract_set_container'', TInt32, [TUInt32]), (''input_switch'', TInt32, [TInt32])]"

definition api_decls_6 :: "api_decl list" where
  "api_decls_6 =
     [(''get_environment'', TUInt32, [TPtr False ''struct cli_environment'', TUInt32]),
      (''disable_bytecode_if'', TUInt32, [TPtr True ''int8_t'', TUInt32, TUInt32]),
      (''disable_jit_if'', TUInt32, [TPtr True ''int8_t'', TUInt32, TUInt32]),
      (''version_compare'', TInt32, [TPtr True ''uint8_t'', TUInt32, TPtr True ''uint8_t'', TUInt32]),
      (''check_platform'', TUInt32, [TUInt32, TUInt32, TUInt32]),
      (''pdf_get_obj_num'', TInt32, []), (''pdf_get_flags'', TInt32, []),
      (''pdf_set_flags'', TInt32, [TInt32]), (''pdf_lookupobj'', TInt32, [TUInt32]),
      (''pdf_getobjsize'', TUInt32, [TInt32]),
      (''pdf_getobj'', TPtr True ''uint8_t'', [TInt32, TUInt32]),
      (''pdf_getobjid'', TInt32, [TInt32]), (''pdf_getobjflags'', TInt32, [TInt32])]"

definition api_decls_7 :: "api_decl list" where
  "api_decls_7 =
     [(''pdf_setobjflags'', TInt32, [TInt32, TInt32]), (''pdf_get_offset'', TInt32, [TInt32]),
      (''pdf_get_phase'', TInt32, []), (''pdf_get_dumpedobjid'', TInt32, []),
      (''matchicon'', TInt32, [TPtr True ''uint8_t'', TInt32, TPtr True ''uint8_t'', TInt32]),
      (''running_on_jit'', TInt32, []), (''get_file_reliability'', TInt32, []),
      (''json_is_active'', TInt32, []),
      (''json_get_object'', TInt32, [TPtr True ''int8_t'', TInt32, TInt32]),
      (''json_get_type'', TInt32, [TInt32]), (''json_get_array_length'', TInt32, [TInt32]),
      (''json_get_array_idx'', TInt32, [TInt32, TInt32]),
      (''json_get_string_length'', TInt32, [TInt32])]"

definition api_decls_8 :: "api_decl list" where
  "api_decls_8 =
     [(''json_get_string'', TInt32, [TPtr False ''int8_t'', TInt32, TInt32]),
      (''json_get_boolean'', TInt32, [TInt32]), (''json_get_int'', TInt32, [TInt32]),
      (''engine_scan_options_ex'', TUInt32, [TPtr True ''uint8_t'', TUInt32]),
      (''lzma_init'', TInt32, [TInt32, TInt32]), (''lzma_process'', TInt32, [TInt32]),
      (''lzma_done'', TInt32, [TInt32]), (''bzip2_init'', TInt32, [TInt32, TInt32]),
      (''bzip2_process'', TInt32, [TInt32])]"

definition api_decls_9 :: "api_decl list" where
  "api_decls_9 =
     [(''bzip2_done'', TInt32, [TInt32])]"

definition api_decls :: "api_decl list" where
  "api_decls = api_decls_1 @ api_decls_2 @ api_decls_3 @ api_decls_4 @ api_decls_5 @ api_decls_6 @ api_decls_7 @ api_decls_8 @ api_decls_9"

section \<open>The compiler's copy of the declarations\<close>

definition lib_decls_1 :: "api_decl list" where
  "lib_decls_1 =
     [(''test1'', TUInt32, [TUInt32, TUInt32]),
      (''read'', TInt32, [TPtr False ''uint8_t'', TInt32]),
      (''write'', TInt32, [TPtr False ''uint8_t'', TInt32]),
      (''seek'', TInt32, [TInt32, TUInt32]),
      (''setvirusname'', TUInt32, [TPtr True ''uint8_t'', TUInt32]),
      (''debug_print_str'', TUInt32, [TPtr True ''uint8_t'', TUInt32]),
      (''debug_print_uint'', TUInt32, [TUInt32]),
      (''disasm_x86'', TUInt32, [TPtr False ''struct DISASM_RESULT'', TUInt32]),
      (''trace_directory'', TUInt32, [TPtr True ''uint8_t'', TUInt32]),
      (''trace_scope'', TUInt32, [TPtr True ''uint8_t'', TUInt32]),
      (''trace_source'', TUInt32, [TPtr True ''uint8_t'', TUInt32]),
      (''trace_op'', TUInt32, [TPtr True ''uint8_t'', TUInt32]),
      (''trace_value'', TUInt32, [TPtr True ''uint8_t'', TUInt32]),
      (''trace_ptr'', TUInt32, [TPtr True ''uint8_t'', TUInt32]),
      (''pe_rawaddr'', TUInt32, [TUInt32]),
      (''file_find'', TInt32, [TPtr True ''uint8_t'', TUInt32]),
      (''file_byteat'', TInt32, [TUInt32]), (''malloc'', TVoidPtr, [TUInt32])]"

definition lib_decls_2 :: "api_decl list" where
  "lib_decls_2 =
     [(''test2'', TUInt32, [TUInt32]),
      (''get_pe_section'', TInt32, [TPtr False ''struct cli_exe_section'', TUInt32]),
      (''fill_buffer'', TInt32, [TPtr False ''uint8_t'', TUInt32, TUInt32, TUInt32, TUInt32]),
      (''extract_new'', TInt32, [TInt32]), (''read_number'', TInt32, [TUInt32]),
      (''hashset_new'', TInt32, []), (''hashset_add'', TInt32, [TInt32, TUInt32]),
      (''hashset_remove'', TInt32, [TInt32, TUInt32]),
      (''hashset_contains'', TInt32, [TInt32, TUInt32]), (''hashset_done'', TInt32, [TInt32]),
      (''hashset_empty'', TInt32, [TInt32]), (''buffer_pipe_new'', TInt32, [TUInt32]),
      (''buffer_pipe_new_fromfile'', TInt32, [TUInt32]),
      (''buffer_pipe_read_avail'', TUInt32, [TInt32]),
      (''buffer_pipe_read_get'', TPtr True ''uint8_t'', [TInt32, TUInt32])]"

definition lib_decls_3 :: "api_decl list" where
  "lib_decls_3 =
     [(''buffer_pipe_read_stopped'', TInt32, [TInt32, TUInt32]),
      (''buffer_pipe_write_avail'', TUInt32, [TInt32]),
      (''buffer_pipe_write_get'', TPtr False ''uint8_t'', [TInt32, TUInt32]),
      (''buffer_pipe_write_stopped'', TInt32, [TInt32, TUInt32]),
      (''buffer_pipe_done'', TInt32, [TInt32]),
      (''inflate_init'', TInt32, [TInt32, TInt32, TInt32]),
      (''inflate_process'', TInt32, [TInt32]), (''inflate_done'', TInt32, [TInt32]),
      (''bytecode_rt_error'', TInt32, [TInt32]), (''jsnorm_init'', TInt32, [TInt32]),
      (''jsnorm_process'', TInt32, [TInt32]), (''jsnorm_done'', TInt32, [TInt32]),
      (''ilog2'', TInt32, [TUInt32, TUInt32])]"

definition lib_decls_4 :: "api_decl list" where
  "lib_decls_4 =
     [(''ipow'', TInt32, [TInt32, TInt32, TInt32]),
      (''iexp'', TUInt32, [TInt32, TInt32, TInt32]),
      (''isin'', TInt32, [TInt32, TInt32, TInt32]), (''icos'', TInt32, [TInt32, TInt32, TInt32]),
      (''memstr'', TInt32, [TPtr True ''uint8_t'', TInt32, TPtr True ''uint8_t'', TInt32]),
      (''hex2ui'', TInt32, [TUInt32, TUInt32]),
      (''atoi'', TInt32, [TPtr True ''uint8_t'', TInt32]),
      (''debug_print_str_start'', TUInt32, [TPtr True ''uint8_t'', TUInt32]),
      (''debug_print_str_nonl'', TUInt32, [TPtr True ''uint8_t'', TUInt32]),
      (''entropy_buffer'', TUInt32, [TPtr False ''uint8_t'', TInt32]),
      (''map_new'', TInt32, [TInt32, TInt32]),
      (''map_addkey'', TInt32, [TPtr True ''uint8_t'', TInt32, TInt32]),
      (''map_setvalue'', TInt32, [TPtr True ''uint8_t'', TInt32, TInt32])]"

definition lib_decls_5 :: "api_decl list" where
  "lib_decls_5 =
     [(''map_remove'', TInt32, [TPtr True ''uint8_t'', TInt32, TInt32]),
      (''map_find'', TInt32, [TPtr True ''uint8_t'', TInt32, TInt32]),
      (''map_getvaluesize'', TInt32, [TInt32]),
      (''map_getvalue'', TPtr False ''uint8_t'', [TInt32, TInt32]),
      (''map_done'', TInt32, [TInt32]),
      (''file_find_limit'', TInt32, [TPtr True ''uint8_t'', TUInt32, TInt32]),
      (''engine_functionality_level'', TUInt32, []), (''engine_dconf_level'', TUInt32, []),
      (''engine_scan_options'', TUInt32, []), (''engine_db_options'', TUInt32, []),
      (''extract_set_container'', TInt32, [TUInt32]), (''input_switch'', TInt32, [TInt32]),
      (''get_environment'', TUInt32, [TPtr False ''struct cli_environment'', TUInt32])]"

definition lib_decls_6 :: "api_decl list" where
  "lib_decls_6 =
     [(''disable_bytecode_if'', TUInt32, [TPtr True ''int8_t'', TUInt32, TUInt32]),
      (''disable_jit_if'', TUInt32, [TPtr True ''int8_t'', TUInt32, TUInt32]),
      (''version_compare'', TInt32, [TPtr True ''uint8_t'', TUInt32, TPtr True ''uint8_t'', TUInt32]),
      (''check_platform'', TUInt32, [TUInt32, TUInt32, TUInt32]),
      (''pdf_get_obj_num'', TInt32, []), (''pdf_get_flags'', TInt32, []),
      (''pdf_set_flags'', TInt32, [TInt32]), (''pdf_lookupobj'', TInt32, [TUInt32]),
      (''pdf_getobjsize'', TUInt32, [TInt32]),
      (''pdf_getobj'', TPtr True ''uint8_t'', [TInt32, TUInt32]),
      (''pdf_getobjid'', TInt32, [TInt32]), (''pdf_getobjflags'', TInt32, [TInt32]),
      (''pdf_setobjflags'', TInt32, [TInt32, TInt32]), (''pdf_get_offset'', TInt32, [TInt32])]"

definition lib_decls_7 :: "api_decl list" where
  "lib_decls_7 =
     [(''pdf_get_phase'', TInt32, []), (''pdf_get_dumpedobjid'', TInt32, []),
      (''matchicon'', TInt32, [TPtr True ''uint8_t'', TInt32, TPtr True ''uint8_t'', TInt32]),
      (''running_on_jit'', TInt32, []), (''get_file_reliability'', TInt32, []),
      (''json_is_active'', TInt32, []),
      (''json_get_object'', TInt32, [TPtr True ''int8_t'', TInt32, TInt32]),
      (''json_get_type'', TInt32, [TInt32]), (''json_get_array_length'', TInt32, [TInt32]),
      (''json_get_array_idx'', TInt32, [TInt32, TInt32]),
      (''json_get_string_length'', TInt32, [TInt32]),
      (''json_get_string'', TInt32, [TPtr False ''int8_t'', TInt32, TInt32]),
      (''json_get_boolean'', TInt32, [TInt32]), (''json_get_int'', TInt32, [TInt32])]"

definition lib_decls_8 :: "api_decl list" where
  "lib_decls_8 =
     [(''engine_scan_options_ex'', TUInt32, [TPtr True ''uint8_t'', TUInt32])]"

definition lib_decls :: "api_decl list" where
  "lib_decls = lib_decls_1 @ lib_decls_2 @ lib_decls_3 @ lib_decls_4 @ lib_decls_5 @ lib_decls_6 @ lib_decls_7 @ lib_decls_8"

section \<open>The engine's side, \<^verbatim>\<open>headers/bytecode_api_decl.c.h\<close>\<close>

text \<open>
  The prototypes of the implementing functions \<^verbatim>\<open>cli_bcapi_*\<close>, without their context
  argument.
\<close>

definition cli_bcapi :: "api_decl list" where
  "cli_bcapi =
     [(''test1'', TUInt32, [TUInt32, TUInt32]),
      (''read'', TInt32, [TPtr False ''uint8_t'', TInt32]),
      (''write'', TInt32, [TPtr False ''uint8_t'', TInt32]),
      (''seek'', TInt32, [TInt32, TUInt32]),
      (''setvirusname'', TUInt32, [TPtr True ''uint8_t'', TUInt32]),
      (''debug_print_str'', TUInt32, [TPtr True ''uint8_t'', TUInt32]),
      (''debug_print_uint'', TUInt32, [TUInt32]),
      (''disasm_x86'', TUInt32, [TPtr False ''struct DISASM_RESULT'', TUInt32]),
      (''trace_directory'', TUInt32, [TPtr True ''uint8_t'', TUInt32]),
      (''trace_scope'', TUInt32, [TPtr True ''uint8_t'', TUInt32]),
      (''trace_source'', TUInt32, [TPtr True ''uint8_t'', TUInt32]),
      (''trace_op'', TUInt32, [TPtr True ''uint8_t'', TUInt32]),
      (''trace_value'', TUInt32, [TPtr True ''uint8_t'', TUInt32]),
      (''trace_ptr'', TUInt32, [TPtr True ''uint8_t'', TUInt32]),
      (''pe_rawaddr'', TUInt32, [TUInt32]),
      (''file_find'', TInt32, [TPtr True ''uint8_t'', TUInt32]),
      (''file_byteat'', TInt32, [TUInt32]), (''malloc'', TPtr False ''uint8_t'', [TUInt32]),
      (''test2'', TUInt32, [TUInt32]),
      (''get_pe_section'', TInt32, [TPtr False ''struct cli_exe_section'', TUInt32]),
      (''fill_buffer'', TInt32, [TPtr False ''uint8_t'', TUInt32, TUInt32, TUInt32, TUInt32]),
      (''extract_new'', TInt32, [TInt32]), (''read_number'', TInt32, [TUInt32]),
      (''hashset_new'', TInt32, []), (''hashset_add'', TInt32, [TInt32, TUInt32]),
      (''hashset_remove'', TInt32, [TInt32, TUInt32]),
      (''hashset_contains'', TInt32, [TInt32, TUInt32]), (''hashset_done'', TInt32, [TInt32]),
      (''hashset_empty'', TInt32, [TInt32]), (''buffer_pipe_new'', TInt32, [TUInt32]),
      (''buffer_pipe_new_fromfile'', TInt32, [TUInt32]),
      (''buffer_pipe_read_avail'', TUInt32, [TInt32]),
      (''buffer_pipe_read_get'', TPtr True ''uint8_t'', [TInt32, TUInt32]),
      (''buffer_pipe_read_stopped'', TInt32, [TInt32, TUInt32]),
      (''buffer_pipe_write_avail'', TUInt32, [TInt32]),
      (''buffer_pipe_write_get'', TPtr False ''uint8_t'', [TInt32, TUInt32]),
      (''buffer_pipe_write_stopped'', TInt32, [TInt32, TUInt32]),
      (''buffer_pipe_done'', TInt32, [TInt32]),
      (''inflate_init'', TInt32, [TInt32, TInt32, TInt32]),
      (''inflate_process'', TInt32, [TInt32]), (''inflate_done'', TInt32, [TInt32]),
      (''bytecode_rt_error'', TInt32, [TInt32]), (''jsnorm_init'', TInt32, [TInt32]),
      (''jsnorm_process'', TInt32, [TInt32]), (''jsnorm_done'', TInt32, [TInt32]),
      (''ilog2'', TInt32, [TUInt32, TUInt32]), (''ipow'', TInt32, [TInt32, TInt32, TInt32]),
      (''iexp'', TUInt32, [TInt32, TInt32, TInt32]),
      (''isin'', TInt32, [TInt32, TInt32, TInt32]), (''icos'', TInt32, [TInt32, TInt32, TInt32]),
      (''memstr'', TInt32, [TPtr True ''uint8_t'', TInt32, TPtr True ''uint8_t'', TInt32]),
      (''hex2ui'', TInt32, [TUInt32, TUInt32]),
      (''atoi'', TInt32, [TPtr True ''uint8_t'', TInt32]),
      (''debug_print_str_start'', TUInt32, [TPtr True ''uint8_t'', TUInt32]),
      (''debug_print_str_nonl'', TUInt32, [TPtr True ''uint8_t'', TUInt32]),
      (''entropy_buffer'', TUInt32, [TPtr False ''uint8_t'', TInt32]),
      (''map_new'', TInt32, [TInt32, TInt32]),
      (''map_addkey'', TInt32, [TPtr True ''uint8_t'', TInt32, TInt32]),
      (''map_setvalue'', TInt32, [TPtr True ''uint8_t'', TInt32, TInt32]),
      (''map_remove'', TInt32, [TPtr True ''uint8_t'', TInt32, TInt32]),
      (''map_find'', TInt32, [TPtr True ''uint8_t'', TInt32, TInt32]),
      (''map_getvaluesize'', TInt32, [TInt32]),
      (''map_getvalue'', TPtr False ''uint8_t'', [TInt32, TInt32]),
      (''map_done'', TInt32, [TInt32]),
      (''file_find_limit'', TInt32, [TPtr True ''uint8_t'', TUInt32, TInt32]),
      (''engine_functionality_level'', TUInt32, []), (''engine_dconf_level'', TUInt32, []),
      (''engine_scan_options'', TUInt32, []), (''engine_db_options'', TUInt32, []),
      (''extract_set_container'', TInt32, [TUInt32]), (''input_switch'', TInt32, [TInt32]),
      (''get_environment'', TUInt32, [TPtr False ''struct cli_environment'', TUInt32]),
      (''disable_bytecode_if'', TUInt32, [TPtr True ''int8_t'', TUInt32, TUInt32]),
      (''disable_jit_if'', TUInt32, [TPtr True ''int8_t'', TUInt32, TUInt32]),
      (''version_compare'', TInt32, [TPtr True ''uint8_t'', TUInt32, TPtr True ''uint8_t'', TUInt32]),
      (''check_platform'', TUInt32, [TUInt32, TUInt32, TUInt32]),
      (''pdf_get_obj_num'', TInt32, []), (''pdf_get_flags'', TInt32, []),
      (''pdf_set_flags'', TInt32, [TInt32]), (''pdf_lookupobj'', TInt32, [TUInt32]),
      (''pdf_getobjsize'', TUInt32, [TInt32]),
      (''pdf_getobj'', TPtr True ''uint8_t'', [TInt32, TUInt32]),
      (''pdf_getobjid'', TInt32, [TInt32]), (''pdf_getobjflags'', TInt32, [TInt32]),
      (''pdf_setobjflags'', TInt32, [TInt32, TInt32]), (''pdf_get_offset'', TInt32, [TInt32]),
      (''pdf_get_phase'', TInt32, []), (''pdf_get_dumpedobjid'', TInt32, []),
      (''matchicon'', TInt32, [TPtr True ''uint8_t'', TInt32, TPtr True ''uint8_t'', TInt32]),
      (''running_on_jit'', TInt32, []), (''get_file_reliability'', TInt32, []),
      (''json_is_active'', TInt32, []),
      (''json_get_object'', TInt32, [TPtr True ''int8_t'', TInt32, TInt32]),
      (''json_get_type'', TInt32, [TInt32]), (''json_get_array_length'', TInt32, [TInt32]),
      (''json_get_array_idx'', TInt32, [TInt32, TInt32]),
      (''json_get_string_length'', TInt32, [TInt32]),
      (''json_get_string'', TInt32, [TPtr False ''int8_t'', TInt32, TInt32]),
      (''json_get_boolean'', TInt32, [TInt32]), (''json_get_int'', TInt32, [TInt32]),
      (''engine_scan_options_ex'', TUInt32, [TPtr True ''uint8_t'', TUInt32]),
      (''lzma_init'', TInt32, [TInt32, TInt32]), (''lzma_process'', TInt32, [TInt32]),
      (''lzma_done'', TInt32, [TInt32]), (''bzip2_init'', TInt32, [TInt32, TInt32]),
      (''bzip2_process'', TInt32, [TInt32]), (''bzip2_done'', TInt32, [TInt32])]"

text \<open>A global's name, its number in \<^verbatim>\<open>enum bc_global\<close> and its type id.\<close>

definition cli_globals :: "(string \<times> string \<times> nat) list" where
  "cli_globals =
     [(''__clambc_match_offsets'', ''GLOBAL_MATCH_OFFSETS'', 76),
      (''__clambc_kind'', ''GLOBAL_KIND'', 16),
      (''__clambc_match_counts'', ''GLOBAL_MATCH_COUNTS'', 76),
      (''__clambc_filesize'', ''GLOBAL_FILESIZE'', 75),
      (''__clambc_pedata'', ''GLOBAL_PEDATA'', 69), (''test1'', ''9'', 0), (''read'', ''10'', 0),
      (''write'', ''10'', 1), (''seek'', ''9'', 1), (''setvirusname'', ''10'', 2),
      (''debug_print_str'', ''10'', 3), (''debug_print_uint'', ''8'', 0),
      (''disasm_x86'', ''25'', 4), (''trace_directory'', ''10'', 5),
      (''trace_scope'', ''10'', 6), (''trace_source'', ''10'', 7), (''trace_op'', ''10'', 8),
      (''trace_value'', ''10'', 9), (''trace_ptr'', ''10'', 10), (''pe_rawaddr'', ''8'', 1),
      (''file_find'', ''10'', 11), (''file_byteat'', ''8'', 2), (''malloc'', ''24'', 0),
      (''test2'', ''8'', 3), (''get_pe_section'', ''21'', 12), (''fill_buffer'', ''20'', 0),
      (''extract_new'', ''8'', 4), (''read_number'', ''8'', 5), (''hashset_new'', ''12'', 0),
      (''hashset_add'', ''9'', 2), (''hashset_remove'', ''9'', 3),
      (''hashset_contains'', ''9'', 4), (''hashset_done'', ''8'', 6),
      (''hashset_empty'', ''8'', 7), (''buffer_pipe_new'', ''8'', 8),
      (''buffer_pipe_new_fromfile'', ''8'', 9), (''buffer_pipe_read_avail'', ''8'', 10),
      (''buffer_pipe_read_get'', ''14'', 0), (''buffer_pipe_read_stopped'', ''9'', 5),
      (''buffer_pipe_write_avail'', ''8'', 11), (''buffer_pipe_write_get'', ''14'', 1),
      (''buffer_pipe_write_stopped'', ''9'', 6), (''buffer_pipe_done'', ''8'', 12),
      (''inflate_init'', ''15'', 0), (''inflate_process'', ''8'', 13),
      (''inflate_done'', ''8'', 14), (''bytecode_rt_error'', ''8'', 15),
      (''jsnorm_init'', ''8'', 16), (''jsnorm_process'', ''8'', 17),
      (''jsnorm_done'', ''8'', 18), (''ilog2'', ''9'', 7), (''ipow'', ''15'', 1),
      (''iexp'', ''15'', 2), (''isin'', ''15'', 3), (''icos'', ''15'', 4),
      (''memstr'', ''13'', 0), (''hex2ui'', ''9'', 8), (''atoi'', ''10'', 13),
      (''debug_print_str_start'', ''10'', 14), (''debug_print_str_nonl'', ''10'', 15),
      (''entropy_buffer'', ''10'', 16), (''map_new'', ''9'', 9), (''map_addkey'', ''11'', 0),
      (''map_setvalue'', ''11'', 1), (''map_remove'', ''11'', 2), (''map_find'', ''11'', 3),
      (''map_getvaluesize'', ''8'', 19), (''map_getvalue'', ''14'', 2),
      (''map_done'', ''8'', 20), (''file_find_limit'', ''11'', 4),
      (''engine_functionality_level'', ''12'', 1), (''engine_dconf_level'', ''12'', 2),
      (''engine_scan_options'', ''12'', 3), (''engine_db_options'', ''12'', 4),
      (''extract_set_container'', ''8'', 21), (''input_switch'', ''8'', 22),
      (''get_environment'', ''16'', 17), (''disable_bytecode_if'', ''11'', 5),
      (''disable_jit_if'', ''11'', 6), (''version_compare'', ''13'', 1),
      (''check_platform'', ''15'', 5), (''pdf_get_obj_num'', ''12'', 5),
      (''pdf_get_flags'', ''12'', 6), (''pdf_set_flags'', ''8'', 23),
      (''pdf_lookupobj'', ''8'', 24), (''pdf_getobjsize'', ''8'', 25),
      (''pdf_getobj'', ''14'', 3), (''pdf_getobjid'', ''8'', 26),
      (''pdf_getobjflags'', ''8'', 27), (''pdf_setobjflags'', ''9'', 10),
      (''pdf_get_offset'', ''8'', 28), (''pdf_get_phase'', ''12'', 7),
      (''pdf_get_dumpedobjid'', ''12'', 8), (''matchicon'', ''13'', 2),
      (''running_on_jit'', ''12'', 9), (''get_file_reliability'', ''12'', 10),
      (''json_is_active'', ''12'', 11), (''json_get_object'', ''11'', 7),
      (''json_get_type'', ''8'', 29), (''json_get_array_length'', ''8'', 30),
      (''json_get_array_idx'', ''9'', 11), (''json_get_string_length'', ''8'', 31),
      (''json_get_string'', ''11'', 8), (''json_get_boolean'', ''8'', 32),
      (''json_get_int'', ''8'', 33), (''engine_scan_options_ex'', ''10'', 18),
      (''lzma_init'', ''9'', 12), (''lzma_process'', ''8'', 34), (''lzma_done'', ''8'', 35),
      (''bzip2_init'', ''9'', 13), (''bzip2_process'', ''8'', 36), (''bzip2_done'', ''8'', 37)]"

datatype type_kind = DFunctionType | DPointerType | DStructType | DArrayType

text \<open>
  \<^verbatim>\<open>cli_apicall_types\<close> with the arrays \<^verbatim>\<open>cli_tmp0\<close> to
  \<^verbatim>\<open>cli_tmp30\<close> of contained type ids in place, and the element count.
\<close>

definition cli_apicall_types :: "(type_kind \<times> nat list \<times> nat) list" where
  "cli_apicall_types =
     [(DStructType, [32, 32, 16, 16, 74, 73, 70, 32, 72, 70, 70, 32, 32, 32, 32], 15),
      (DArrayType, [71], 16), (DStructType, [32, 32], 2),
      (DStructType, [16, 8, 8, 32, 32, 32, 32, 32, 64, 32, 32, 16, 16, 16, 16, 16, 16, 32, 32, 32, 32, 16, 16, 64, 64, 64, 64, 32, 32], 29),
      (DStructType, [16, 8, 8, 32, 32, 32, 32, 32, 32, 32, 32, 32, 16, 16, 16, 16, 16, 16, 32, 32, 32, 32, 16, 16, 32, 32, 32, 32, 32, 32], 30),
      (DStructType, [32, 16, 16, 32, 32, 32, 16, 16], 8), (DArrayType, [32], 1),
      (DArrayType, [32], 64), (DFunctionType, [32, 32], 2), (DFunctionType, [32, 32, 32], 3),
      (DFunctionType, [32, 65, 32], 3), (DFunctionType, [32, 65, 32, 32], 4),
      (DFunctionType, [32], 1), (DFunctionType, [32, 65, 32, 65, 32], 5),
      (DFunctionType, [65, 32, 32], 3), (DFunctionType, [32, 32, 32, 32], 4),
      (DFunctionType, [32, 86, 32], 3), (DPointerType, [87], 1),
      (DStructType, [32, 32, 32, 32, 32, 32, 32, 88, 88, 88, 88, 88, 88, 88, 8, 8, 8, 8, 8, 8, 8, 8, 8], 23),
      (DArrayType, [8], 65), (DFunctionType, [32, 65, 32, 32, 32, 32], 6),
      (DFunctionType, [32, 91, 32], 3), (DPointerType, [92], 1),
      (DStructType, [32, 32, 32, 32, 32, 32, 32, 32, 32], 9), (DFunctionType, [65, 32], 2),
      (DFunctionType, [32, 95, 32], 3), (DPointerType, [96], 1),
      (DStructType, [16, 8, 8, 8, 98, 97], 6), (DArrayType, [8], 29), (DArrayType, [99], 3),
      (DArrayType, [8], 10)]"

text \<open>An API call: its name, its type, its index in the table of its kind, and its kind.\<close>

definition cli_apicalls :: "(string \<times> nat \<times> nat \<times> nat) list" where
  "cli_apicalls =
     [(''test1'', 9, 0, 0), (''read'', 10, 0, 1), (''write'', 10, 1, 1), (''seek'', 9, 1, 0),
      (''setvirusname'', 10, 2, 1), (''debug_print_str'', 10, 3, 1),
      (''debug_print_uint'', 8, 0, 2), (''disasm_x86'', 25, 4, 1),
      (''trace_directory'', 10, 5, 1), (''trace_scope'', 10, 6, 1), (''trace_source'', 10, 7, 1),
      (''trace_op'', 10, 8, 1), (''trace_value'', 10, 9, 1), (''trace_ptr'', 10, 10, 1),
      (''pe_rawaddr'', 8, 1, 2), (''file_find'', 10, 11, 1), (''file_byteat'', 8, 2, 2),
      (''malloc'', 24, 0, 3), (''test2'', 8, 3, 2), (''get_pe_section'', 21, 12, 1),
      (''fill_buffer'', 20, 0, 4), (''extract_new'', 8, 4, 2), (''read_number'', 8, 5, 2),
      (''hashset_new'', 12, 0, 5), (''hashset_add'', 9, 2, 0), (''hashset_remove'', 9, 3, 0),
      (''hashset_contains'', 9, 4, 0), (''hashset_done'', 8, 6, 2), (''hashset_empty'', 8, 7, 2),
      (''buffer_pipe_new'', 8, 8, 2), (''buffer_pipe_new_fromfile'', 8, 9, 2),
      (''buffer_pipe_read_avail'', 8, 10, 2), (''buffer_pipe_read_get'', 14, 0, 6),
      (''buffer_pipe_read_stopped'', 9, 5, 0), (''buffer_pipe_write_avail'', 8, 11, 2),
      (''buffer_pipe_write_get'', 14, 1, 6), (''buffer_pipe_write_stopped'', 9, 6, 0),
      (''buffer_pipe_done'', 8, 12, 2), (''inflate_init'', 15, 0, 7),
      (''inflate_process'', 8, 13, 2), (''inflate_done'', 8, 14, 2),
      (''bytecode_rt_error'', 8, 15, 2), (''jsnorm_init'', 8, 16, 2),
      (''jsnorm_process'', 8, 17, 2), (''jsnorm_done'', 8, 18, 2), (''ilog2'', 9, 7, 0),
      (''ipow'', 15, 1, 7), (''iexp'', 15, 2, 7), (''isin'', 15, 3, 7), (''icos'', 15, 4, 7),
      (''memstr'', 13, 0, 8), (''hex2ui'', 9, 8, 0), (''atoi'', 10, 13, 1),
      (''debug_print_str_start'', 10, 14, 1), (''debug_print_str_nonl'', 10, 15, 1),
      (''entropy_buffer'', 10, 16, 1), (''map_new'', 9, 9, 0), (''map_addkey'', 11, 0, 9),
      (''map_setvalue'', 11, 1, 9), (''map_remove'', 11, 2, 9), (''map_find'', 11, 3, 9),
      (''map_getvaluesize'', 8, 19, 2), (''map_getvalue'', 14, 2, 6), (''map_done'', 8, 20, 2),
      (''file_find_limit'', 11, 4, 9), (''engine_functionality_level'', 12, 1, 5),
      (''engine_dconf_level'', 12, 2, 5), (''engine_scan_options'', 12, 3, 5),
      (''engine_db_options'', 12, 4, 5), (''extract_set_container'', 8, 21, 2),
      (''input_switch'', 8, 22, 2), (''get_environment'', 16, 17, 1),
      (''disable_bytecode_if'', 11, 5, 9), (''disable_jit_if'', 11, 6, 9),
      (''version_compare'', 13, 1, 8), (''check_platform'', 15, 5, 7),
      (''pdf_get_obj_num'', 12, 5, 5), (''pdf_get_flags'', 12, 6, 5),
      (''pdf_set_flags'', 8, 23, 2), (''pdf_lookupobj'', 8, 24, 2),
      (''pdf_getobjsize'', 8, 25, 2), (''pdf_getobj'', 14, 3, 6), (''pdf_getobjid'', 8, 26, 2),
      (''pdf_getobjflags'', 8, 27, 2), (''pdf_setobjflags'', 9, 10, 0),
      (''pdf_get_offset'', 8, 28, 2), (''pdf_get_phase'', 12, 7, 5),
      (''pdf_get_dumpedobjid'', 12, 8, 5), (''matchicon'', 13, 2, 8),
      (''running_on_jit'', 12, 9, 5), (''get_file_reliability'', 12, 10, 5),
      (''json_is_active'', 12, 11, 5), (''json_get_object'', 11, 7, 9),
      (''json_get_type'', 8, 29, 2), (''json_get_array_length'', 8, 30, 2),
      (''json_get_array_idx'', 9, 11, 0), (''json_get_string_length'', 8, 31, 2),
      (''json_get_string'', 11, 8, 9), (''json_get_boolean'', 8, 32, 2),
      (''json_get_int'', 8, 33, 2), (''engine_scan_options_ex'', 10, 18, 1),
      (''lzma_init'', 9, 12, 0), (''lzma_process'', 8, 34, 2), (''lzma_done'', 8, 35, 2),
      (''bzip2_init'', 9, 13, 0), (''bzip2_process'', 8, 36, 2), (''bzip2_done'', 8, 37, 2)]"

text \<open>
  The tables of functions, one per kind of signature; an entry \<^verbatim>\<open>cli_bcapi_x\<close> is
  given as \<open>x\<close>.
\<close>

definition cli_apicalls0 :: "string list" where
  "cli_apicalls0 =
     [''test1'', ''seek'', ''hashset_add'', ''hashset_remove'', ''hashset_contains'',
      ''buffer_pipe_read_stopped'', ''buffer_pipe_write_stopped'', ''ilog2'', ''hex2ui'',
      ''map_new'', ''pdf_setobjflags'', ''json_get_array_idx'', ''lzma_init'', ''bzip2_init'']"

definition cli_apicalls1 :: "string list" where
  "cli_apicalls1 =
     [''read'', ''write'', ''setvirusname'', ''debug_print_str'', ''disasm_x86'',
      ''trace_directory'', ''trace_scope'', ''trace_source'', ''trace_op'', ''trace_value'',
      ''trace_ptr'', ''file_find'', ''get_pe_section'', ''atoi'', ''debug_print_str_start'',
      ''debug_print_str_nonl'', ''entropy_buffer'', ''get_environment'',
      ''engine_scan_options_ex'']"

definition cli_apicalls2 :: "string list" where
  "cli_apicalls2 =
     [''debug_print_uint'', ''pe_rawaddr'', ''file_byteat'', ''test2'', ''extract_new'',
      ''read_number'', ''hashset_done'', ''hashset_empty'', ''buffer_pipe_new'',
      ''buffer_pipe_new_fromfile'', ''buffer_pipe_read_avail'', ''buffer_pipe_write_avail'',
      ''buffer_pipe_done'', ''inflate_process'', ''inflate_done'', ''bytecode_rt_error'',
      ''jsnorm_init'', ''jsnorm_process'', ''jsnorm_done'', ''map_getvaluesize'', ''map_done'',
      ''extract_set_container'', ''input_switch'', ''pdf_set_flags'', ''pdf_lookupobj'',
      ''pdf_getobjsize'', ''pdf_getobjid'', ''pdf_getobjflags'', ''pdf_get_offset'',
      ''json_get_type'', ''json_get_array_length'', ''json_get_string_length'',
      ''json_get_boolean'', ''json_get_int'', ''lzma_process'', ''lzma_done'', ''bzip2_process'',
      ''bzip2_done'']"

definition cli_apicalls3 :: "string list" where
  "cli_apicalls3 =
     [''malloc'']"

definition cli_apicalls4 :: "string list" where
  "cli_apicalls4 =
     [''fill_buffer'']"

definition cli_apicalls5 :: "string list" where
  "cli_apicalls5 =
     [''hashset_new'', ''engine_functionality_level'', ''engine_dconf_level'',
      ''engine_scan_options'', ''engine_db_options'', ''pdf_get_obj_num'', ''pdf_get_flags'',
      ''pdf_get_phase'', ''pdf_get_dumpedobjid'', ''running_on_jit'', ''get_file_reliability'',
      ''json_is_active'']"

definition cli_apicalls6 :: "string list" where
  "cli_apicalls6 =
     [''buffer_pipe_read_get'', ''buffer_pipe_write_get'', ''map_getvalue'', ''pdf_getobj'']"

definition cli_apicalls7 :: "string list" where
  "cli_apicalls7 =
     [''inflate_init'', ''ipow'', ''iexp'', ''isin'', ''icos'', ''check_platform'']"

definition cli_apicalls8 :: "string list" where
  "cli_apicalls8 =
     [''memstr'', ''version_compare'', ''matchicon'']"

definition cli_apicalls9 :: "string list" where
  "cli_apicalls9 =
     [''map_addkey'', ''map_setvalue'', ''map_remove'', ''map_find'', ''file_find_limit'',
      ''disable_bytecode_if'', ''disable_jit_if'', ''json_get_object'', ''json_get_string'']"

definition apicall_tables :: "string list list" where
  "apicall_tables =
     [cli_apicalls0, cli_apicalls1, cli_apicalls2, cli_apicalls3, cli_apicalls4, 
      cli_apicalls5, cli_apicalls6, cli_apicalls7, cli_apicalls8, cli_apicalls9]"

section \<open>Type ids\<close>

text \<open>
  Ids below \<open>BC_START_TID\<close> are fixed: \<open>n\<close> up to 64 is the integer of \<open>n\<close> bits, 65 is
  a pointer to bytes. From there on an id is an index into \<open>cli_apicall_types\<close>.
\<close>

definition type_of_id :: "nat \<Rightarrow> (type_kind \<times> nat list \<times> nat) option" where
  "type_of_id i = (if i < BC_START_TID then None else nth_opt cli_apicall_types (i - BC_START_TID))"

text \<open>The struct a pointer id points to.\<close>

definition pointee :: "nat \<Rightarrow> nat option" where
  "pointee i = (case type_of_id i of Some (DPointerType, [t], _) \<Rightarrow> Some t | _ \<Rightarrow> None)"

text \<open>Size and alignment of a type; the fuel is the nesting depth, which is at most 4.\<close>

fun layout :: "nat \<Rightarrow> nat \<Rightarrow> nat \<times> nat" where
  "layout 0 i = (0, 1)"
| "layout (Suc n) i =
     (if i \<le> 64 then (i div 8, i div 8)
      else case type_of_id i of
        None \<Rightarrow> (8, 8)
      | Some (DPointerType, _) \<Rightarrow> (8, 8)
      | Some (DFunctionType, _) \<Rightarrow> (0, 1)
      | Some (DArrayType, ts, k) \<Rightarrow> (case layout n (hd ts) of (s, a) \<Rightarrow> (k * s, a))
      | Some (DStructType, ts, k) \<Rightarrow>
          (let fs = map (layout n) ts in (sizeof_fields fs, fold max (map snd fs) 1)))"

definition struct_fields :: "nat \<Rightarrow> (nat \<times> nat) list option" where
  "struct_fields i = (case type_of_id i of Some (DStructType, ts, k) \<Rightarrow>
     if k = length ts then Some (map (layout 4) ts) else None | _ \<Rightarrow> None)"

text \<open>What the table calls each struct that the API passes by reference.\<close>

definition struct_pointer_id :: "string \<Rightarrow> nat" where
  "struct_pointer_id s =
     (if s = ''struct cli_environment'' then 86
      else if s = ''struct cli_exe_section'' then 91
      else if s = ''struct DISASM_RESULT'' then 95 else 0)"

fun lower :: "ctype \<Rightarrow> nat" where
  "lower TInt32 = 32"
| "lower TUInt32 = 32"
| "lower TVoidPtr = 65"
| "lower (TPtr _ s) = (if s = ''uint8_t'' \<or> s = ''int8_t'' then 65 else struct_pointer_id s)"

section \<open>Agreement\<close>

text \<open>
  An entry of \<^verbatim>\<open>cli_apicalls\<close> serves a declaration when it has its name, its type is
  the function type of the lowered declaration, and the table of its kind has the
  implementing function at its index.
\<close>

definition serves :: "api_decl \<Rightarrow> string \<times> nat \<times> nat \<times> nat \<Rightarrow> bool" where
  "serves d c = (case d of (name, r, args) \<Rightarrow> case c of (cname, ty, idx, kind) \<Rightarrow>
     cname = name
     \<and> nth_opt cli_apicall_types ty = Some (DFunctionType, lower r # map lower args, Suc (length args))
     \<and> (case nth_opt apicall_tables kind of None \<Rightarrow> False | Some t \<Rightarrow> nth_opt t idx = Some name))"

text \<open>\<^verbatim>\<open>malloc\<close> returns \<^verbatim>\<open>void*\<close> to a bytecode and \<^verbatim>\<open>uint8_t*\<close> in the engine.\<close>

fun engine_type :: "ctype \<Rightarrow> ctype" where
  "engine_type TVoidPtr = TPtr False ''uint8_t''"
| "engine_type t = t"

definition implements :: "api_decl \<Rightarrow> api_decl \<Rightarrow> bool" where
  "implements d i = (case d of (name, r, args) \<Rightarrow> i = (name, engine_type r, map engine_type args))"

text \<open>
  C32: the engine's tables serve the declared API. There are as many table entries and
  implementing functions as declarations; entry by entry, in the order of the header, the
  call has the declaration's name, the function type with the lowered result and parameter
  types, a valid index into the table of its kind where the function of that name stands,
  and the implementing function has the declared types.
\<close>

theorem api_table_serves_header:
  "list_all2 serves api_decls cli_apicalls \<and> list_all2 implements api_decls cli_bcapi"
  by code_simp

text \<open>
  No two API calls share a slot of the dispatch tables and every slot is used: the pairs
  of kind and index in \<^verbatim>\<open>cli_apicalls\<close> are distinct, each names a slot, and there are as
  many as slots. A call number therefore reaches one function, and each function has one
  number.
\<close>

theorem api_dispatch_bijective:
  "distinct (map (\<lambda>(_, _, idx, kind). (kind, idx)) cli_apicalls)
     \<and> set (map (\<lambda>(_, _, idx, kind). (kind, idx)) cli_apicalls)
         = {(k, i). k < length apicall_tables \<and> i < length (apicall_tables ! k)}"
proof -
  let ?used = "map (\<lambda>(_, _, idx, kind). (kind, idx)) cli_apicalls"
  let ?slots = "concat (map (\<lambda>k. map (Pair k) [0..<length (apicall_tables ! k)]) [0..<length apicall_tables])"
  have dist: "distinct ?used" by code_simp
  have sub: "list_all (\<lambda>x. x \<in> set ?slots) ?used" by code_simp
  have len: "length ?slots \<le> length ?used" by code_simp
  have "card (set ?slots) \<le> length ?slots" by (rule card_length)
  also have "\<dots> \<le> card (set ?used)" by (simp only: len distinct_card[OF dist])
  finally have "card (set ?slots) \<le> card (set ?used)" .
  moreover have "set ?used \<subseteq> set ?slots" using sub unfolding list_all_iff by blast
  ultimately have "set ?used = set ?slots" by (intro card_seteq) simp_all
  also have "\<dots> = {(k, i). k < length apicall_tables \<and> i < length (apicall_tables ! k)}" by auto
  finally show ?thesis using dist by blast
qed

section \<open>The two copies of the header\<close>

text \<open>
  the compiler's copy of \<^verbatim>\<open>bytecode_api.h\<close> declares the same functions with the
  same types in the same order as the installed header, up to the six decompression
  functions that the installed header adds at the end. Numbers assigned by position in
  either header agree.
\<close>

theorem api_header_copies_agree:
  "api_decls = lib_decls @
     [(''lzma_init'', TInt32, [TInt32, TInt32]), (''lzma_process'', TInt32, [TInt32]),
      (''lzma_done'', TInt32, [TInt32]), (''bzip2_init'', TInt32, [TInt32, TInt32]),
      (''bzip2_process'', TInt32, [TInt32]), (''bzip2_done'', TInt32, [TInt32])]"
  by code_simp

section \<open>Structures in the type table\<close>

text \<open>
  Size and alignment of the members of \<^verbatim>\<open>struct cli_pe_hook_data\<close> and of
  \<^verbatim>\<open>struct cli_environment\<close>.
\<close>

definition pe_hook_data_fields :: "(nat \<times> nat) list" where
  "pe_hook_data_fields = [(4, 4), (4, 4), (2, 2), (2, 2),
     (sizeof_fields pe_image_file_hdr_fields, 4), (sizeof_fields pe_image_optional_hdr32_fields, 4),
     (16 * sizeof_fields pe_image_data_dir_fields, 4), (4, 4),
     (sizeof_fields pe_image_optional_hdr64_fields, 8),
     (16 * sizeof_fields pe_image_data_dir_fields, 4),
     (16 * sizeof_fields pe_image_data_dir_fields, 4), (4, 4), (4, 4), (4, 4), (4, 4)]"

definition environment_fields :: "(nat \<times> nat) list" where
  "environment_fields = replicate 7 (4, 4) @ replicate 7 (65, 1) @ replicate 9 (1, 1)"

text \<open>
  C33: the structures the API passes by reference and the PE data have in the engine's type
  table the layout that the headers give them, member by member.
\<close>

theorem api_struct_layouts:
  "struct_fields 69 = Some pe_hook_data_fields
   \<and> struct_fields 71 = Some pe_image_data_dir_fields
   \<and> struct_fields 72 = Some pe_image_optional_hdr64_fields
   \<and> struct_fields 73 = Some pe_image_optional_hdr32_fields
   \<and> struct_fields 74 = Some pe_image_file_hdr_fields
   \<and> map_option struct_fields (pointee 86) = Some (Some environment_fields)
   \<and> map_option struct_fields (pointee 91) = Some (Some cli_exe_section_fields)
   \<and> map_option (map_option (map fst) \<circ> struct_fields) (pointee 95) = Some (Some (map snd DISASM_RESULT))"
  by code_simp

text \<open>
  The declared type of a global as a type id: the scalar \<^verbatim>\<open>__clambc_kind\<close>, the arrays of
  32-bit integers and the PE data.
\<close>

definition declared_globals :: "(string \<times> nat \<times> nat) list" where
  "declared_globals = [(''__clambc_match_counts'', 4, 64), (''__clambc_match_offsets'', 4, 64),
     (''__clambc_pedata'', sizeof_fields pe_hook_data_fields, 1), (''__clambc_filesize'', 4, 1),
     (''__clambc_kind'', 2, 1)]"

text \<open>
  each global the header declares has an entry in \<^verbatim>\<open>cli_globals\<close>, with a number that
  \<^verbatim>\<open>enum bc_global\<close> defines and a type id whose size is that of the declared object.
\<close>

theorem api_globals_sizes:
  "list_all (\<lambda>(name, size, n). list_ex (\<lambda>(name', g, i). name' = name
     \<and> enum_value bc_global g \<noteq> None \<and> fst (layout 5 i) = n * size) cli_globals) declared_globals"
  by code_simp

end
