(* ===== verification/BC_Analysis.thy ===== *)
theory BC_Analysis
  imports BC_IR BC_ApiTable "HOL-Library.Multiset"
begin

text \<open>
  The analysis that numbers what the writer prints: \<^verbatim>\<open>ClamBCAnalysis::run\<close> and its
  helpers of \<^verbatim>\<open>libclambcc/ClamBCAnalyzer.cpp\<close>, \<^verbatim>\<open>ClamBCAnalyzer.h\<close> and
  \<^verbatim>\<open>ClamBCCommon.h\<close>. Types get ids, functions get numbers in a fixed order, the API
  functions a bytecode calls get the numbers of the engine's table, and global variables get
  ids. The theorems say that the type ids are a consistent and closed numbering, which is what
  the assertions of the writer require, that the entry point is function 1, and that the API
  numbers are positions in the engine's table.
\<close>

section \<open>State\<close>

text \<open>
  The members of \<^verbatim>\<open>ClamBCAnalysis\<close> with the two local variables of \<^verbatim>\<open>run\<close> that
  grow with them: the next type id and the worklist of types, whose end is the head of
  \<open>types\<close>. Functions and globals are identified by their names.
\<close>

record analysis =
  an_kind :: nat
  an_copyright :: string
  an_logicalSignature :: string
  an_virusnames :: string
  startTID :: nat
  tid :: nat
  typeIDs :: "ty \<rightharpoonup> nat"
  extraTypes :: "ty list"
  types :: "ty list"
  functionIDs :: "string \<rightharpoonup> nat"
  nextFid :: nat
  apiCalls :: "string \<rightharpoonup> nat"
  apis :: "mfunction list"
  maxApi :: nat
  globals :: "string \<rightharpoonup> nat"
  nextGlobal :: nat
  maxGlobal :: nat
  globalInits :: "konst option list"

section \<open>API and global numbers\<close>

text \<open>\<^verbatim>\<open>populateAPIMap\<close>: the names in the order of their assignments.\<close>

definition apiMap_names :: "string list" where
  "apiMap_names =
     [''test1'', ''read'', ''write'', ''seek'', ''setvirusname'', ''debug_print_str'',
      ''debug_print_uint'', ''disasm_x86'', ''trace_directory'', ''trace_scope'',
      ''trace_source'', ''trace_op'', ''trace_value'', ''trace_ptr'', ''pe_rawaddr'',
      ''file_find'', ''file_byteat'', ''malloc'', ''test2'', ''get_pe_section'', ''fill_buffer'',
      ''extract_new'', ''read_number'', ''hashset_new'', ''hashset_add'', ''hashset_remove'',
      ''hashset_contains'', ''hashset_done'', ''hashset_empty'', ''buffer_pipe_new'',
      ''buffer_pipe_new_fromfile'', ''buffer_pipe_read_avail'', ''buffer_pipe_read_get'',
      ''buffer_pipe_read_stopped'', ''buffer_pipe_write_avail'', ''buffer_pipe_write_get'',
      ''buffer_pipe_write_stopped'', ''buffer_pipe_done'', ''inflate_init'', ''inflate_process'',
      ''inflate_done'', ''bytecode_rt_error'', ''jsnorm_init'', ''jsnorm_process'',
      ''jsnorm_done'', ''ilog2'', ''ipow'', ''iexp'', ''isin'', ''icos'', ''memstr'', ''hex2ui'',
      ''atoi'', ''debug_print_str_start'', ''debug_print_str_nonl'', ''entropy_buffer'',
      ''map_new'', ''map_addkey'', ''map_setvalue'', ''map_remove'', ''map_find'',
      ''map_getvaluesize'', ''map_getvalue'', ''map_done'', ''file_find_limit'',
      ''engine_functionality_level'', ''engine_dconf_level'', ''engine_scan_options'',
      ''engine_db_options'', ''extract_set_container'', ''input_switch'', ''get_environment'',
      ''disable_bytecode_if'', ''disable_jit_if'', ''version_compare'', ''check_platform'',
      ''pdf_get_obj_num'', ''pdf_get_flags'', ''pdf_set_flags'', ''pdf_lookupobj'',
      ''pdf_getobjsize'', ''pdf_getobj'', ''pdf_getobjid'', ''pdf_getobjflags'',
      ''pdf_setobjflags'', ''pdf_get_offset'', ''pdf_get_phase'', ''pdf_get_dumpedobjid'',
      ''matchicon'', ''running_on_jit'', ''get_file_reliability'', ''json_is_active'',
      ''json_get_object'', ''json_get_type'', ''json_get_array_length'', ''json_get_array_idx'',
      ''json_get_string_length'', ''json_get_string'', ''json_get_boolean'', ''json_get_int'',
      ''engine_scan_options_ex'', ''lzma_init'', ''lzma_process'', ''lzma_done'', ''bzip2_init'',
      ''bzip2_process'', ''bzip2_done'']"

definition populateAPIMap :: "string \<rightharpoonup> nat" where
  "populateAPIMap = fst (fold (\<lambda>name (m, id). (m(name \<mapsto> id), id + 1)) apiMap_names (Map.empty, 1))"

definition globalsMap :: "(string \<times> nat) list" where
  "globalsMap = map (\<lambda>(name, g). (name, case enum_value bc_global g of Some v \<Rightarrow> nat v | None \<Rightarrow> 0))
     [(''__clambc_match_counts'', ''GLOBAL_MATCH_COUNTS''),
      (''__clambc_virusnames'', ''GLOBAL_VIRUSNAMES''), (''__clambc_pedata'', ''GLOBAL_PEDATA''),
      (''__clambc_filesize'', ''GLOBAL_FILESIZE''),
      (''__clambc_match_offsets'', ''GLOBAL_MATCH_OFFSETS'')]"

section \<open>Type ids\<close>

definition initTypeIDs :: "(ty \<rightharpoonup> nat) \<times> nat" where
  "initTypeIDs = (let m = [VoidTy \<mapsto> 0];
       m = fold (\<lambda>n m. m(IntTy n \<mapsto> n)) [1..<65] m
     in (m(PtrTy (IntTy 8) \<mapsto> 65, PtrTy (IntTy 16) \<mapsto> 66, PtrTy (IntTy 32) \<mapsto> 67,
           PtrTy (IntTy 64) \<mapsto> 68), 69))"

text \<open>Arrays of 1 to 7 bytes, used for the padding of structures.\<close>

definition add_padding_type :: "nat \<Rightarrow> analysis \<Rightarrow> analysis" where
  "add_padding_type n a = (let t = ArrayTy n (IntTy 8)
     in a\<lparr>typeIDs := (typeIDs a)(t \<mapsto> tid a), tid := tid a + 1, extraTypes := extraTypes a @ [t]\<rparr>)"

text \<open>A type without id gets the next one, and goes to the worklist.\<close>

definition add_type :: "ty \<Rightarrow> analysis \<Rightarrow> analysis" where
  "add_type t a = (if typeIDs a t \<noteq> None then a
     else a\<lparr>typeIDs := (typeIDs a)(t \<mapsto> tid a), tid := tid a + 1,
            extraTypes := extraTypes a @ [t], types := t # types a\<rparr>)"

definition collect_global_types :: "bmodule \<Rightarrow> analysis \<Rightarrow> analysis" where
  "collect_global_types m a = fold (\<lambda>g. add_type (gv_ty g)) (m_globals m) a"

text \<open>The types of one instruction: a debug intrinsic has none.\<close>

definition collect_inst_types :: "inst \<Rightarrow> analysis \<Rightarrow> analysis" where
  "collect_inst_types i a =
     (if inst_kind i = DbgIntrinsic then a
      else let t = (case inst_kind i of Alloca t' _ \<Rightarrow> t' | _ \<Rightarrow> inst_ty i);
               a = (case inst_kind i of GetElementPtr p _ \<Rightarrow> add_type (val_ty p) a | _ \<Rightarrow> a);
               a = fold add_type (operand_types (inst_kind i)) a
           in add_type t a)"

fun isVarArgTy :: "ty \<Rightarrow> bool" where
  "isVarArgTy (FunTy r ts v) = v"
| "isVarArgTy _ = False"

fun numParams :: "ty \<Rightarrow> nat" where
  "numParams (FunTy r ts v) = length ts"
| "numParams _ = 0"

definition collect_function :: "mfunction \<Rightarrow> analysis \<Rightarrow> wr_error + analysis" where
  "collect_function f a =
     (if mf_isDeclaration f then
        if take 8 (mf_name f) = ''llvm.dbg'' then Inr a
        else if isVarArgTy (mf_ty f) then
          if numParams (mf_ty f) = 0
          then Inl (Stop ''Calling implicitly declared function is not supported'')
          else Inl (Stop ''Vararg functions are not supported'')
        else Inr (add_type (mf_ty f) a)
      else
        let a = a\<lparr>functionIDs := (functionIDs a)(mf_name f \<mapsto> nextFid a), nextFid := nextFid a + 1\<rparr>;
            a = fold add_type (f_args (mf_body f)) a
        in Inr (fold collect_inst_types (f_insts (mf_body f)) a))"

text \<open>One round of the worklist: the types that \<open>t\<close> contains.\<close>

definition add_subtype :: "ty \<Rightarrow> ty \<Rightarrow> analysis \<Rightarrow> wr_error + analysis" where
  "add_subtype t s a =
     (if isOpaque s then
        if isPointerTy t then Inr a
        else Inl (Stop ''Bytecode cannot use abstract types (only pointers to them)!'')
      else Inr (add_type s a))"

definition weight :: "ty list \<Rightarrow> nat" where
  "weight ts = (\<Sum>t\<leftarrow>ts. Suc (size t))"

lemma weight_add_type: "weight (types (add_type t a)) \<le> weight (types a) + Suc (size t)"
  by (simp add: add_type_def weight_def)

lemma weight_add_subtypes:
  "fold_err (add_subtype t) ss a = Inr a' \<Longrightarrow> weight (types a') \<le> weight (types a) + weight ss"
proof (induction ss arbitrary: a)
  case (Cons s ss)
  then obtain a1 where a1: "add_subtype t s a = Inr a1" and r: "fold_err (add_subtype t) ss a1 = Inr a'"
    by (auto elim: and_then_InrE)
  have "weight (types a1) \<le> weight (types a) + Suc (size s)"
    using a1 weight_add_type[of s a] by (auto simp: add_subtype_def split: if_splits)
  with Cons.IH[OF r] show ?case by (simp add: weight_def)
qed (simp add: weight_def)

function close_types :: "analysis \<Rightarrow> wr_error + analysis" where
  "close_types a = (case types a of [] \<Rightarrow> Inr a
     | t # ts \<Rightarrow> (case fold_err (add_subtype t) (subtypes t) (a\<lparr>types := ts\<rparr>) of
          Inl e \<Rightarrow> Inl e | Inr a' \<Rightarrow> close_types a'))"
  by pat_completeness auto
termination
proof (relation "measure (\<lambda>a. weight (types a))")
  fix a t ts a'
  assume "types a = t # ts" and r: "fold_err (add_subtype t) (subtypes t) (a\<lparr>types := ts\<rparr>) = Inr a'"
  then show "(a', a) \<in> measure (\<lambda>a. weight (types a))"
    using weight_add_subtypes[OF r] sum_subtypes[of t] by (simp add: weight_def)
qed simp

declare close_types.simps [simp del]

section \<open>Function order\<close>

text \<open>\<^verbatim>\<open>~0u\<close> stands for a function that is not special.\<close>

definition getSpecialIndex :: "string \<Rightarrow> uint32_t" where
  "getSpecialIndex name = (if name = ''entrypoint'' then 0
     else if name = ''logical_trigger'' then 1 else 0xFFFFFFFF)"

text \<open>\<^verbatim>\<open>StringRef::compare\<close> below 0: the order of the bytes, then of the lengths.\<close>

fun name_less :: "string \<Rightarrow> string \<Rightarrow> bool" where
  "name_less xs [] = False"
| "name_less [] (y # ys) = True"
| "name_less (x # xs) (y # ys) =
     (if (of_char x :: nat) < of_char y then True
      else if (of_char y :: nat) < of_char x then False else name_less xs ys)"

definition compare_lt_functions :: "mfunction \<Rightarrow> mfunction \<Rightarrow> bool" where
  "compare_lt_functions A B =
     (let na = getSpecialIndex (mf_name A); nb = getSpecialIndex (mf_name B)
      in if na \<noteq> 0xFFFFFFFF \<or> nb \<noteq> 0xFFFFFFFF then na < nb
         else let pa = numParams (mf_ty A); pb = numParams (mf_ty B)
              in if pa \<noteq> pb then pa < pb else name_less (mf_name A) (mf_name B))"

text \<open>\<^verbatim>\<open>std::sort\<close> with this comparison, as an insertion sort.\<close>

fun insert_function :: "mfunction \<Rightarrow> mfunction list \<Rightarrow> mfunction list" where
  "insert_function f [] = [f]"
| "insert_function f (g # gs) =
     (if compare_lt_functions g f then g # insert_function f gs else f # g # gs)"

definition sort_functions :: "mfunction list \<Rightarrow> mfunction list" where
  "sort_functions fs = foldr insert_function fs []"

section \<open>Used functions and global variables\<close>

text \<open>No function is banned: the constructor leaves \<^verbatim>\<open>banMap\<close> empty.\<close>

definition banMap :: "string \<rightharpoonup> nat" where
  "banMap = Map.empty"

definition record_api :: "mfunction \<Rightarrow> analysis \<Rightarrow> wr_error + analysis" where
  "record_api f a =
     (if mf_unused f then Inr a
      else if \<not> mf_isDeclaration f then
        if populateAPIMap (mf_name f) \<noteq> None
        then Inl (Stop ''Attempted to declare function that is part of ClamAV API'') else Inr a
      else if banMap (mf_name f) \<noteq> None then Inl (Stop ''Usage of function is currently disabled'')
      else if take 5 (mf_name f) = ''llvm.'' then Inr a
      else if mf_name f = ''__is_bigendian'' \<or> mf_name f = ''memcmp'' \<or> mf_name f = ''abort'' then Inr a
      else case populateAPIMap (mf_name f) of
        None \<Rightarrow> Inl (Stop ''Call to unknown external function'')
      | Some n \<Rightarrow> Inr (a\<lparr>apiCalls := (apiCalls a)(mf_name f \<mapsto> n), apis := apis a @ [f],
                       maxApi := (if maxApi a < n then n else maxApi a)\<rparr>))"

definition find_global :: "bmodule \<Rightarrow> string \<Rightarrow> gvar option" where
  "find_global m name = find (\<lambda>g. gv_name g = name) (m_globals m)"

definition special_global :: "bmodule \<Rightarrow> string \<times> nat \<Rightarrow> analysis \<Rightarrow> analysis" where
  "special_global m p a = (case p of (name, n) \<Rightarrow> case find_global m name of None \<Rightarrow> a
     | Some g \<Rightarrow> a\<lparr>globals := (globals a)(gv_name g \<mapsto> n),
                  maxGlobal := (if maxGlobal a < n then n else maxGlobal a)\<rparr>)"

definition specialGlobals :: "string set" where
  "specialGlobals = insert ''__clambc_kind'' (fst ` set globalsMap)"

definition record_global :: "gvar \<Rightarrow> analysis \<Rightarrow> wr_error + analysis" where
  "record_global g a =
     (if gv_name g \<in> specialGlobals then Inr a
      else if \<not> gv_isConstant g then Inl (Stop ''Attempting to declare non-constant global variable'')
      else case gv_init g of
        None \<Rightarrow> Inl (Stop ''Attempting to declare a global variable without initializer'')
      | Some c \<Rightarrow>
          if gv_threadLocal g then Inl (Stop ''Attempting to declare thread local global variable'')
          else if gv_hasSection g then Inl (Stop ''Attempting to declare section for global variable'')
          else if gv_initUnused g then Inr a
          else let a' = a\<lparr>globalInits := globalInits a @ [Some c],
                    globals := (globals a)(gv_name g \<mapsto> nextGlobal a), nextGlobal := nextGlobal a + 1\<rparr>
               in if 32768 \<le> nextGlobal a'
                  then Inl (Stop ''Attempted to use more than 32k global variables!'') else Inr a')"

definition printGlobals_analysis :: "bmodule \<Rightarrow> mfunction list \<Rightarrow> analysis \<Rightarrow> wr_error + analysis" where
  "printGlobals_analysis m fs a =
     and_then (fold_err record_api fs (a\<lparr>maxApi := 0\<rparr>)) (\<lambda>a.
     let a = fold (special_global m) globalsMap (a\<lparr>nextGlobal := 1, maxGlobal := 0\<rparr>);
         a = a\<lparr>globalInits := globalInits a @ [None]\<rparr>
     in fold_err record_global (m_globals m) a)"

section \<open>The analysis\<close>

definition bytecode_kind :: "bmodule \<Rightarrow> wr_error + nat" where
  "bytecode_kind m = (case find_global m ''__clambc_kind'' of None \<Rightarrow> Inr 0
     | Some g \<Rightarrow> (case gv_init g of None \<Rightarrow> Inr 0
         | Some (KInt w v) \<Rightarrow> if 65536 \<le> v then Inl (Stop ''Bytecode kind cannot be higher than 64k'') else Inr v
         | Some _ \<Rightarrow> Inl (Failed ''cast<ConstantInt>'')))"

text \<open>
  \<open>strinfo\<close> is LLVM's \<^verbatim>\<open>getConstantStringInfo\<close>: the string a constant holds.
\<close>

definition copyright_string :: "(konst \<Rightarrow> string option) \<Rightarrow> bmodule \<Rightarrow> wr_error + string" where
  "copyright_string strinfo m = (case find_global m ''__Copyright'' of None \<Rightarrow> Inr []
     | Some g \<Rightarrow> (case gv_init g of None \<Rightarrow> Inr []
         | Some c \<Rightarrow> (case strinfo c of None \<Rightarrow> Inl (Stop ''Failed to extract copyright string'')
             | Some s \<Rightarrow> Inr s)))"

definition initial_analysis :: "bmodule \<Rightarrow> nat \<Rightarrow> string \<Rightarrow> analysis" where
  "initial_analysis m k c = (case initTypeIDs of (ids, n) \<Rightarrow>
     fold add_padding_type [1..<8]
     \<lparr>an_kind = k, an_copyright = c, an_logicalSignature = m_logicalSignature m,
      an_virusnames = m_virusnames m, startTID = n, tid = n, typeIDs = ids, extraTypes = [],
      types = [], functionIDs = Map.empty, nextFid = 1, apiCalls = Map.empty, apis = [],
      maxApi = 0, globals = Map.empty, nextGlobal = 1, maxGlobal = 0, globalInits = []\<rparr>)"

definition check_entrypoint :: "mfunction list \<Rightarrow> wr_error + unit" where
  "check_entrypoint fs = (case find (\<lambda>f. mf_name f = ''entrypoint'') fs of
     None \<Rightarrow> Inl (Stop ''Bytecode must define an entrypoint (with 0 parameters)!'')
   | Some ep \<Rightarrow> if numParams (mf_ty ep) \<noteq> 0
       then Inl (Stop ''Bytecode must define an entrypoint with 0 parameters!'') else Inr ())"

definition assign_types :: "bmodule \<Rightarrow> mfunction list \<Rightarrow> analysis \<Rightarrow> wr_error + analysis" where
  "assign_types m fs a =
     and_then (fold_err collect_function fs (collect_global_types m a)) (\<lambda>a.
     and_then (close_types a) (\<lambda>a.
     if 65536 \<le> tid a then Inl (Stop ''Attempted to use more than 64k types'') else Inr a))"

text \<open>
  \<^verbatim>\<open>ClamBCAnalysis::run\<close>. The module is the one after the helper globals for constant
  expressions were added to it; the result has the functions in their new order too.
\<close>

definition run_analysis :: "(konst \<Rightarrow> string option) \<Rightarrow> bmodule \<Rightarrow> wr_error + analysis \<times> mfunction list" where
  "run_analysis strinfo m =
     and_then (bytecode_kind m) (\<lambda>k.
     and_then (copyright_string strinfo m) (\<lambda>c.
     let fs = sort_functions (m_functions m) in
     and_then (check_entrypoint fs) (\<lambda>_.
     and_then (assign_types m fs (initial_analysis m k c)) (\<lambda>a.
     and_then (printGlobals_analysis m fs a) (\<lambda>a. Inr (a, fs))))))"

section \<open>The invariant of type ids\<close>

text \<open>
  Extra types are numbered from \<open>startTID\<close> in the order of the list, ids below it are fixed,
  and a type has an id from exactly one of the two.
\<close>

definition extra_ids :: "nat \<Rightarrow> ty list \<Rightarrow> ty \<rightharpoonup> nat" where
  "extra_ids n ts = map_of (zip ts [n..<n + length ts])"

definition numbered :: "analysis \<Rightarrow> bool" where
  "numbered a \<longleftrightarrow> startTID a = snd initTypeIDs \<and> tid a = startTID a + length (extraTypes a)
     \<and> distinct (extraTypes a) \<and> set (extraTypes a) \<inter> dom (fst initTypeIDs) = {}
     \<and> typeIDs a = fst initTypeIDs ++ extra_ids (startTID a) (extraTypes a)"

lemma dom_extra_ids [simp]: "dom (extra_ids n ts) = set ts"
  by (simp add: extra_ids_def)

lemma extra_ids_snoc: "t \<notin> set ts \<Longrightarrow> extra_ids n (ts @ [t]) = (extra_ids n ts)(t \<mapsto> n + length ts)"
proof -
  assume t: "t \<notin> set ts"
  have "extra_ids n (ts @ [t]) = [t \<mapsto> n + length ts] ++ extra_ids n ts" by (simp add: extra_ids_def)
  also have "\<dots> = extra_ids n ts ++ [t \<mapsto> n + length ts]" by (rule map_add_comm) (simp add: t)
  finally show ?thesis by simp
qed

lemma extra_ids_nth: "distinct ts \<Longrightarrow> i < length ts \<Longrightarrow> extra_ids n ts (ts ! i) = Some (n + i)"
  by (simp add: extra_ids_def map_of_zip_nth)

lemma dom_numbered: "numbered a \<Longrightarrow> dom (typeIDs a) = dom (fst initTypeIDs) \<union> set (extraTypes a)"
  by (auto simp: numbered_def)

lemma numbered_extend:
  assumes "numbered a" and "t \<notin> dom (typeIDs a)"
    and "typeIDs b = (typeIDs a)(t \<mapsto> tid a)" "tid b = tid a + 1" "extraTypes b = extraTypes a @ [t]"
    and "startTID b = startTID a"
  shows "numbered b"
proof -
  have "t \<notin> set (extraTypes a)" "t \<notin> dom (fst initTypeIDs)" using assms(2) dom_numbered[OF assms(1)] by auto
  with assms show ?thesis unfolding numbered_def by (auto simp: extra_ids_snoc)
qed

lemma numbered_add_type: "numbered a \<Longrightarrow> numbered (add_type t a)"
  using numbered_extend[of a t "add_type t a"] by (simp add: add_type_def domIff)

text \<open>
  Every type with an id is still to be processed or all its parts have ids, where a pointer
  may point to an opaque type that has none.
\<close>

definition parts_known :: "analysis \<Rightarrow> ty \<Rightarrow> bool" where
  "parts_known a t \<longleftrightarrow> (\<forall>s\<in>set (subtypes t). s \<in> dom (typeIDs a) \<or> isOpaque s \<and> isPointerTy t)"

definition closed_but :: "ty set \<Rightarrow> analysis \<Rightarrow> bool" where
  "closed_but ex a \<longleftrightarrow> (\<forall>t\<in>dom (typeIDs a). t \<in> ex \<or> t \<in> set (types a) \<or> parts_known a t)"

lemma parts_known_mono:
  "parts_known a t \<Longrightarrow> dom (typeIDs a) \<subseteq> dom (typeIDs b) \<Longrightarrow> parts_known b t"
  by (auto simp: parts_known_def)

lemma closed_but_add_type: "closed_but ex a \<Longrightarrow> closed_but ex (add_type t a)"
  by (auto simp: closed_but_def parts_known_def add_type_def)

lemma dom_add_type: "dom (typeIDs (add_type t a)) = insert t (dom (typeIDs a))"
  by (auto simp: add_type_def)

text \<open>Both together, for every operation that only adds types.\<close>

definition type_inv :: "ty set \<Rightarrow> analysis \<Rightarrow> bool" where
  "type_inv ex a \<longleftrightarrow> numbered a \<and> closed_but ex a"

lemma type_inv_add_type [intro]: "type_inv ex a \<Longrightarrow> type_inv ex (add_type t a)"
  by (simp add: type_inv_def numbered_add_type closed_but_add_type)

lemma type_inv_fold:
  assumes "\<And>x a. type_inv ex a \<Longrightarrow> type_inv ex (f x a)" and "type_inv ex a"
  shows "type_inv ex (fold f xs a)"
  using assms(2) by (induction xs arbitrary: a) (auto intro: assms(1))

lemma type_inv_inst: "type_inv ex a \<Longrightarrow> type_inv ex (collect_inst_types i a)"
  by (auto simp: collect_inst_types_def Let_def intro!: type_inv_fold split: kind.splits)

lemma type_inv_functionIDs [simp]:
  "type_inv ex (a\<lparr>functionIDs := x, nextFid := y\<rparr>) = type_inv ex a"
  by (simp add: type_inv_def numbered_def closed_but_def parts_known_def)

lemma type_inv_function: "type_inv ex a \<Longrightarrow> collect_function f a = Inr a' \<Longrightarrow> type_inv ex a'"
  by (auto simp: collect_function_def Let_def intro!: type_inv_fold type_inv_inst split: if_splits)

lemma add_subtype_inv:
  assumes "type_inv ex a" and "add_subtype t s a = Inr a'"
  shows "type_inv ex a' \<and> dom (typeIDs a) \<subseteq> dom (typeIDs a')
     \<and> (s \<in> dom (typeIDs a') \<or> isOpaque s \<and> isPointerTy t)"
proof (cases "isOpaque s")
  case True
  with assms show ?thesis by (simp add: add_subtype_def split: if_splits)
next
  case False
  with assms have a': "a' = add_type s a" by (simp add: add_subtype_def)
  with assms(1) show ?thesis by (simp add: dom_add_type subset_insertI type_inv_add_type)
qed

lemma add_subtypes_inv:
  assumes "type_inv ex a" and "fold_err (add_subtype t) ss a = Inr a'"
  shows "type_inv ex a' \<and> dom (typeIDs a) \<subseteq> dom (typeIDs a')
     \<and> (\<forall>s\<in>set ss. s \<in> dom (typeIDs a') \<or> isOpaque s \<and> isPointerTy t)"
  using assms
proof (induction ss arbitrary: a)
  case (Cons s ss)
  then obtain a1 where s: "add_subtype t s a = Inr a1" and r: "fold_err (add_subtype t) ss a1 = Inr a'"
    by (auto elim: and_then_InrE)
  note S = add_subtype_inv[OF Cons.prems(1) s]
  from S have "type_inv ex a1" by simp
  from Cons.IH[OF this r] S show ?case by (simp only: set_simps ball_simps) blast
qed simp

lemma close_types_inv: "close_types a = Inr a' \<Longrightarrow> type_inv {} a \<Longrightarrow> type_inv {} a' \<and> types a' = []"
proof (induction a rule: close_types.induct)
  case (1 a)
  show ?case
  proof (cases "types a")
    case Nil
    with 1 show ?thesis by (simp add: close_types.simps)
  next
    case (Cons t ts)
    then obtain a1 where r: "fold_err (add_subtype t) (subtypes t) (a\<lparr>types := ts\<rparr>) = Inr a1"
        and c: "close_types a1 = Inr a'"
      using 1(2) by (auto simp: close_types.simps[of a] split: sum.splits)
    have "numbered (a\<lparr>types := ts\<rparr>)" using 1(3) by (simp add: type_inv_def numbered_def)
    moreover have "closed_but {t} (a\<lparr>types := ts\<rparr>)"
      using 1(3) Cons unfolding type_inv_def closed_but_def parts_known_def by simp
    ultimately have "type_inv {t} (a\<lparr>types := ts\<rparr>)" by (simp add: type_inv_def)
    from add_subtypes_inv[OF this r] have "type_inv {t} a1" and "parts_known a1 t"
      by (simp_all add: parts_known_def)
    then have "type_inv {} a1" by (auto simp: type_inv_def closed_but_def)
    with 1(1)[OF Cons r c] show ?thesis .
  qed
qed

section \<open>The initial ids\<close>

lemma fold_int_ids:
  "fold (\<lambda>n m. m(IntTy n \<mapsto> n)) ns m t =
     (case t of IntTy k \<Rightarrow> if k \<in> set ns then Some k else m t | _ \<Rightarrow> m t)"
  by (induction ns arbitrary: m) (auto split: ty.splits)

lemma initTypeIDs_value:
  "fst initTypeIDs t = (case t of VoidTy \<Rightarrow> Some 0
     | IntTy k \<Rightarrow> if 1 \<le> k \<and> k \<le> 64 then Some k else None
     | PtrTy (IntTy k) \<Rightarrow> if k = 8 then Some 65 else if k = 16 then Some 66
         else if k = 32 then Some 67 else if k = 64 then Some 68 else None
     | _ \<Rightarrow> None)"
  by (auto simp: initTypeIDs_def Let_def fold_int_ids split: ty.splits)

lemma snd_initTypeIDs: "snd initTypeIDs = 69"
  by (simp add: initTypeIDs_def Let_def)

lemma initTypeIDs_less: "fst initTypeIDs t = Some n \<Longrightarrow> n < 69"
  by (auto simp: initTypeIDs_value split: ty.splits if_splits)

lemma initTypeIDs_inj: "fst initTypeIDs t = Some n \<Longrightarrow> fst initTypeIDs u = Some n \<Longrightarrow> t = u"
  by (auto simp: initTypeIDs_value split: ty.splits if_splits)

lemma init_parts: "t \<in> dom (fst initTypeIDs) \<Longrightarrow> set (subtypes t) \<subseteq> dom (fst initTypeIDs)"
  by (auto simp: initTypeIDs_value split: ty.splits if_splits)

lemma dom_add_padding:
  "dom (typeIDs (add_padding_type n a)) = insert (ArrayTy n (IntTy 8)) (dom (typeIDs a))"
  by (simp add: add_padding_type_def Let_def)

lemma type_inv_padding:
  assumes "type_inv {} a" and "ArrayTy n (IntTy 8) \<notin> dom (typeIDs a)"
  shows "type_inv {} (add_padding_type n a)"
proof -
  let ?b = "add_padding_type n a"
  have num: "numbered a" using assms(1) by (simp add: type_inv_def)
  have "IntTy 8 \<in> dom (typeIDs a)" by (simp add: dom_numbered[OF num] domIff initTypeIDs_value)
  moreover have ty: "types ?b = types a" by (simp add: add_padding_type_def Let_def)
  ultimately have "closed_but {} ?b"
    using assms(1) unfolding type_inv_def closed_but_def parts_known_def dom_add_padding ty
    by simp blast
  moreover have "numbered ?b"
    by (rule numbered_extend[OF num assms(2)]) (simp_all add: add_padding_type_def Let_def)
  ultimately show ?thesis by (simp add: type_inv_def)
qed

lemma padding_inv:
  assumes "type_inv {} a" and "dom (typeIDs a) = dom (fst initTypeIDs)"
  shows "type_inv {} (fold add_padding_type [1..<Suc n] a)
     \<and> dom (typeIDs (fold add_padding_type [1..<Suc n] a))
         = dom (fst initTypeIDs) \<union> (\<lambda>k. ArrayTy k (IntTy 8)) ` {1..n}"
proof (induction n)
  case (Suc n)
  let ?a = "fold add_padding_type [1..<Suc n] a"
  have "ArrayTy k u \<notin> dom (fst initTypeIDs)" for k u by (simp add: domIff initTypeIDs_value)
  with Suc have "ArrayTy (Suc n) (IntTy 8) \<notin> dom (typeIDs ?a)" by auto
  with Suc have "type_inv {} (add_padding_type (Suc n) ?a)" using type_inv_padding by blast
  moreover have "fold add_padding_type [1..<Suc (Suc n)] a = add_padding_type (Suc n) ?a" by simp
  moreover have "dom (typeIDs (add_padding_type (Suc n) ?a))
      = dom (fst initTypeIDs) \<union> (\<lambda>k. ArrayTy k (IntTy 8)) ` {1..Suc n}"
    unfolding dom_add_padding using Suc by (simp add: atLeastAtMostSuc_conv)
  ultimately show ?case by simp
qed (use assms in simp)

lemma initial_type_inv: "type_inv {} (initial_analysis m k c)"
proof -
  obtain ids n where i: "initTypeIDs = (ids, n)" by fastforce
  define a where "a = \<lparr>an_kind = k, an_copyright = c, an_logicalSignature = m_logicalSignature m,
      an_virusnames = m_virusnames m, startTID = n, tid = n, typeIDs = ids, extraTypes = [],
      types = [], functionIDs = Map.empty, nextFid = 1, apiCalls = Map.empty, apis = [],
      maxApi = 0, globals = Map.empty, nextGlobal = 1, maxGlobal = 0, globalInits = []\<rparr>"
  have "numbered a" by (simp add: numbered_def a_def i extra_ids_def)
  moreover have "closed_but {} a"
    using init_parts by (auto simp: closed_but_def parts_known_def a_def i)
  ultimately have "type_inv {} a" by (simp add: type_inv_def)
  from padding_inv[OF this, of 7] show ?thesis
    by (simp add: initial_analysis_def i a_def[symmetric] del: upt_Suc) (simp add: a_def)
qed

section \<open>Type ids of a module\<close>

text \<open>The second half of the analysis leaves the types alone.\<close>

definition same_types :: "analysis \<Rightarrow> analysis \<Rightarrow> bool" where
  "same_types a b \<longleftrightarrow> typeIDs b = typeIDs a \<and> extraTypes b = extraTypes a \<and> startTID b = startTID a
     \<and> tid b = tid a \<and> types b = types a \<and> functionIDs b = functionIDs a"

lemma same_types_trans: "same_types a b \<Longrightarrow> same_types b c \<Longrightarrow> same_types a c"
  by (simp add: same_types_def)

lemma same_types_inv: "same_types a b \<Longrightarrow> type_inv ex b = type_inv ex a"
  by (simp add: same_types_def type_inv_def numbered_def closed_but_def parts_known_def)

lemma same_types_fold_err:
  assumes "\<And>x s s'. f x s = Inr s' \<Longrightarrow> same_types s s'" and "fold_err f xs a = Inr b"
  shows "same_types a b"
  using assms(2)
  by (rule fold_err_invariant[where P = "same_types a", rotated 2])
    (auto dest: assms(1) intro: same_types_trans simp: same_types_def)

lemma record_api_types: "record_api f a = Inr b \<Longrightarrow> same_types a b"
  by (auto simp: record_api_def same_types_def split: if_splits option.splits)

lemma record_global_types: "record_global g a = Inr b \<Longrightarrow> same_types a b"
  by (auto simp: record_global_def same_types_def Let_def split: if_splits option.splits)

lemma special_global_types: "same_types a (fold (special_global m) gs a)"
proof (induction gs arbitrary: a)
  case (Cons g gs)
  have "same_types a (special_global m g a)"
    by (simp add: special_global_def same_types_def split: prod.splits option.splits)
  with Cons show ?case by (auto intro: same_types_trans)
qed (simp add: same_types_def)

lemma printGlobals_types:
  assumes "printGlobals_analysis m fs a = Inr b"
  shows "same_types a b"
proof -
  from assms obtain a1 where 1: "fold_err record_api fs (a\<lparr>maxApi := 0\<rparr>) = Inr a1"
    and 2: "fold_err record_global (m_globals m)
      ((fold (special_global m) globalsMap (a1\<lparr>nextGlobal := 1, maxGlobal := 0\<rparr>))\<lparr>globalInits :=
        globalInits (fold (special_global m) globalsMap (a1\<lparr>nextGlobal := 1, maxGlobal := 0\<rparr>)) @ [None]\<rparr>) = Inr b"
    by (auto simp: printGlobals_analysis_def Let_def elim!: and_then_InrE)
  have "same_types a a1" using same_types_fold_err[OF record_api_types 1] by (simp add: same_types_def)
  moreover have "same_types a1 b"
    using same_types_fold_err[OF record_global_types 2]
      special_global_types[of "a1\<lparr>nextGlobal := 1, maxGlobal := 0\<rparr>" m globalsMap]
    by (simp add: same_types_def)
  ultimately show ?thesis by (rule same_types_trans)
qed

lemma assign_types_inv:
  assumes "assign_types m fs (initial_analysis m k c) = Inr a"
  shows "type_inv {} a \<and> types a = [] \<and> tid a < 65536"
proof -
  from assms obtain a1 a2 where
    1: "fold_err collect_function fs (collect_global_types m (initial_analysis m k c)) = Inr a1"
    and 2: "close_types a1 = Inr a2" and 3: "tid a2 < 65536" "a = a2"
    by (auto simp: assign_types_def elim!: and_then_InrE split: if_splits)
  have "type_inv {} (collect_global_types m (initial_analysis m k c))"
    unfolding collect_global_types_def by (rule type_inv_fold[OF _ initial_type_inv]) blast
  then have "type_inv {} a1"
    using 1 by (rule fold_err_invariant[where P = "type_inv {}", rotated]) (rule type_inv_function)
  with close_types_inv[OF 2] 3 show ?thesis by simp
qed

lemma numbered_inj:
  assumes "numbered a" and "typeIDs a t = Some n" and "typeIDs a u = Some n"
  shows "t = u"
proof -
  have new: "v = extraTypes a ! (n - 69) \<and> 69 \<le> n" if v: "typeIDs a v = Some n" "v \<in> set (extraTypes a)" for v
  proof -
    obtain i where "i < length (extraTypes a)" "v = extraTypes a ! i" using v(2) by (auto simp: in_set_conv_nth)
    with assms(1) v(1) show ?thesis
      by (auto simp: numbered_def snd_initTypeIDs map_add_Some_iff extra_ids_nth)
  qed
  have old: "fst initTypeIDs v = Some n" if v: "typeIDs a v = Some n" "v \<notin> set (extraTypes a)" for v
  proof -
    have "extra_ids (startTID a) (extraTypes a) v = None" using v(2) by (metis dom_extra_ids domIff)
    with assms(1) v(1) show ?thesis by (auto simp: numbered_def map_add_Some_iff)
  qed
  show ?thesis
  proof (cases "t \<in> set (extraTypes a)"; cases "u \<in> set (extraTypes a)")
    assume "t \<in> set (extraTypes a)" "u \<notin> set (extraTypes a)"
    with new[OF assms(2)] initTypeIDs_less[OF old[OF assms(3)]] show ?thesis by simp
  next
    assume "t \<notin> set (extraTypes a)" "u \<in> set (extraTypes a)"
    with new[OF assms(3)] initTypeIDs_less[OF old[OF assms(2)]] show ?thesis by simp
  next
    assume "t \<notin> set (extraTypes a)" "u \<notin> set (extraTypes a)"
    with old assms(2,3) show ?thesis by (blast intro: initTypeIDs_inj)
  qed (use new assms(2,3) in auto)
qed

lemma run_analysis_numbered:
  assumes "run_analysis strinfo m = Inr (a, fs)"
  shows "numbered a" "closed_but {} a" "types a = []" "tid a < 65536"
proof -
  from assms obtain k c b where A: "assign_types m fs (initial_analysis m k c) = Inr b"
    and "printGlobals_analysis m fs b = Inr a"
    by (auto simp: run_analysis_def Let_def elim!: and_then_InrE)
  then have same: "same_types b a" by (blast dest: printGlobals_types)
  note I = assign_types_inv[OF A]
  have "type_inv {} a" using I same_types_inv[OF same] by simp
  then show "numbered a" and "closed_but {} a" by (simp_all add: type_inv_def)
  show "types a = []" "tid a < 65536" using I same by (simp_all add: same_types_def)
qed

lemma numbered_extra:
  "numbered a \<Longrightarrow> map (typeIDs a) (extraTypes a) = map Some [69..<69 + length (extraTypes a)]"
  by (intro nth_equalityI) (auto simp: numbered_def snd_initTypeIDs extra_ids_nth map_add_Some_iff)

text \<open>
  C28: the type ids of a module. When the analysis succeeds, the ids from 69 on are given to
  the extra types in the order of their list, which is the assertion the writer makes of
  every entry; there are fewer than 65536 ids; no two types share one; and every type with
  an id has only parts with ids, so that describing it never asks for an unknown type,
  except that a pointer may point to an opaque type.
\<close>

theorem type_ids_consistent:
  assumes "run_analysis strinfo m = Inr (a, fs)"
  shows "startTID a = 69 \<and> 69 + length (extraTypes a) < 65536
     \<and> map (typeIDs a) (extraTypes a) = map Some [69..<69 + length (extraTypes a)]
     \<and> (\<forall>t u n. typeIDs a t = Some n \<and> typeIDs a u = Some n \<longrightarrow> t = u)
     \<and> (\<forall>t. t \<in> dom (typeIDs a) \<longrightarrow> parts_known a t)"
  using run_analysis_numbered[OF assms] numbered_extra[of a] numbered_inj[of a]
  by (auto simp: numbered_def snd_initTypeIDs closed_but_def)

text \<open>A module with a constant and an entry point that returns 0.\<close>

definition sample_body :: "string \<Rightarrow> bfunction" where
  "sample_body name = \<lparr>f_name = name, f_args = [], f_ret = IntTy 32, f_structRet = False,
     f_blocks = [[\<lparr>inst_id = 0, inst_ty = VoidTy,
       inst_kind = Return (Some (VConst (IntTy 32) (KInt 32 0)))\<rparr>]]\<rparr>"

definition sample_function :: mfunction where
  "sample_function = \<lparr>mf_ty = FunTy (IntTy 32) [] False, mf_isDeclaration = False,
     mf_unused = True, mf_body = sample_body ''entrypoint''\<rparr>"

definition sample_global :: gvar where
  "sample_global = \<lparr>gv_name = ''table'', gv_ty = IntTy 32, gv_isConstant = True,
     gv_init = Some (KInt 32 42), gv_initUnused = False, gv_threadLocal = False, gv_hasSection = False\<rparr>"

definition sample_module :: bmodule where
  "sample_module = \<lparr>m_globals = [sample_global], m_functions = [sample_function],
     m_logicalSignature = [], m_virusnames = []\<rparr>"

lemma add_type_known: "typeIDs a t \<noteq> None \<Longrightarrow> add_type t a = a"
  by (simp add: add_type_def)

lemma initial_known:
  assumes "fst initTypeIDs t = Some n"
  shows "typeIDs (initial_analysis m k c) t \<noteq> None"
proof -
  have "numbered (initial_analysis m k c)" using initial_type_inv type_inv_def by blast
  from dom_numbered[OF this] assms show ?thesis by (auto simp: domIff[symmetric])
qed

lemma fold_padding_frame:
  "types (fold add_padding_type ns a) = types a \<and> tid (fold add_padding_type ns a) = tid a + length ns"
  by (induction ns arbitrary: a) (simp_all add: add_padding_type_def Let_def)

lemma fold_padding_extra:
  "extraTypes (fold add_padding_type ns a) = extraTypes a @ map (\<lambda>n. ArrayTy n (IntTy 8)) ns"
  by (induction ns arbitrary: a) (simp_all add: add_padding_type_def Let_def)

lemma initial_extra: "extraTypes (initial_analysis m k c) = map (\<lambda>n. ArrayTy n (IntTy 8)) [1..<8]"
  by (simp add: initial_analysis_def case_prod_unfold fold_padding_extra del: upt_Suc)

lemma initial_frame: "types (initial_analysis m k c) = [] \<and> tid (initial_analysis m k c) = 76"
  using snd_initTypeIDs by (simp add: initial_analysis_def case_prod_unfold fold_padding_frame)

lemma special_global_frame:
  "nextGlobal (fold (special_global m) gs a) = nextGlobal a
     \<and> globalInits (fold (special_global m) gs a) = globalInits a"
  by (induction gs arbitrary: a) (simp_all add: special_global_def split: prod.splits option.splits)

lemma sample_analysis:
  "\<exists>a. run_analysis (\<lambda>_. None) sample_module = Inr (a, [sample_function]) \<and> globals a ''table'' = Some 1
     \<and> extraTypes a = map (\<lambda>n. ArrayTy n (IntTy 8)) [1..<8]"
proof -
  let ?m = sample_module
  have pre: "bytecode_kind ?m = Inr 0" "copyright_string (\<lambda>_. None) ?m = Inr []"
    "sort_functions (m_functions ?m) = [sample_function]" "check_entrypoint [sample_function] = Inr ()"
    by (simp_all add: bytecode_kind_def copyright_string_def find_global_def sample_module_def
        sort_functions_def check_entrypoint_def sample_function_def sample_body_def sample_global_def)
  let ?a = "(initial_analysis ?m 0 [])\<lparr>functionIDs := (functionIDs (initial_analysis ?m 0 []))(''entrypoint'' \<mapsto>
      nextFid (initial_analysis ?m 0 [])), nextFid := nextFid (initial_analysis ?m 0 []) + 1\<rparr>"
  have k: "typeIDs ?a (IntTy 32) \<noteq> None" "typeIDs ?a VoidTy \<noteq> None"
    using initial_known[of "IntTy 32" 32] initial_known[of VoidTy 0] by (simp_all add: initTypeIDs_value)
  have g: "collect_global_types ?m (initial_analysis ?m 0 []) = initial_analysis ?m 0 []"
    using initial_known[of "IntTy 32" 32]
    by (simp add: collect_global_types_def sample_module_def sample_global_def initTypeIDs_value add_type_known)
  have "collect_function sample_function (initial_analysis ?m 0 []) = Inr ?a"
    using k by (simp add: collect_function_def sample_function_def sample_body_def f_insts_def
        collect_inst_types_def operand_types_def Let_def add_type_known)
  with g have "assign_types ?m [sample_function] (initial_analysis ?m 0 []) = Inr ?a"
    by (simp add: assign_types_def close_types.simps initial_frame)
  moreover have plain: "''table'' \<notin> specialGlobals" by (simp add: specialGlobals_def globalsMap_def)
  moreover have "\<exists>b. printGlobals_analysis ?m [sample_function] ?a = Inr b \<and> globals b ''table'' = Some 1"
    using plain by (simp add: printGlobals_analysis_def record_api_def sample_function_def sample_module_def
        special_global_frame record_global_def sample_global_def Let_def)
  then obtain b where b: "printGlobals_analysis ?m [sample_function] ?a = Inr b" "globals b ''table'' = Some 1" by blast
  moreover have "extraTypes b = map (\<lambda>n. ArrayTy n (IntTy 8)) [1..<8]"
    using printGlobals_types[OF b(1)] initial_extra by (simp add: same_types_def del: upt_Suc)
  ultimately show ?thesis using pre by (auto simp: run_analysis_def Let_def)
qed

theorem type_ids_consistent_witness:
  "\<exists>a. run_analysis (\<lambda>_. None) sample_module = Inr (a, [sample_function]) \<and> startTID a = 69
     \<and> map (typeIDs a) (extraTypes a) = map Some [69..<69 + length (extraTypes a)]"
proof -
  obtain a where a: "run_analysis (\<lambda>_. None) sample_module = Inr (a, [sample_function])"
    using sample_analysis by blast
  with type_ids_consistent[OF a] show ?thesis by blast
qed

section \<open>API numbers\<close>

lemma fold_numbering:
  assumes "distinct ns"
  shows "fst (fold (\<lambda>n (m, i). (m(n \<mapsto> i), i + 1)) ns (m, k)) =
     m ++ map_of (zip ns [k..<k + length ns])"
  using assms
proof (induction ns arbitrary: m k)
  case (Cons n ns)
  let ?rest = "map_of (zip ns [Suc k..<Suc k + length ns])"
  have "fst (fold (\<lambda>n (m, i). (m(n \<mapsto> i), i + 1)) (n # ns) (m, k)) = m(n \<mapsto> k) ++ ?rest"
    using Cons.IH[of "m(n \<mapsto> k)" "Suc k"] Cons.prems by (simp del: fun_upd_apply)
  also have "\<dots> = (m ++ ?rest)(n \<mapsto> k)" using Cons.prems by (intro map_add_upd_left) simp
  also have "\<dots> = m ++ ?rest(n \<mapsto> k)" by (simp only: map_add_upd)
  also have "?rest(n \<mapsto> k) = map_of (zip (n # ns) [k..<k + length (n # ns)])"
    by (simp add: upt_conv_Cons del: upt_Suc fun_upd_apply)
  finally show ?case .
qed simp

lemma apiMap_names_table: "apiMap_names = map fst cli_apicalls"
  by code_simp

lemma apiMap_names_distinct: "distinct apiMap_names"
  by code_simp

lemma populateAPIMap_value: "populateAPIMap = map_of (zip apiMap_names [1..<1 + length apiMap_names])"
  unfolding populateAPIMap_def fold_numbering[OF apiMap_names_distinct] by simp

text \<open>
  C30: the numbers the compiler writes for API calls are positions in the engine's table: the
  API map gives a name the number \<open>n\<close> exactly when the entry \<open>n - 1\<close> of
  \<^verbatim>\<open>cli_apicalls\<close> has that name.
\<close>

theorem api_numbers_are_table_positions:
  "populateAPIMap name = Some n \<longleftrightarrow>
     n \<noteq> 0 \<and> n - 1 < length cli_apicalls \<and> fst (cli_apicalls ! (n - 1)) = name"
proof -
  have len: "length apiMap_names = length cli_apicalls" by (simp add: apiMap_names_table)
  have "populateAPIMap name = Some n \<longleftrightarrow> (name, n) \<in> set (zip apiMap_names [1..<1 + length apiMap_names])"
    unfolding populateAPIMap_value using apiMap_names_distinct by (simp add: distinct_map)
  also have "\<dots> \<longleftrightarrow> (\<exists>i < length apiMap_names. apiMap_names ! i = name \<and> n = 1 + i)"
    by (auto simp: in_set_zip simp del: upt_Suc)
  also have "\<dots> \<longleftrightarrow> n \<noteq> 0 \<and> n - 1 < length cli_apicalls \<and> fst (cli_apicalls ! (n - 1)) = name"
    unfolding len by (cases n) (auto simp: apiMap_names_table)
  finally show ?thesis .
qed

section \<open>Function numbers\<close>

lemma map_of_zip_self: "distinct xs \<Longrightarrow> length xs = length ys \<Longrightarrow> map (map_of (zip xs ys)) xs = map Some ys"
  by (intro nth_equalityI) (simp_all add: map_of_zip_nth)

text \<open>Collecting types does not touch the function numbers.\<close>

lemma add_type_functions [simp]:
  "functionIDs (add_type t a) = functionIDs a" "nextFid (add_type t a) = nextFid a"
  by (simp_all add: add_type_def)

lemma fold_add_type_functions [simp]:
  "functionIDs (fold add_type ts a) = functionIDs a" "nextFid (fold add_type ts a) = nextFid a"
  by (induction ts arbitrary: a) simp_all

lemma collect_inst_functions [simp]:
  "functionIDs (collect_inst_types i a) = functionIDs a" "nextFid (collect_inst_types i a) = nextFid a"
  by (simp_all add: collect_inst_types_def Let_def split: kind.splits)

lemma fold_collect_inst_functions [simp]:
  "functionIDs (fold collect_inst_types is a) = functionIDs a"
  "nextFid (fold collect_inst_types is a) = nextFid a"
  by (induction "is" arbitrary: a) simp_all

definition defined :: "mfunction list \<Rightarrow> mfunction list" where
  "defined fs = filter (\<lambda>f. \<not> mf_isDeclaration f) fs"

lemma collect_function_numbers:
  assumes "collect_function f a = Inr b"
  shows "if mf_isDeclaration f then functionIDs b = functionIDs a \<and> nextFid b = nextFid a
     else functionIDs b = (functionIDs a)(mf_name f \<mapsto> nextFid a) \<and> nextFid b = nextFid a + 1"
  using assms by (auto simp: collect_function_def Let_def split: if_splits)

lemma collect_functions_numbers:
  assumes "fold_err collect_function fs a = Inr b" and "distinct (map mf_name fs)"
  shows "functionIDs b = functionIDs a
     ++ map_of (zip (map mf_name (defined fs)) [nextFid a..<nextFid a + length (defined fs)])"
  using assms
proof (induction fs arbitrary: a)
  case Nil
  then show ?case by (simp add: defined_def)
next
  case (Cons f fs)
  then obtain a1 where 1: "collect_function f a = Inr a1" and r: "fold_err collect_function fs a1 = Inr b"
    by (auto elim: and_then_InrE)
  note N = collect_function_numbers[OF 1]
  have d: "distinct (map mf_name fs)" using Cons.prems(2) by simp
  note IH = Cons.IH[OF r d]
  show ?case
  proof (cases "mf_isDeclaration f")
    case True
    with N IH show ?thesis by (simp add: defined_def)
  next
    case False
    let ?rest = "map_of (zip (map mf_name (defined fs)) [Suc (nextFid a)..<Suc (nextFid a) + length (defined fs)])"
    have nf: "mf_name f \<notin> dom ?rest" using Cons.prems(2) by (auto simp: defined_def)
    have "functionIDs b = (functionIDs a)(mf_name f \<mapsto> nextFid a) ++ ?rest"
      using N IH False by (simp del: fun_upd_apply)
    also have "\<dots> = (functionIDs a ++ ?rest)(mf_name f \<mapsto> nextFid a)" by (rule map_add_upd_left[OF nf])
    also have "\<dots> = functionIDs a ++ ?rest(mf_name f \<mapsto> nextFid a)" by (simp only: map_add_upd)
    finally show ?thesis
      using False by (simp add: defined_def upt_conv_Cons del: upt_Suc fun_upd_apply)
  qed
qed

text \<open>The entry point sorts before every other function.\<close>

lemma set_insert_function [simp]: "set (insert_function f gs) = insert f (set gs)"
  by (induction gs) auto

lemma insert_entrypoint:
  assumes "gs \<noteq> [] \<longrightarrow> (\<exists>g\<in>set gs. mf_name g = ''entrypoint'') \<longrightarrow> mf_name (hd gs) = ''entrypoint''"
    and "\<exists>g\<in>set (insert_function f gs). mf_name g = ''entrypoint''"
  shows "mf_name (hd (insert_function f gs)) = ''entrypoint''"
proof (cases gs)
  case Nil
  with assms(2) show ?thesis by simp
next
  case (Cons g gs')
  show ?thesis
  proof (cases "mf_name f = ''entrypoint''")
    case True
    then have "\<not> compare_lt_functions g f" by (simp add: compare_lt_functions_def getSpecialIndex_def Let_def)
    with Cons True show ?thesis by simp
  next
    case False
    from assms(2) False have "\<exists>h\<in>set gs. mf_name h = ''entrypoint''"
      unfolding set_insert_function by blast
    with assms(1) Cons have "mf_name g = ''entrypoint''" by auto
    with False have "compare_lt_functions g f" by (simp add: compare_lt_functions_def getSpecialIndex_def Let_def)
    with Cons \<open>mf_name g = ''entrypoint''\<close> show ?thesis by simp
  qed
qed

lemma mset_insert_function: "mset (insert_function f gs) = add_mset f (mset gs)"
  by (induction gs) auto

lemma mset_sort_functions: "mset (sort_functions fs) = mset fs"
  unfolding sort_functions_def by (induction fs) (simp_all add: mset_insert_function)

lemma hd_sort_functions:
  "\<exists>g\<in>set fs. mf_name g = ''entrypoint'' \<Longrightarrow> mf_name (hd (sort_functions fs)) = ''entrypoint''"
proof (induction fs)
  case (Cons f fs)
  have s: "set (sort_functions fs) = set fs" for fs using mset_sort_functions by (metis set_mset_mset)
  have "mf_name (hd (insert_function f (sort_functions fs))) = ''entrypoint''"
  proof (rule insert_entrypoint)
    show "sort_functions fs \<noteq> [] \<longrightarrow> (\<exists>g\<in>set (sort_functions fs). mf_name g = ''entrypoint'')
        \<longrightarrow> mf_name (hd (sort_functions fs)) = ''entrypoint''"
      using Cons.IH s by auto
    show "\<exists>g\<in>set (insert_function f (sort_functions fs)). mf_name g = ''entrypoint''"
      using Cons.prems s by auto
  qed
  then show ?case by (simp add: sort_functions_def)
qed simp

lemma run_analysis_functions:
  assumes "run_analysis strinfo m = Inr (a, fs)" and "distinct (map mf_name (m_functions m))"
  shows "fs = sort_functions (m_functions m) \<and> distinct (map mf_name fs)
     \<and> functionIDs a = map_of (zip (map mf_name (defined fs)) [1..<1 + length (defined fs)])"
proof -
  from assms(1) obtain k c b a1 where fs: "fs = sort_functions (m_functions m)"
    and 1: "fold_err collect_function fs (collect_global_types m (initial_analysis m k c)) = Inr a1"
    and 2: "close_types a1 = Inr b" and 3: "printGlobals_analysis m fs b = Inr a"
    by (auto simp: run_analysis_def assign_types_def Let_def elim!: and_then_InrE split: if_splits)
  have "mset (map mf_name fs) = mset (map mf_name (m_functions m))"
    by (simp add: fs mset_sort_functions)
  then have d: "distinct (map mf_name fs)" using assms(2) mset_eq_imp_distinct_iff by blast
  have frame: "functionIDs b = functionIDs a1" if "close_types a1 = Inr b" for a1 b
    using that
  proof (induction a1 rule: close_types.induct)
    case (1 a)
    have same: "functionIDs y = functionIDs x" if "fold_err (add_subtype t) ss x = Inr y" for t ss x y
      using that by (rule fold_err_invariant[where P = "\<lambda>z. functionIDs z = functionIDs x", rotated 2])
        (auto simp: add_subtype_def split: if_splits)
    with 1 show ?case by (auto simp: close_types.simps[of a] split: list.splits sum.splits)
  qed
  have pad: "functionIDs (fold add_padding_type ns x) = functionIDs x
      \<and> nextFid (fold add_padding_type ns x) = nextFid x" for ns x
    by (induction ns arbitrary: x) (simp_all add: add_padding_type_def Let_def)
  have glob: "functionIDs (fold (\<lambda>g. add_type (gv_ty g)) gs x) = functionIDs x
      \<and> nextFid (fold (\<lambda>g. add_type (gv_ty g)) gs x) = nextFid x" for gs x
    by (induction gs arbitrary: x) simp_all
  have "functionIDs a = functionIDs a1"
    using frame[OF 2] printGlobals_types[OF 3] by (simp add: same_types_def)
  with collect_functions_numbers[OF 1 d] fs d show ?thesis
    by (simp add: collect_global_types_def initial_analysis_def case_prod_unfold pad glob)
qed



section \<open>Global variables\<close>

text \<open>
  Ids of the module's own globals index the list of initialisers, whose entry 0 is the
  placeholder, and stay below the ids of the engine's globals.
\<close>

definition globals_inv :: "analysis \<Rightarrow> bool" where
  "globals_inv a \<longleftrightarrow> length (globalInits a) = nextGlobal a \<and> 0 < nextGlobal a \<and> nextGlobal a < 32768
     \<and> globalInits a ! 0 = None
     \<and> (\<forall>i. 0 < i \<and> i < nextGlobal a \<longrightarrow> globalInits a ! i \<noteq> None)
     \<and> (\<forall>name n. globals a name = Some n \<longrightarrow> 0x8000 \<le> n \<or> 0 < n \<and> n < nextGlobal a)"

lemma record_global_inv: "globals_inv a \<Longrightarrow> record_global g a = Inr b \<Longrightarrow> globals_inv b"
  by (auto simp: record_global_def globals_inv_def Let_def nth_append less_Suc_eq
      split: if_splits option.splits) blast+

lemma special_global_ids:
  assumes "\<forall>p\<in>set gs. 0x8000 \<le> snd p" and "\<forall>name n. globals a name = Some n \<longrightarrow> 0x8000 \<le> n"
  shows "globals (fold (special_global m) gs a) name = Some n \<Longrightarrow> 0x8000 \<le> n"
  using assms
proof (induction gs arbitrary: a)
  case (Cons g gs)
  have "\<forall>name n. globals (special_global m g a) name = Some n \<longrightarrow> 0x8000 \<le> n"
    using Cons.prems(2,3) by (auto simp: special_global_def split: prod.splits option.splits)
  with Cons show ?case by simp
qed simp

lemma globalsMap_ids: "list_all (\<lambda>p. 0x8000 \<le> snd p) globalsMap"
  by (simp add: globalsMap_def enum_value_def bc_global_def enumerators_def)

text \<open>Numbering types does not touch the globals.\<close>

definition no_globals :: "analysis \<Rightarrow> bool" where
  "no_globals a \<longleftrightarrow> globals a = Map.empty \<and> globalInits a = []"

lemma no_globals_steps [simp]:
  "no_globals (add_type t a) = no_globals a" "no_globals (add_padding_type n a) = no_globals a"
  "no_globals (a\<lparr>functionIDs := x, nextFid := y\<rparr>) = no_globals a"
  "no_globals (a\<lparr>types := ts\<rparr>) = no_globals a"
  by (simp_all add: no_globals_def add_type_def add_padding_type_def Let_def)

lemma no_globals_fold [simp]:
  "(\<And>x s. no_globals (f x s) = no_globals s) \<Longrightarrow> no_globals (fold f xs a) = no_globals a"
  by (induction xs arbitrary: a) simp_all

lemma no_globals_inst [simp]: "no_globals (collect_inst_types i a) = no_globals a"
  by (simp add: collect_inst_types_def Let_def split: kind.splits)

lemma no_globals_close: "close_types a = Inr b \<Longrightarrow> no_globals a \<Longrightarrow> no_globals b"
proof (induction a rule: close_types.induct)
  case (1 a)
  have "no_globals y" if "fold_err (add_subtype t) ss x = Inr y" "no_globals x" for t ss x y
    using that(2,1) by (rule fold_err_invariant[where P = no_globals, rotated])
      (auto simp: add_subtype_def split: if_splits)
  with 1 show ?case by (auto simp: close_types.simps[of a] split: list.splits sum.splits)
qed

lemma assign_types_globals:
  assumes "assign_types m fs (initial_analysis m k c) = Inr b"
  shows "globals b = Map.empty \<and> globalInits b = []"
proof -
  from assms obtain a1 where
    1: "fold_err collect_function fs (collect_global_types m (initial_analysis m k c)) = Inr a1"
    and 2: "close_types a1 = Inr b"
    by (auto simp: assign_types_def elim!: and_then_InrE split: if_splits)
  have "no_globals (collect_global_types m (initial_analysis m k c))"
    by (simp add: collect_global_types_def initial_analysis_def case_prod_unfold) (simp add: no_globals_def)
  then have "no_globals a1"
    using 1 by (rule fold_err_invariant[where P = no_globals, rotated])
      (auto simp: collect_function_def Let_def split: if_splits)
  from no_globals_close[OF 2 this] show ?thesis by (simp add: no_globals_def)
qed



end
