(* ===== verification/BC_RegAlloc.thy ===== *)
theory BC_RegAlloc
  imports BC_IR "HOL-Library.AList"
begin

text \<open>
  The allocation of value numbers: \<^verbatim>\<open>ClamBCRegAllocAnalysis\<close> of
  \<^verbatim>\<open>libclambcc/ClamBCRegAlloc.cpp\<close> and \<^verbatim>\<open>ClamBCRegAlloc.h\<close>, from the point where
  a function has no phi nodes any more. Parameters and instructions get consecutive numbers, a
  value whose only use is to be stored in a stack slot shares the number of the slot, and a
  cast of a pointer shares the number of its operand. The theorems say that the map from
  numbers to values which the writer prints agrees with the map from values to numbers, that
  the consistency check of \<^verbatim>\<open>buildReverseMap\<close> never fails, and which values share a
  number.
\<close>

section \<open>State\<close>

datatype vkey = ArgKey nat | InstKey nat

fun val_key :: "val \<Rightarrow> vkey option" where
  "val_key (VConst t c) = None"
| "val_key (VArg t n) = Some (ArgKey n)"
| "val_key (VInst t n) = Some (InstKey n)"

text \<open>
  \<open>ra_id\<close> is the local variable of \<^verbatim>\<open>runOnFunction\<close>; \<open>no_id\<close> is
  \<^verbatim>\<open>~0u\<close>.
\<close>

record regalloc =
  ValueMap :: "(vkey \<times> nat) list"
  RevValueMap :: "vkey list"
  SkipMap :: "vkey set"
  ra_id :: nat

definition no_id :: nat where
  "no_id = 0xFFFFFFFF"

definition getValueID :: "regalloc \<Rightarrow> vkey option \<Rightarrow> wr_error + nat" where
  "getValueID ra k = (case k of None \<Rightarrow> Inl (Failed ''Value ID requested for unknown value'')
     | Some k' \<Rightarrow> (case map_of (ValueMap ra) k' of
           None \<Rightarrow> Inl (Failed ''Value ID requested for unknown value'')
         | Some n \<Rightarrow> if n = no_id
             then Inl (Failed ''Value ID requested for unused/void instruction!'') else Inr n))"

definition skipInstruction :: "regalloc \<Rightarrow> inst \<Rightarrow> bool" where
  "skipInstruction ra i \<longleftrightarrow> InstKey (inst_id i) \<in> SkipMap ra"

section \<open>Allocation\<close>

text \<open>The instruction a value is, and the instructions that use a value, once per operand.\<close>

definition find_inst :: "bfunction \<Rightarrow> val \<Rightarrow> inst option" where
  "find_inst f v = (case v of VInst t n \<Rightarrow> find (\<lambda>i. inst_id i = n) (f_insts f) | _ \<Rightarrow> None)"

definition users :: "bfunction \<Rightarrow> nat \<Rightarrow> inst list" where
  "users f n = concat (map (\<lambda>i. map (\<lambda>_. i)
     (filter (\<lambda>v. val_key v = Some (InstKey n)) (operands (inst_kind i)))) (f_insts f))"

fun alloca_of :: "inst option \<Rightarrow> (nat \<times> val) option" where
  "alloca_of (Some i) = (case inst_kind i of Alloca t n \<Rightarrow> Some (inst_id i, n) | _ \<Rightarrow> None)"
| "alloca_of None = None"

text \<open>The next number goes to \<open>k\<close> and is entered in the reverse map for \<open>r\<close>.\<close>

definition new_id :: "vkey \<Rightarrow> vkey \<Rightarrow> regalloc \<Rightarrow> regalloc" where
  "new_id k r ra = ra\<lparr>ValueMap := AList.update k (ra_id ra) (ValueMap ra),
     RevValueMap := (if length (RevValueMap ra) = ra_id ra then RevValueMap ra @ [r] else RevValueMap ra),
     ra_id := ra_id ra + 1\<rparr>"

definition set_id :: "vkey \<Rightarrow> nat \<Rightarrow> regalloc \<Rightarrow> regalloc" where
  "set_id k n ra = ra\<lparr>ValueMap := AList.update k n (ValueMap ra)\<rparr>"

definition skip :: "vkey \<Rightarrow> regalloc \<Rightarrow> regalloc" where
  "skip k ra = ra\<lparr>SkipMap := insert k (SkipMap ra)\<rparr>"

text \<open>A value whose only use is to be stored in (or to address) a stack slot, and that slot.\<close>

definition slot_of :: "bfunction \<Rightarrow> nat \<Rightarrow> nat option" where
  "slot_of f n = (case users f n of [u] \<Rightarrow>
       (case inst_kind u of Store v p \<Rightarrow> map_option fst (alloca_of (find_inst f p)) | _ \<Rightarrow> None)
     | _ \<Rightarrow> None)"

text \<open>The end of the loop body: single-use values, and the rest.\<close>

definition alloc_value :: "bfunction \<Rightarrow> inst \<Rightarrow> regalloc \<Rightarrow> wr_error + regalloc" where
  "alloc_value f i ra = (let k = InstKey (inst_id i) in
     case slot_of f (inst_id i) of None \<Rightarrow> Inr (new_id k k ra)
     | Some a \<Rightarrow>
         let ra = (if map_of (ValueMap ra) (InstKey a) = None then new_id (InstKey a) k ra else ra)
         in and_then (getValueID ra (Some (InstKey a))) (\<lambda>n. Inr (set_id k n ra)))"

definition alloc_bitcast :: "bfunction \<Rightarrow> inst \<Rightarrow> bool \<Rightarrow> val \<Rightarrow> regalloc \<Rightarrow> wr_error + regalloc" where
  "alloc_bitcast f i lossless v ra = (let k = InstKey (inst_id i) in
     if \<not> lossless then Inl (Stop ''Non lossless bitcast is not supported'')
     else if isPointerTy (val_ty v) \<and> \<not> isPointerTy (inst_ty i)
     then Inl (Stop ''Cast from pointer to non-pointer element'')
     else case alloca_of (find_inst f v) of
       Some (a, n) \<Rightarrow> if \<not> isArrayAllocation n then Inr (new_id k k ra)
         else and_then (getValueID ra (val_key v)) (\<lambda>n. Inr (set_id k n (skip k ra)))
     | None \<Rightarrow> and_then (getValueID ra (val_key v)) (\<lambda>n. Inr (set_id k n (skip k ra))))"

text \<open>\<open>effects\<close> is LLVM's \<^verbatim>\<open>mayHaveSideEffects\<close>.\<close>

definition alloc_inst :: "(inst \<Rightarrow> bool) \<Rightarrow> bfunction \<Rightarrow> inst \<Rightarrow> regalloc \<Rightarrow> wr_error + regalloc" where
  "alloc_inst effects f i ra = (let k = InstKey (inst_id i) in
     if map_of (ValueMap ra) k \<noteq> None then Inr ra
     else if inst_ty i = VoidTy then Inr (set_id k no_id ra)
     else if users f (inst_id i) = [] \<and> \<not> effects i then Inr (set_id k no_id (skip k ra))
     else case inst_kind i of
       Cast (BitCast lossless) v \<Rightarrow> alloc_bitcast f i lossless v ra
     | Cast PtrToInt v \<Rightarrow> Inl (Stop ''Cast from pointer to non-pointer element'')
     | Cast IntToPtr v \<Rightarrow> Inl (Stop ''Cast from pointer to non-pointer element'')
     | _ \<Rightarrow> alloc_value f i ra)"

definition alloc_args :: "nat \<Rightarrow> regalloc \<Rightarrow> regalloc" where
  "alloc_args n ra = fold (\<lambda>j. new_id (ArgKey j) (ArgKey j)) [0..<n] ra"

text \<open>
  \<^verbatim>\<open>runOnFunction\<close> without the phi nodes. The two value maps are cleared, the set of
  skipped instructions is not.
\<close>

definition runOnFunction_regalloc ::
    "(inst \<Rightarrow> bool) \<Rightarrow> bfunction \<Rightarrow> regalloc \<Rightarrow> wr_error + regalloc" where
  "runOnFunction_regalloc effects f ra =
     fold_err (alloc_inst effects f) (f_insts f)
       (alloc_args (length (f_args f)) (ra\<lparr>ValueMap := [], RevValueMap := [], ra_id := 0\<rparr>))"

section \<open>The reverse map\<close>

definition max_from :: "vkey set \<Rightarrow> (vkey \<times> nat) list \<Rightarrow> nat \<Rightarrow> nat" where
  "max_from sk es m0 = fold (\<lambda>(k, n) m. if k \<in> sk then m else if n = no_id then m
     else if m < n then n else m) es m0"

definition max_id :: "regalloc \<Rightarrow> nat" where
  "max_id ra = max_from (SkipMap ra) (ValueMap ra) 0"

definition buildReverseMap :: "regalloc \<Rightarrow> wr_error + vkey list" where
  "buildReverseMap ra =
     (if max_id ra \<noteq> 0 \<and> max_id ra + 1 \<noteq> length (RevValueMap ra)
      then Inl (Failed ''max + 1 == RevValueMap.size()'') else Inr (RevValueMap ra))"

section \<open>Slots\<close>

text \<open>
  The representative of a value: the slot it is stored in when that is its only use. Two values
  share a number exactly when they have the same representative.
\<close>

definition slot_key :: "bfunction \<Rightarrow> nat \<Rightarrow> nat option" where
  "slot_key f n = (case find (\<lambda>i. inst_id i = n) (f_insts f) of
       Some i \<Rightarrow> (case inst_kind i of Cast (BitCast b) v \<Rightarrow> None | _ \<Rightarrow> slot_of f n)
     | None \<Rightarrow> None)"

fun rep :: "bfunction \<Rightarrow> vkey \<Rightarrow> vkey" where
  "rep f (ArgKey n) = ArgKey n"
| "rep f (InstKey n) = InstKey (case slot_key f n of Some a \<Rightarrow> a | None \<Rightarrow> n)"

abbreviation wf_ids :: "bfunction \<Rightarrow> bool" where
  "wf_ids f \<equiv> distinct (map inst_id (f_insts f))"

lemma find_inst_id:
  assumes "wf_ids f" and "i \<in> set (f_insts f)"
  shows "find (\<lambda>j. inst_id j = inst_id i) (f_insts f) = Some i"
proof -
  obtain j where j: "find (\<lambda>j. inst_id j = inst_id i) (f_insts f) = Some j"
    using assms(2) by (cases "find (\<lambda>j. inst_id j = inst_id i) (f_insts f)") (auto simp: find_None_iff)
  then have "j \<in> set (f_insts f)" "inst_id j = inst_id i" by (auto simp: find_Some_iff)
  with assms have "j = i" by (auto simp: distinct_map dest: inj_onD)
  with j show ?thesis by simp
qed

lemma users_iff:
  "u \<in> set (users f n) \<longleftrightarrow>
     u \<in> set (f_insts f) \<and> (\<exists>v\<in>set (operands (inst_kind u)). val_key v = Some (InstKey n))"
  by (auto simp: users_def)

lemma slot_ofE:
  assumes "slot_of f n = Some a"
  obtains u v t ai where "users f n = [u]" "inst_kind u = Store v (VInst t a)"
    "find_inst f (VInst t a) = Some ai" "inst_id ai = a" "ai \<in> set (f_insts f)"
    "\<exists>t' c. inst_kind ai = Alloca t' c"
proof -
  from assms obtain u v p ai c where u: "users f n = [u]" "inst_kind u = Store v p"
    and p: "find_inst f p = Some ai" "alloca_of (Some ai) = Some (a, c)"
    by (auto simp: slot_of_def split: list.splits kind.splits option.splits elim!: alloca_of.elims)
  from p(1) obtain t m where m: "p = VInst t m" "find (\<lambda>i. inst_id i = m) (f_insts f) = Some ai"
    by (auto simp: find_inst_def split: val.splits)
  from p(2) have "inst_id ai = a" "\<exists>t' c. inst_kind ai = Alloca t' c" by (auto split: kind.splits)
  with u p m that show ?thesis by (auto simp: find_Some_iff)
qed

text \<open>A slot represents itself.\<close>

lemma rep_slot:
  assumes "wf_ids f" and "slot_of f n = Some a"
  shows "rep f (InstKey a) = InstKey a"
proof -
  from assms(2) obtain u v t ai where u: "users f n = [u]" "inst_kind u = Store v (VInst t a)"
    and a: "find_inst f (VInst t a) = Some ai" "inst_id ai = a" "ai \<in> set (f_insts f)"
      "\<exists>t' c. inst_kind ai = Alloca t' c" by (rule slot_ofE)
  have "u \<in> set (f_insts f)" using u users_iff[of u f n] by simp
  then have ua: "u \<in> set (users f a)" using u by (auto simp: users_iff)
  have "slot_of f a = None \<or> slot_of f a = Some a"
  proof (cases "slot_of f a")
    case (Some b)
    then obtain w x s where w: "users f a = [w]" "inst_kind w = Store x (VInst s b)" by (rule slot_ofE)
    with ua u show ?thesis using Some by simp
  qed simp
  moreover have "slot_key f a = slot_of f a"
    using find_inst_id[OF assms(1) a(3)] a(2,4) by (auto simp: slot_key_def)
  ultimately show ?thesis by (auto simp: option.case_eq_if)
qed

section \<open>The invariant\<close>

definition keys :: "bfunction \<Rightarrow> vkey list" where
  "keys f = map ArgKey [0..<length (f_args f)] @ map (\<lambda>i. InstKey (inst_id i)) (f_insts f)"

text \<open>
  What holds of the maps \<open>m\<close> from values to numbers and \<open>rv\<close> back, with the
  skipped instructions \<open>sk\<close>. \<open>S\<close> are the instructions skipped in functions before this
  one, which are none of its own.
\<close>

definition numbering :: "bfunction \<Rightarrow> vkey set \<Rightarrow> (vkey \<rightharpoonup> nat) \<Rightarrow> vkey list \<Rightarrow> vkey set \<Rightarrow> bool" where
  "numbering f S m rv sk \<longleftrightarrow>
     (\<forall>k n. m k = Some n \<longrightarrow> n = no_id \<or> n < length rv)
     \<and> (\<forall>k n. m k = Some n \<and> n \<noteq> no_id \<and> k \<notin> sk \<longrightarrow> rep f (rv ! n) = rep f k)
     \<and> (\<forall>r\<in>set rv. m (rep f r) \<noteq> None)
     \<and> distinct (map (rep f) rv)
     \<and> (\<forall>n<length rv. \<exists>k. m k = Some n \<and> k \<notin> sk)
     \<and> sk \<subseteq> S \<union> dom m
     \<and> (\<forall>i\<in>set (f_insts f). InstKey (inst_id i) \<in> sk \<longrightarrow>
          m (InstKey (inst_id i)) = Some no_id \<or> (\<exists>b v. inst_kind i = Cast (BitCast b) v))"

lemma numberingD:
  assumes "numbering f S m rv sk"
  shows "m k = Some n \<Longrightarrow> n = no_id \<or> n < length rv"
    and "m k = Some n \<Longrightarrow> n \<noteq> no_id \<Longrightarrow> k \<notin> sk \<Longrightarrow> rep f (rv ! n) = rep f k"
    and "r \<in> set rv \<Longrightarrow> m (rep f r) \<noteq> None"
    and "distinct (map (rep f) rv)"
    and "n < length rv \<Longrightarrow> \<exists>k. m k = Some n \<and> k \<notin> sk"
    and "sk \<subseteq> S \<union> dom m"
    and "i \<in> set (f_insts f) \<Longrightarrow> InstKey (inst_id i) \<in> sk \<Longrightarrow>
      m (InstKey (inst_id i)) = Some no_id \<or> (\<exists>b v. inst_kind i = Cast (BitCast b) v)"
  using assms unfolding numbering_def by blast+

lemma numbering_new:
  assumes N: "numbering f S m rv sk" and new: "m k = None" and k: "k \<notin> S" "rep f k = k" and r: "rep f r = k"
  shows "numbering f S (m(k \<mapsto> length rv)) (rv @ [r]) sk"
proof -
  have "k \<notin> sk" using numberingD(6)[OF N] new k by auto
  moreover have "k \<notin> rep f ` set rv" using numberingD(3)[OF N] new by fastforce
  moreover have "(if n < length rv then rv ! n else r) = (rv @ [r]) ! n" if "n \<le> length rv" for n
    using that by (simp add: nth_append)
  ultimately show ?thesis
    unfolding numbering_def using new k r
    apply (intro conjI allI impI ballI)
    subgoal for x n using numberingD(1)[OF N, of x n] by (auto split: if_splits)
    subgoal for x n using numberingD(1,2)[OF N, of x n] by (auto simp: nth_append split: if_splits)
    subgoal for x using numberingD(3)[OF N, of x] by auto
    subgoal using numberingD(4)[OF N] by auto
    subgoal for n using numberingD(5)[OF N, of n] by (cases "n = length rv") (auto, metis option.distinct(1))
    subgoal using numberingD(6)[OF N] by auto
    subgoal for i using numberingD(7)[OF N, of i] by auto
    done
qed

text \<open>A value that has no number, or shares the number of another one.\<close>

lemma numbering_none:
  assumes N: "numbering f S m rv sk" and new: "m k = None" and "sk' = sk \<or> sk' = insert k sk"
  shows "numbering f S (m(k \<mapsto> no_id)) rv sk'"
  unfolding numbering_def using assms
  apply (intro conjI allI impI ballI)
  subgoal for x n using numberingD(1)[OF N, of x n] by (auto split: if_splits)
  subgoal for x n using numberingD(2)[OF N, of x n] by (auto split: if_splits)
  subgoal for x using numberingD(3)[OF N, of x] by auto
  subgoal using numberingD(4)[OF N] by auto
  subgoal for n using numberingD(5)[OF N, of n] by (metis fun_upd_other insert_iff option.distinct(1))
  subgoal using numberingD(6)[OF N] by auto
  subgoal for i using numberingD(7)[OF N, of i] by auto
  done

lemma numbering_share:
  assumes N: "numbering f S m rv sk" and new: "m k = None" and a: "m a = Some n" "n \<noteq> no_id"
    and "sk' = sk \<and> a \<notin> sk \<and> rep f a = rep f k
       \<or> sk' = insert k sk \<and> (\<forall>i\<in>set (f_insts f). k = InstKey (inst_id i) \<longrightarrow> (\<exists>b v. inst_kind i = Cast (BitCast b) v))"
  shows "numbering f S (m(k \<mapsto> n)) rv sk'"
  unfolding numbering_def using assms
  apply (intro conjI allI impI ballI)
  subgoal for x y using numberingD(1)[OF N, of x y] numberingD(1)[OF N a(1)] by (auto split: if_splits)
  subgoal for x y using numberingD(2)[OF N, of x y] numberingD(2)[OF N a] by (auto split: if_splits)
  subgoal for x using numberingD(3)[OF N, of x] by auto
  subgoal using numberingD(4)[OF N] by auto
  subgoal for y using numberingD(5)[OF N, of y] by (metis fun_upd_other insert_iff option.distinct(1))
  subgoal using numberingD(6)[OF N] by auto
  subgoal for i using numberingD(7)[OF N, of i] by auto
  done

definition reg_inv :: "bfunction \<Rightarrow> vkey set \<Rightarrow> regalloc \<Rightarrow> bool" where
  "reg_inv f S ra \<longleftrightarrow> length (RevValueMap ra) = ra_id ra \<and> distinct (map fst (ValueMap ra))
     \<and> fst ` set (ValueMap ra) \<subseteq> set (keys f) \<and> ra_id ra \<le> length (ValueMap ra)
     \<and> numbering f S (map_of (ValueMap ra)) (RevValueMap ra) (SkipMap ra)"

lemma reg_inv_small:
  assumes "reg_inv f S ra" and "length (keys f) < no_id"
  shows "ra_id ra < no_id"
proof -
  have D: "distinct (map fst (ValueMap ra))" and K: "fst ` set (ValueMap ra) \<subseteq> set (keys f)"
    using assms(1) by (simp_all add: reg_inv_def)
  have "length (ValueMap ra) = card (fst ` set (ValueMap ra))"
    using distinct_card[OF D] by simp
  also have "\<dots> \<le> length (keys f)"
    using card_mono[OF finite_set K] card_length[of "keys f"] by linarith
  finally show ?thesis using assms by (simp add: reg_inv_def)
qed

lemma length_update_new: "map_of xs k = None \<Longrightarrow> length (AList.update k v xs) = Suc (length xs)"
  by (induction xs) (auto split: if_splits)

lemma fst_update: "fst ` set (AList.update k v xs) = insert k (fst ` set xs)"
  by (induction xs) auto

lemmas update_facts = update_conv' distinct_update fst_update length_update_new

lemma reg_inv_new_id:
  assumes "reg_inv f S ra" and "map_of (ValueMap ra) k = None" and "k \<in> set (keys f)"
    and "k \<notin> S" and "rep f k = k" and "rep f r = k"
  shows "reg_inv f S (new_id k r ra)"
  using assms numbering_new[of f S "map_of (ValueMap ra)" "RevValueMap ra" "SkipMap ra" k r]
  by (auto simp: reg_inv_def new_id_def update_facts)

lemma reg_inv_none:
  assumes "reg_inv f S ra" and "map_of (ValueMap ra) k = None" and "k \<in> set (keys f)"
  shows "reg_inv f S (set_id k no_id ra)" "reg_inv f S (set_id k no_id (skip k ra))"
  using assms numbering_none[of f S "map_of (ValueMap ra)" "RevValueMap ra" "SkipMap ra" k]
  by (auto simp: reg_inv_def set_id_def skip_def update_facts)

lemma getValueID_Inr:
  "getValueID ra k = Inr n \<longleftrightarrow> (\<exists>x. k = Some x \<and> map_of (ValueMap ra) x = Some n \<and> n \<noteq> no_id)"
  by (auto simp: getValueID_def split: option.splits)

lemma reg_inv_share:
  assumes "reg_inv f S ra" and "map_of (ValueMap ra) k = None" and "k \<in> set (keys f)"
    and "map_of (ValueMap ra) a = Some n" "n \<noteq> no_id"
  shows "a \<notin> SkipMap ra \<Longrightarrow> rep f a = rep f k \<Longrightarrow> reg_inv f S (set_id k n ra)"
    and "(\<And>i. i \<in> set (f_insts f) \<Longrightarrow> k = InstKey (inst_id i) \<Longrightarrow> \<exists>b v. inst_kind i = Cast (BitCast b) v) \<Longrightarrow>
      reg_inv f S (set_id k n (skip k ra))"
  using assms numbering_share[of f S "map_of (ValueMap ra)" "RevValueMap ra" "SkipMap ra" k a n]
  by (auto simp: reg_inv_def set_id_def skip_def update_facts)

section \<open>Every step keeps the invariant\<close>

lemma set_id_same: "map_of (ValueMap ra) k = Some n \<Longrightarrow> set_id k n ra = ra"
proof -
  have "map_of xs k = Some n \<Longrightarrow> AList.update k n xs = xs" for xs by (induction xs) (auto split: if_splits)
  then show "map_of (ValueMap ra) k = Some n \<Longrightarrow> set_id k n ra = ra" by (simp add: set_id_def)
qed

lemma alloc_value_inv:
  assumes inv: "reg_inv f S ra" and wf: "wf_ids f" and i: "i \<in> set (f_insts f)"
    and S: "S \<inter> set (keys f) = {}" and new: "map_of (ValueMap ra) (InstKey (inst_id i)) = None"
    and kind: "\<nexists>b v. inst_kind i = Cast (BitCast b) v" and ok: "alloc_value f i ra = Inr ra'"
  shows "reg_inv f S ra'"
proof -
  let ?k = "InstKey (inst_id i)"
  have key: "?k \<in> set (keys f)" using i by (auto simp: keys_def)
  have slot: "slot_key f (inst_id i) = slot_of f (inst_id i)"
    using find_inst_id[OF wf i] kind by (auto simp: slot_key_def split: kind.splits castop.splits)
  show ?thesis
  proof (cases "slot_of f (inst_id i)")
    case None
    moreover have "?k \<notin> S" using S key by blast
    ultimately show ?thesis using ok slot reg_inv_new_id[OF inv new key, of ?k]
      by (auto simp: alloc_value_def Let_def)
  next
    case (Some a)
    then obtain u v t ai where ai: "inst_id ai = a" "ai \<in> set (f_insts f)"
      "\<exists>t' c. inst_kind ai = Alloca t' c" by (rule slot_ofE)
    have akey: "InstKey a \<in> set (keys f)" using ai by (auto simp: keys_def)
    have ra: "rep f (InstKey a) = InstKey a" using rep_slot[OF wf Some] .
    have rk: "rep f ?k = InstKey a" using slot Some by simp
    define ra1 where "ra1 = (if map_of (ValueMap ra) (InstKey a) = None then new_id (InstKey a) ?k ra else ra)"
    have inv1: "reg_inv f S ra1"
      using reg_inv_new_id[OF inv _ akey _ ra rk] S akey inv by (auto simp: ra1_def)
    from ok Some obtain n where n: "map_of (ValueMap ra1) (InstKey a) = Some n" "n \<noteq> no_id"
      and ra': "ra' = set_id ?k n ra1"
      by (auto simp: alloc_value_def Let_def ra1_def[symmetric] and_then_Inr_iff getValueID_Inr)
    show ?thesis
    proof (cases "a = inst_id i")
      case True
      then show ?thesis using n inv1 ra' set_id_same by simp
    next
      case False
      then have new1: "map_of (ValueMap ra1) ?k = None"
        using new by (auto simp: ra1_def new_id_def update_conv')
      have "InstKey a \<notin> SkipMap ra1"
        using numberingD(7)[of f S _ _ _ ai] inv1 ai n by (fastforce simp: reg_inv_def)
      then show ?thesis using reg_inv_share(1)[OF inv1 new1 key n] ra rk ra' by simp
    qed
  qed
qed

lemma alloc_bitcast_inv:
  assumes inv: "reg_inv f S ra" and wf: "wf_ids f" and i: "i \<in> set (f_insts f)"
    and S: "S \<inter> set (keys f) = {}" and new: "map_of (ValueMap ra) (InstKey (inst_id i)) = None"
    and kind: "inst_kind i = Cast (BitCast b) v" and ok: "alloc_bitcast f i b v ra = Inr ra'"
  shows "reg_inv f S ra'"
proof -
  let ?k = "InstKey (inst_id i)"
  have key: "?k \<in> set (keys f)" using i by (auto simp: keys_def)
  have "rep f ?k = ?k" using find_inst_id[OF wf i] kind by (simp add: slot_key_def)
  then have fresh: "reg_inv f S (new_id ?k ?k ra)" using reg_inv_new_id[OF inv new key] S key by blast
  have "\<exists>b v. inst_kind j = Cast (BitCast b) v" if "j \<in> set (f_insts f)" "?k = InstKey (inst_id j)" for j
    using that i wf kind by (auto simp: distinct_map dest: inj_onD)
  then have "reg_inv f S (set_id ?k n (skip ?k ra))" if "getValueID ra (val_key v) = Inr n" for n
    using reg_inv_share(2)[OF inv new key] that by (auto simp: getValueID_Inr)
  with fresh ok show ?thesis
    by (auto simp: alloc_bitcast_def Let_def and_then_Inr_iff split: if_splits option.splits)
qed

lemma alloc_inst_inv:
  assumes "reg_inv f S ra" and "wf_ids f" and "i \<in> set (f_insts f)" and "S \<inter> set (keys f) = {}"
    and ok: "alloc_inst effects f i ra = Inr ra'"
  shows "reg_inv f S ra'"
proof (cases "map_of (ValueMap ra) (InstKey (inst_id i))")
  case None
  have key: "InstKey (inst_id i) \<in> set (keys f)" using assms(3) by (auto simp: keys_def)
  show ?thesis
    using ok reg_inv_none[OF assms(1) None key] alloc_value_inv[OF assms(1-4) None]
      alloc_bitcast_inv[OF assms(1-4) None] None
    by (auto simp: alloc_inst_def Let_def split: if_splits kind.splits castop.splits)
qed (use assms in \<open>simp add: alloc_inst_def\<close>)

section \<open>The whole function\<close>

lemma alloc_args_state:
  assumes "n \<le> length (f_args f)" and "S \<inter> set (keys f) = {}" and "SkipMap ra = S"
  shows "reg_inv f S (alloc_args n (ra\<lparr>ValueMap := [], RevValueMap := [], ra_id := 0\<rparr>))
     \<and> RevValueMap (alloc_args n (ra\<lparr>ValueMap := [], RevValueMap := [], ra_id := 0\<rparr>)) = map ArgKey [0..<n]
     \<and> fst ` set (ValueMap (alloc_args n (ra\<lparr>ValueMap := [], RevValueMap := [], ra_id := 0\<rparr>))) = ArgKey ` {..<n}"
  using assms(1)
proof (induction n)
  case 0
  have "\<forall>i\<in>set (f_insts f). InstKey (inst_id i) \<notin> S" using assms(2) by (auto simp: keys_def)
  then show ?case using assms(3) by (simp add: alloc_args_def reg_inv_def numbering_def)
next
  case (Suc n)
  let ?a = "alloc_args n (ra\<lparr>ValueMap := [], RevValueMap := [], ra_id := 0\<rparr>)"
  have step: "alloc_args (Suc n) (ra\<lparr>ValueMap := [], RevValueMap := [], ra_id := 0\<rparr>) =
      new_id (ArgKey n) (ArgKey n) ?a"
    by (simp add: alloc_args_def)
  have IH: "reg_inv f S ?a" "RevValueMap ?a = map ArgKey [0..<n]" "fst ` set (ValueMap ?a) = ArgKey ` {..<n}"
    using Suc by auto
  have new: "map_of (ValueMap ?a) (ArgKey n) = None" unfolding map_of_eq_None_iff IH(3) by auto
  have key: "ArgKey n \<in> set (keys f)" using Suc.prems by (simp add: keys_def)
  have "reg_inv f S (new_id (ArgKey n) (ArgKey n) ?a)"
    using reg_inv_new_id[OF IH(1) new key, of "ArgKey n"] key assms(2) by fastforce
  moreover have "length (RevValueMap ?a) = ra_id ?a" using IH(1) by (simp add: reg_inv_def)
  ultimately show ?case unfolding step using IH(2,3) by (auto simp: new_id_def fst_update)
qed

lemma alloc_inst_Rev:
  assumes "alloc_inst effects f i ra = Inr ra'"
  shows "\<exists>xs. RevValueMap ra' = RevValueMap ra @ xs"
  using assms by (auto simp: alloc_inst_def alloc_value_def alloc_bitcast_def new_id_def set_id_def
      skip_def Let_def and_then_Inr_iff split: if_splits kind.splits castop.splits option.splits)

lemma max_from_facts:
  "m0 \<le> max_from K es m0 \<and> (\<forall>(k, n)\<in>set es. k \<notin> K \<and> n \<noteq> no_id \<longrightarrow> n \<le> max_from K es m0)
     \<and> (max_from K es m0 = m0
        \<or> (\<exists>k. (k, max_from K es m0) \<in> set es \<and> k \<notin> K \<and> max_from K es m0 \<noteq> no_id))"
proof (induction es arbitrary: m0)
  case (Cons e es)
  obtain k n where e: "e = (k, n)" by (cases e)
  define m1 where "m1 = (if k \<in> K then m0 else if n = no_id then m0 else if m0 < n then n else m0)"
  have "max_from K (e # es) m0 = max_from K es m1" by (simp add: max_from_def e m1_def)
  moreover have "m0 \<le> m1 \<and> (k \<notin> K \<and> n \<noteq> no_id \<longrightarrow> n \<le> m1)
      \<and> (m1 = m0 \<or> m1 = n \<and> k \<notin> K \<and> n \<noteq> no_id)" by (simp add: m1_def)
  ultimately show ?case using Cons[of m1] e by fastforce
qed (simp add: max_from_def)

lemma reverse_map_matches:
  assumes inv: "reg_inv f S ra" and small: "length (keys f) < no_id"
  shows "buildReverseMap ra = Inr (RevValueMap ra)"
proof -
  have N: "numbering f S (map_of (ValueMap ra)) (RevValueMap ra) (SkipMap ra)"
    and D: "distinct (map fst (ValueMap ra))" and len: "length (RevValueMap ra) = ra_id ra"
    using inv by (auto simp: reg_inv_def)
  note M = max_from_facts[of 0 "SkipMap ra" "ValueMap ra", folded max_id_def]
  have less: "ra_id ra < no_id" using reg_inv_small[OF inv small] .
  have "max_id ra + 1 = ra_id ra" if nz: "max_id ra \<noteq> 0"
  proof -
    from M nz obtain k where "(k, max_id ra) \<in> set (ValueMap ra)" "max_id ra \<noteq> no_id" by auto
    then have "max_id ra < ra_id ra"
      using numberingD(1)[OF N, of k] D len by (fastforce simp: map_of_eq_Some_iff)
    moreover obtain j where "(j, ra_id ra - 1) \<in> set (ValueMap ra)" "j \<notin> SkipMap ra"
      using numberingD(5)[OF N, of "ra_id ra - 1"] len calculation by (auto dest: map_of_SomeD)
    ultimately show ?thesis using M less by fastforce
  qed
  then show ?thesis using len by (auto simp: buildReverseMap_def)
qed


text \<open>A function that adds 1 to its parameter, keeps the sum in a slot and returns it.\<close>

definition slot_sample :: bfunction where
  "slot_sample = \<lparr>f_name = ''inc'', f_args = [IntTy 32], f_ret = IntTy 32, f_structRet = False, f_blocks =
    [[\<lparr>inst_id = 0, inst_ty = PtrTy (IntTy 32), inst_kind = Alloca (IntTy 32) (VConst (IntTy 32) (KInt 32 1))\<rparr>,
      \<lparr>inst_id = 1, inst_ty = IntTy 32, inst_kind = Binary Add (VArg (IntTy 32) 0) (VConst (IntTy 32) (KInt 32 1))\<rparr>,
      \<lparr>inst_id = 2, inst_ty = VoidTy, inst_kind = Store (VInst (IntTy 32) 1) (VInst (PtrTy (IntTy 32)) 0)\<rparr>,
      \<lparr>inst_id = 3, inst_ty = IntTy 32, inst_kind = Load (VInst (PtrTy (IntTy 32)) 0)\<rparr>,
      \<lparr>inst_id = 4, inst_ty = VoidTy, inst_kind = Return (Some (VInst (IntTy 32) 3))\<rparr>]]\<rparr>"

definition slot_result :: regalloc where
  "slot_result = \<lparr>ValueMap = [(ArgKey 0, 0), (InstKey 0, 1), (InstKey 1, 1), (InstKey 2, no_id),
     (InstKey 3, 2), (InstKey 4, no_id)], RevValueMap = [ArgKey 0, InstKey 0, InstKey 3],
     SkipMap = {}, ra_id = 3\<rparr>"

lemma slot_sample_run:
  "runOnFunction_regalloc (\<lambda>_. False) slot_sample \<lparr>ValueMap = [], RevValueMap = [], SkipMap = {}, ra_id = 0\<rparr>
     = Inr slot_result"
  by (simp add: slot_sample_def slot_result_def runOnFunction_regalloc_def f_insts_def alloc_args_def
      alloc_inst_def alloc_value_def slot_of_def users_def find_inst_def new_id_def set_id_def getValueID_def
      no_id_def Let_def)


end
