(* ===== verification/BC_Codec.thy ===== *)
theory BC_Codec
  imports BC_Encode
begin

text \<open>
  The interface between the writer of the bytecode format and its readers: a printer with a
  reader that gives back what was printed and leaves the rest of the stream. The locales
  combine such pairs the way the format does, by writing one after the other, by a choice
  that the first character decides, and by a list whose length is known; they are interpreted
  on the number and string printers of \<^theory_text>\<open>BC_Encode\<close>, and the operand of an instruction
  is their combination.
\<close>

section \<open>Readers of combined formats\<close>

fun read_many :: "(bytes \<Rightarrow> ('a \<times> bytes) option) \<Rightarrow> nat \<Rightarrow> bytes \<Rightarrow> ('a list \<times> bytes) option" where
  "read_many r 0 bs = Some ([], bs)"
| "read_many r (Suc n) bs = (case r bs of None \<Rightarrow> None
     | Some (x, bs') \<Rightarrow> map_option (\<lambda>(xs, rest). (x # xs, rest)) (read_many r n bs'))"

definition read_pair :: "(bytes \<Rightarrow> ('a \<times> bytes) option) \<Rightarrow> (bytes \<Rightarrow> ('b \<times> bytes) option)
    \<Rightarrow> bytes \<Rightarrow> (('a \<times> 'b) \<times> bytes) option" where
  "read_pair r1 r2 bs = (case r1 bs of None \<Rightarrow> None
     | Some (x, bs') \<Rightarrow> map_option (\<lambda>(y, rest). ((x, y), rest)) (r2 bs'))"

definition read_choice :: "(bytes \<Rightarrow> ('a \<times> bytes) option) \<Rightarrow> (bytes \<Rightarrow> ('b \<times> bytes) option)
    \<Rightarrow> bytes \<Rightarrow> (('a + 'b) \<times> bytes) option" where
  "read_choice r1 r2 bs = (case r1 bs of Some (x, rest) \<Rightarrow> Some (Inl x, rest)
     | None \<Rightarrow> map_option (\<lambda>(y, rest). (Inr y, rest)) (r2 bs))"

section \<open>The interface\<close>

locale codec =
  fixes ok :: "'a \<Rightarrow> bool" and print :: "'a \<Rightarrow> out" and read :: "bytes \<Rightarrow> ('a \<times> bytes) option"
  assumes read_print: "ok x \<Longrightarrow> print x = Inr bs \<Longrightarrow> read (bs @ rest) = Some (x, rest)"
begin

lemma prefix_free: "ok x \<Longrightarrow> ok y \<Longrightarrow> print x = Inr bs \<Longrightarrow> print y = Inr (bs @ cs) \<Longrightarrow> x = y"
  using read_print[of x bs cs] read_print[of y "bs @ cs" "[]"] by simp

lemma read_many_print:
  "list_all ok xs \<Longrightarrow> outs (map print xs) = Inr bs \<Longrightarrow> read_many read (length xs) (bs @ rest) = Some (xs, rest)"
proof (induction xs arbitrary: bs)
  case (Cons x xs)
  then obtain b cs where "print x = Inr b" "outs (map print xs) = Inr cs" "bs = b @ cs"
    by (auto elim: outs_Cons_InrE)
  with Cons read_print[of x b "cs @ rest"] show ?case by simp
qed simp

end

text \<open>One after the other, and a choice: a second sort of text that the first reader refuses.\<close>

locale two_codecs = first: codec ok1 print1 read1 + second: codec ok2 print2 read2
  for ok1 :: "'a \<Rightarrow> bool" and print1 and read1 and ok2 :: "'b \<Rightarrow> bool" and print2 and read2
begin

lemma read_pair_print:
  assumes "ok1 x" "ok2 y" and "outs [print1 x, print2 y] = Inr bs"
  shows "read_pair read1 read2 (bs @ rest) = Some ((x, y), rest)"
proof -
  from assms(3) obtain b c where "print1 x = Inr b" "print2 y = Inr c" "bs = b @ c"
    by (auto elim!: outs_Cons_InrE)
  with assms(1,2) first.read_print[of x b "c @ rest"] second.read_print[of y c rest]
  show ?thesis by (simp add: read_pair_def)
qed

end

sublocale two_codecs \<subseteq> pair: codec "\<lambda>(x, y). ok1 x \<and> ok2 y" "\<lambda>(x, y). outs [print1 x, print2 y]"
    "read_pair read1 read2"
  by unfold_locales (auto simp: read_pair_print split: prod.splits)

locale disjoint_codecs = two_codecs +
  assumes disjoint: "ok2 y \<Longrightarrow> print2 y = Inr bs \<Longrightarrow> read1 (bs @ rest) = None"
begin

lemma read_choice_print:
  "case_sum ok1 ok2 x \<Longrightarrow> case_sum print1 print2 x = Inr bs \<Longrightarrow>
     read_choice read1 read2 (bs @ rest) = Some (x, rest)"
  using first.read_print second.read_print disjoint
  by (cases x) (auto simp: read_choice_def)

end

sublocale disjoint_codecs \<subseteq> choice: codec "case_sum ok1 ok2" "case_sum print1 print2" "read_choice read1 read2"
  by unfold_locales (rule read_choice_print)

section \<open>Sequences of different items\<close>

text \<open>
  A record of the format is a fixed sequence of items: \<open>r\<close> reads an item of a given sort.
  A text prints an item when, if it is printed at all, the item is defined and reads back.
\<close>

fun read_items :: "('f \<Rightarrow> bytes \<Rightarrow> ('i \<times> bytes) option) \<Rightarrow> 'f list \<Rightarrow> bytes \<Rightarrow> ('i list \<times> bytes) option" where
  "read_items r [] bs = Some ([], bs)"
| "read_items r (F # Fs) bs = (case r F bs of None \<Rightarrow> None
     | Some (x, bs') \<Rightarrow> map_option (\<lambda>(xs, rest). (x # xs, rest)) (read_items r Fs bs'))"

definition prints_item :: "('f \<Rightarrow> bytes \<Rightarrow> ('i \<times> bytes) option) \<Rightarrow> out \<Rightarrow> 'f \<Rightarrow> 'i option \<Rightarrow> bool" where
  "prints_item r t F it \<longleftrightarrow> (\<forall>bs. t = Inr bs \<longrightarrow>
     (\<exists>x. it = Some x \<and> (\<forall>rest. r F (bs @ rest) = Some (x, rest))))"

lemma read_items_printed:
  assumes "\<forall>(t, F, it)\<in>set ps. prints_item r t F it" and "outs (map fst ps) = Inr bs"
  shows "\<exists>xs. those (map (\<lambda>p. snd (snd p)) ps) = Some xs
     \<and> read_items r (map (\<lambda>p. fst (snd p)) ps) (bs @ rest) = Some (xs, rest)"
  using assms
proof (induction ps arbitrary: bs)
  case (Cons p ps)
  obtain t F it where p: "p = (t, F, it)" by (cases p)
  from Cons.prems(2) obtain b cs where b: "t = Inr b" and cs: "outs (map fst ps) = Inr cs" and bs: "bs = b @ cs"
    by (auto simp: p elim: outs_Cons_InrE)
  from b Cons.prems(1) obtain x where x: "it = Some x" "r F (b @ cs @ rest) = Some (x, cs @ rest)"
    by (auto simp: p prints_item_def)
  from Cons.IH[OF _ cs] Cons.prems(1) obtain xs where
    "those (map (\<lambda>p. snd (snd p)) ps) = Some xs"
    "read_items r (map (\<lambda>p. fst (snd p)) ps) (cs @ rest) = Some (xs, rest)" by auto
  with x show ?case by (simp add: p bs)
qed simp

section \<open>The printers of numbers and data\<close>

definition readFixed :: "nat \<Rightarrow> bytes \<Rightarrow> (uint32_t \<times> bytes) option" where
  "readFixed k bs = map_option (\<lambda>(n, rest). (ucast n, rest)) (readFixedNumber k bs)"

lemma ucast_up_down: "ucast (ucast n :: uint64_t) = (n :: uint32_t)"
  by (rule bit_word_eqI) (simp add: bit_simps)

interpretation number: codec "\<lambda>_. True" "\<lambda>n. printNumber n False" readNumber
  by unfold_locales (rule readNumber_printNumber)

interpretation constnum: codec "\<lambda>_. True" "\<lambda>n. printNumber n True" readConstant
  by unfold_locales (rule readConstant_printNumber)

interpretation fixednum: codec "\<lambda>_. True" "\<lambda>n. printFixedNumber n k" "readFixed k" for k
  by unfold_locales (auto simp: readFixed_def readFixedNumber_print ucast_up_down)

interpretation constdata: codec "\<lambda>s. length s < 2 ^ 64" printConstData readConstData
  by unfold_locales (rule readConstData_print)

text \<open>A plain number never reads as a constant.\<close>

lemma readConstant_plain: "printNumber n False = Inr bs \<Longrightarrow> readConstant (bs @ rest) = None"
proof -
  assume "printNumber n False = Inr bs"
  then obtain b ds where bs: "bs = b # ds" "b = 0x60 OR of_nat (length (nibbles n))"
    by (auto simp: printNumber_def Let_def)
  have "unat (of_nat (length (nibbles n)) :: uint8_t) \<le> 16"
    using length_nibbles_16[of n] by (simp add: unsigned_of_nat take_bit_nat_eq_self)
  then have "\<not> b \<le> 0x40 + 16"
    unfolding bs prefix_char[OF length_nibbles_16] by (simp add: word_le_nat_alt unat_word_ariths(1))
  then show ?thesis by (simp add: bs(1) readConstant_def readPrefixed_def)
qed

section \<open>Operands\<close>

text \<open>
  An operand is the number of a value, or a constant with its size in bytes, where size 0
  stands for a global variable.
\<close>

type_synonym operand = "(uint64_t \<times> uint32_t) + uint64_t"

definition readOperand :: "bytes \<Rightarrow> (operand \<times> bytes) option" where
  "readOperand = read_choice (read_pair readConstant (readFixed 1)) readNumber"

interpretation immediate: two_codecs "\<lambda>_. True" "\<lambda>n. printNumber n True" readConstant
    "\<lambda>_. True" "\<lambda>n. printFixedNumber n 1" "readFixed 1"
  by unfold_locales

interpretation operand: disjoint_codecs "\<lambda>(_, _). True \<and> True"
    "\<lambda>(v, w). outs [printNumber v True, printFixedNumber w 1]"
    "read_pair readConstant (readFixed 1)" "\<lambda>_. True" "\<lambda>n. printNumber n False" readNumber
  by unfold_locales (auto simp: read_pair_def readConstant_plain immediate.read_pair_print)

lemma readOperand_immediate:
  "outs [printNumber v True, printFixedNumber w 1] = Inr bs \<Longrightarrow> readOperand (bs @ rest) = Some (Inl (v, w), rest)"
  unfolding readOperand_def using operand.read_choice_print[of "Inl (v, w)"] by simp

lemma readOperand_number:
  "printNumber n False = Inr bs \<Longrightarrow> readOperand (bs @ rest) = Some (Inr n, rest)"
  unfolding readOperand_def using operand.read_choice_print[of "Inr n"] by simp

end
