(* ===== verification/BC_Instr.thy ===== *)
theory BC_Instr
  imports BC_Analysis BC_RegAlloc BC_Codec
begin

text \<open>
  How one instruction is written: the visitors of \<^verbatim>\<open>ClamBCWriter\<close> in
  \<^verbatim>\<open>libclambcc/ClamBCWriter.cpp\<close>, from operands and types to whole instructions, with
  every condition that stops the compilation.
\<close>

section \<open>Context and lookups\<close>

text \<open>
  What a visitor sees beside the instruction: the analysis of the module with its map
  \<^verbatim>\<open>CEMap\<close> from constant expressions to helper globals, the value numbers of the
  function, and the minimum functionality level. \<open>wc_strip\<close> is LLVM's
  \<^verbatim>\<open>stripPointerCasts\<close>.
\<close>

record wctx =
  wc_an :: analysis
  wc_CEMap :: "konst \<rightharpoonup> string"
  wc_ra :: regalloc
  wc_fun :: bfunction
  wc_minflvl :: nat
  wc_strip :: "val \<Rightarrow> val"

definition lookup_id :: "('k \<rightharpoonup> nat) \<Rightarrow> 'k \<Rightarrow> string \<Rightarrow> wr_error + nat" where
  "lookup_id m k msg = (case m k of None \<Rightarrow> Inl (Failed msg) | Some n \<Rightarrow> Inr n)"

definition getTypeID :: "analysis \<Rightarrow> ty \<Rightarrow> wr_error + nat" where
  "getTypeID a t = lookup_id (typeIDs a) t ''Type ID requested for unknown type''"

definition getGlobalID :: "analysis \<Rightarrow> string \<Rightarrow> wr_error + nat" where
  "getGlobalID a g = lookup_id (globals a) g ''Requested ID for non-existent global?''"

definition getGlobalID_CE :: "wctx \<Rightarrow> konst \<Rightarrow> wr_error + nat" where
  "getGlobalID_CE ctx c = (case wc_CEMap ctx c of
       None \<Rightarrow> Inl (Failed ''Requested ID for non-existent constant expr'')
     | Some g \<Rightarrow> getGlobalID (wc_an ctx) g)"

definition getExternalID :: "analysis \<Rightarrow> string \<Rightarrow> wr_error + nat" where
  "getExternalID a f = lookup_id (apiCalls a) f ''Function ID requested for unknown external function''"

definition getFunctionID :: "analysis \<Rightarrow> string \<Rightarrow> wr_error + nat" where
  "getFunctionID a f = lookup_id (functionIDs a) f ''Function ID requested for unknown function''"

section \<open>Types and operands\<close>

definition printType :: "wctx \<Rightarrow> ty \<Rightarrow> out" where
  "printType ctx t = outs
     [stop_if (isIntegerTy t \<and> t \<notin> {IntTy 1, IntTy 8, IntTy 16, IntTy 32, IntTy 64})
        ''integer types of widths other than 1, 8, 16, 32, 64'',
      stop_if (t = FloatTy) ''does not support floating point types'',
      and_then (getTypeID (wc_an ctx) t) (\<lambda>n. outs
        [assert_that (n < 32768) ''At most 32k types are supported'', printNumber (of_nat n) False])]"

text \<open>\<^verbatim>\<open>Constant::getNullValue\<close>.\<close>

fun null_value :: "ty \<Rightarrow> konst" where
  "null_value (IntTy w) = KInt w 0"
| "null_value (PtrTy t) = KNull (PtrTy t)"
| "null_value FloatTy = KFloat True"
| "null_value t = KZero t"

fun printConstantOperand :: "wctx \<Rightarrow> konst \<Rightarrow> out" where
  "printConstantOperand ctx (KInt w v) = outs
     [stop_if (64 < w) ''Integers of more than 64-bits are not supported'',
      printNumber (of_nat v) True, printFixedNumber (of_nat ((w + 7) div 8)) 1]"
| "printConstantOperand ctx (KGlobal g) = outs
     [and_then (getGlobalID (wc_an ctx) g) (\<lambda>n. printNumber (of_nat n) True), printFixedNumber 0 1]"
| "printConstantOperand ctx (KExpr op t cs) = outs
     [stop_if (op = CE_IntToPtr) ''Cast of integer to pointer not supported'',
      and_then (getGlobalID_CE ctx (KExpr op t cs)) (\<lambda>n. printNumber (of_nat n) True), printFixedNumber 0 1]"
| "printConstantOperand ctx (KNull t) = outs [printNumber 0 True, printFixedNumber 0 1]"
| "printConstantOperand ctx _ = Inl (Failed ''Unhandled constant type'')"

fun printOperand :: "wctx \<Rightarrow> val \<Rightarrow> out" where
  "printOperand ctx (VConst t (KUndef t')) = printConstantOperand ctx (null_value t)"
| "printOperand ctx (VConst t c) = printConstantOperand ctx c"
| "printOperand ctx v = and_then (getValueID (wc_ra ctx) (val_key v)) (\<lambda>n. printNumber (of_nat n) False)"

definition printOp :: "bc_opcode \<Rightarrow> out" where
  "printOp op = printFixedNumber (of_nat (opcode_num op)) 2"

section \<open>Visitors\<close>

fun isGlobalVariable :: "val \<Rightarrow> bool" where
  "isGlobalVariable (VConst t (KGlobal g)) = True"
| "isGlobalVariable _ = False"

fun isConstantExpr :: "val \<Rightarrow> bool" where
  "isConstantExpr (VConst t (KExpr op t' cs)) = True"
| "isConstantExpr _ = False"

fun isZeroInt :: "val \<Rightarrow> bool" where
  "isZeroInt (VConst t (KInt w v)) = (v = 0)"
| "isZeroInt _ = False"

definition visitGetElementPtrInst :: "wctx \<Rightarrow> val \<Rightarrow> val list \<Rightarrow> out" where
  "visitGetElementPtrInst ctx p ixs = outs
     [assert_that (ixs \<noteq> []) ''GEP without indices?'',
      stop_if (15 < length ixs) ''Too many levels of pointer indexing, at most 15 is supported!'',
      (case ixs of
        [ix] \<Rightarrow> outs
          [printOp OP_BC_GEP1,
           assert_that (\<not> isGlobalVariable p \<and> \<not> isConstantExpr p) ''would hit libclamav interpreter bug'',
           and_then (getTypeID (wc_an ctx) (val_ty p)) (\<lambda>iid.
             assert_that (iid \<le> 65) ''gep1 with type > 65 will not work on interpreter''),
           printType ctx (val_ty p), printOperand ctx p, printOperand ctx ix]
      | [ix0, ix1] \<Rightarrow>
          if isZeroInt ix0 then outs
            [assert_that (\<not> isGlobalVariable p \<and> \<not> isConstantExpr p) ''would hit libclamav interpreter bug'',
             printOp OP_BC_GEPZ, printType ctx (val_ty p), printOperand ctx p, printOperand ctx ix1]
          else Inl (Failed ''GEPN'')
      | _ \<Rightarrow> Inl (Failed ''GEPN''))]"

definition isAlloca :: "wctx \<Rightarrow> val \<Rightarrow> bool" where
  "isAlloca ctx v \<longleftrightarrow> (case find_inst (wc_fun ctx) v of
     Some i \<Rightarrow> (case inst_kind i of Alloca t n \<Rightarrow> True | _ \<Rightarrow> False) | None \<Rightarrow> False)"

definition isGEP :: "wctx \<Rightarrow> val \<Rightarrow> bool" where
  "isGEP ctx v \<longleftrightarrow> (case find_inst (wc_fun ctx) v of
     Some i \<Rightarrow> (case inst_kind i of GetElementPtr p is \<Rightarrow> True | _ \<Rightarrow> False) | None \<Rightarrow> False)"

definition isBitCast :: "wctx \<Rightarrow> val \<Rightarrow> bool" where
  "isBitCast ctx v \<longleftrightarrow> (case find_inst (wc_fun ctx) v of
     Some i \<Rightarrow> (case inst_kind i of Cast (BitCast b) x \<Rightarrow> True | _ \<Rightarrow> False) | None \<Rightarrow> False)"

definition isArgument :: "wctx \<Rightarrow> val \<Rightarrow> bool" where
  "isArgument ctx v \<longleftrightarrow> (case v of VArg t n \<Rightarrow> n < length (f_args (wc_fun ctx)) | _ \<Rightarrow> False)"

definition visitLoadInst :: "wctx \<Rightarrow> inst \<Rightarrow> val \<Rightarrow> out" where
  "visitLoadInst ctx i p =
     (if isAlloca ctx p \<or> isGlobalVariable p
      then outs [printOp OP_BC_COPY, printOperand ctx p, printOperand ctx (VInst (inst_ty i) (inst_id i))]
      else outs [printOp OP_BC_LOAD, printOperand ctx p])"

definition visitStoreInst :: "wctx \<Rightarrow> val \<Rightarrow> val \<Rightarrow> out" where
  "visitStoreInst ctx x p =
     (if isGEP ctx p \<or> isBitCast ctx p then outs [printOp OP_BC_STORE, printOperand ctx x, printOperand ctx p]
      else let v = wc_strip ctx p in
        if isAlloca ctx v \<or> isGlobalVariable v
        then outs [printOp OP_BC_COPY, printOperand ctx x, printOperand ctx v]
        else if isGEP ctx v then outs [printOp OP_BC_STORE, printOperand ctx x, printOperand ctx v]
        else if isArgument ctx v then outs [printOp OP_BC_COPY, printOperand ctx x, printOperand ctx v]
        else outs [printOp OP_BC_STORE, printOperand ctx x, printOperand ctx v])"

text \<open>The table \<^verbatim>\<open>opcodecvt\<close>, where an entry 0 is an instruction without an opcode.\<close>

fun opcodecvt_binop :: "binop \<Rightarrow> bc_opcode option" where
  "opcodecvt_binop Add = Some OP_BC_ADD"
| "opcodecvt_binop Sub = Some OP_BC_SUB"
| "opcodecvt_binop Mul = Some OP_BC_MUL"
| "opcodecvt_binop UDiv = Some OP_BC_UDIV"
| "opcodecvt_binop SDiv = Some OP_BC_SDIV"
| "opcodecvt_binop URem = Some OP_BC_UREM"
| "opcodecvt_binop SRem = Some OP_BC_SREM"
| "opcodecvt_binop Shl = Some OP_BC_SHL"
| "opcodecvt_binop LShr = Some OP_BC_LSHR"
| "opcodecvt_binop AShr = Some OP_BC_ASHR"
| "opcodecvt_binop And = Some OP_BC_AND"
| "opcodecvt_binop Or = Some OP_BC_OR"
| "opcodecvt_binop Xor = Some OP_BC_XOR"
| "opcodecvt_binop FloatOp = None"

fun opcodecvt :: "kind \<Rightarrow> bc_opcode option" where
  "opcodecvt (Binary op a b) = opcodecvt_binop op"
| "opcodecvt (Cast Trunc a) = Some OP_BC_TRUNC"
| "opcodecvt (Cast SExt a) = Some OP_BC_SEXT"
| "opcodecvt (Cast ZExt a) = Some OP_BC_ZEXT"
| "opcodecvt (Return v) = Some OP_BC_RET"
| "opcodecvt (Select c a b) = Some OP_BC_SELECT"
| "opcodecvt _ = None"

definition HandleOpcodes :: "wctx \<Rightarrow> kind \<Rightarrow> bool \<Rightarrow> out" where
  "HandleOpcodes ctx k printTy = outs (
     assert_that (length (operands k) < 16) ''At most 15 operands are supported!'' #
     (case opcodecvt k of None \<Rightarrow> [Inl (Stop ''Instruction is not mapped'')]
      | Some mapped \<Rightarrow>
          [assert_that (operand_counts ! opcode_num mapped = length (operands k)) ''Operand count mismatch'',
           printOp mapped] @
          concat (map (\<lambda>v. if printTy then [printType ctx (val_ty v), printOperand ctx v]
                          else [printOperand ctx v]) (operands k))))"

definition visitCastInst :: "wctx \<Rightarrow> inst \<Rightarrow> castop \<Rightarrow> val \<Rightarrow> out" where
  "visitCastInst ctx i op v =
     (if op = BitCast True
      then outs [printOp OP_BC_GEPZ, printType ctx (val_ty v), printOperand ctx v,
                 printNumber 0 True, printFixedNumber 4 1]
      else if op = PtrToInt \<and> inst_ty i = IntTy 64
      then outs [printOp OP_BC_PTRTOINT64, printOperand ctx v]
      else HandleOpcodes ctx (inst_kind i) False)"

text \<open>A block number outside the function is an entry the map makes up as 0.\<close>

definition printBasicBlockID :: "wctx \<Rightarrow> nat \<Rightarrow> out" where
  "printBasicBlockID ctx b =
     (let bbid = (if b < length (f_blocks (wc_fun ctx)) then b else 0)
      in outs [assert_that (bbid \<noteq> 0) ''Unknown basicblock?'', printNumber (of_nat bbid) False])"

text \<open>The operand of a value that is a cast from a pointer to an integer.\<close>

definition ptrToInt_operand :: "wctx \<Rightarrow> val \<Rightarrow> val option" where
  "ptrToInt_operand ctx v = (case find_inst (wc_fun ctx) v of
     Some i \<Rightarrow> (case inst_kind i of Cast PtrToInt p \<Rightarrow> Some p | _ \<Rightarrow> None) | None \<Rightarrow> None)"

definition visitBinaryOperator :: "wctx \<Rightarrow> inst \<Rightarrow> binop \<Rightarrow> val \<Rightarrow> val \<Rightarrow> out" where
  "visitBinaryOperator ctx i op a b = outs
     [assert_that (\<not> isPointerTy (inst_ty i)) ''!isa<PointerType>(I.getType())'',
      (case (ptrToInt_operand ctx a, ptrToInt_operand ctx b) of
         (Some l, Some r) \<Rightarrow>
           if op = Sub \<and> inst_ty i = IntTy 32
           then outs [printOp OP_BC_PTRDIFF32, printOperand ctx l, printOperand ctx r]
           else HandleOpcodes ctx (inst_kind i) False
       | _ \<Rightarrow> HandleOpcodes ctx (inst_kind i) False)]"

fun icmp_opcode :: "pred \<Rightarrow> bc_opcode option" where
  "icmp_opcode ICMP_EQ = Some OP_BC_ICMP_EQ"
| "icmp_opcode ICMP_NE = Some OP_BC_ICMP_NE"
| "icmp_opcode ICMP_UGT = Some OP_BC_ICMP_UGT"
| "icmp_opcode ICMP_UGE = Some OP_BC_ICMP_UGE"
| "icmp_opcode ICMP_ULT = Some OP_BC_ICMP_ULT"
| "icmp_opcode ICMP_ULE = Some OP_BC_ICMP_ULE"
| "icmp_opcode ICMP_SGT = Some OP_BC_ICMP_SGT"
| "icmp_opcode ICMP_SGE = Some OP_BC_ICMP_SGE"
| "icmp_opcode ICMP_SLE = Some OP_BC_ICMP_SLE"
| "icmp_opcode ICMP_SLT = Some OP_BC_ICMP_SLT"
| "icmp_opcode BAD_PREDICATE = None"

definition FUNC_LEVEL_098_5 :: nat where
  "FUNC_LEVEL_098_5 = (case enum_value lib_FunctionalityLevels ''FUNC_LEVEL_098_5'' of Some v \<Rightarrow> nat v | None \<Rightarrow> 0)"

definition visitICmpInst :: "wctx \<Rightarrow> pred \<Rightarrow> val \<Rightarrow> val \<Rightarrow> out" where
  "visitICmpInst ctx p a b =
     (case icmp_opcode p of None \<Rightarrow> Inl (Stop ''Unsupported icmp predicate'')
      | Some opc \<Rightarrow> outs
          [stop_if (p = ICMP_SLE \<and> wc_minflvl ctx < FUNC_LEVEL_098_5)
             ''Instruction opcode 29 (signed less than or equal to) is not supported'',
           printOp opc, printType ctx (val_ty a), printOperand ctx a, printOperand ctx b])"

fun bswap_opcode :: "ty \<Rightarrow> bc_opcode option" where
  "bswap_opcode (IntTy w) = (if w = 16 then Some OP_BC_BSWAP16 else if w = 32 then Some OP_BC_BSWAP32
     else if w = 64 then Some OP_BC_BSWAP64 else None)"
| "bswap_opcode _ = None"

text \<open>The arguments of a call are its operands but the last, which is the function.\<close>

definition visitIntrinsic :: "wctx \<Rightarrow> inst \<Rightarrow> intrinsic \<Rightarrow> val list \<Rightarrow> out" where
  "visitIntrinsic ctx i iid args =
     (let mem = (\<lambda>op. outs (assert_that (length args = 4) ''CI.getNumOperands() == 5'' # printOp op
                  # map (printOperand ctx) (take 3 args)))
      in case iid of
        I_memset \<Rightarrow> mem OP_BC_MEMSET
      | I_memcpy \<Rightarrow> mem OP_BC_MEMCPY
      | I_memmove \<Rightarrow> mem OP_BC_MEMMOVE
      | I_bswap \<Rightarrow> outs (assert_that (length args = 1) ''CI.getNumOperands() == 2''
          # (case bswap_opcode (inst_ty i) of None \<Rightarrow> Inl (Stop ''Unsupported bswap bitwidth'')
             | Some op \<Rightarrow> printOp op)
          # map (printOperand ctx) (take 1 args))
      | I_other \<Rightarrow> Inl (Stop ''Unsupported intrinsic call ''))"

definition visitCallInst :: "wctx \<Rightarrow> inst \<Rightarrow> callee \<Rightarrow> val list \<Rightarrow> out" where
  "visitCallInst ctx i F args =
     (if \<not> fn_sameCallingConv F then Inl (Stop ''Calling conventions do not match!'')
      else if fn_isVarArg F then Inl (Stop ''Calls to vararg functions are not supported!'')
      else if fn_isDeclaration F \<and> fn_name F = ''__is_bigendian'' then printOp OP_BC_ISBIGENDIAN
      else if fn_isDeclaration F \<and> fn_name F = ''abort'' then printOp OP_BC_ABORT
      else case fn_intrinsic F of Some iid \<Rightarrow> visitIntrinsic ctx i iid args
      | None \<Rightarrow>
          if fn_isDeclaration F \<and> fn_name F = ''memcmp''
          then outs (printOp OP_BC_MEMCMP # map (printOperand ctx) (take 3 args))
          else if fn_isDeclaration F
          then and_then (getExternalID (wc_an ctx) (fn_name F)) (\<lambda>n. outs
            ([printOp OP_BC_CALL_API, printFixedNumber (of_nat (fn_arg_size F)) 1, printNumber (of_nat n) False]
             @ map (printOperand ctx) args))
          else outs
            ([printOp OP_BC_CALL_DIRECT, stop_if (255 < fn_arg_size F) ''Calls can have max 15 parameters'',
              printFixedNumber (of_nat (fn_arg_size F)) 1,
              and_then (getFunctionID (wc_an ctx) (fn_name F)) (\<lambda>n. printNumber (of_nat n) False)]
             @ map (printOperand ctx) args))"

definition visit :: "wctx \<Rightarrow> inst \<Rightarrow> out" where
  "visit ctx i = (case inst_kind i of
       Binary op a b \<Rightarrow> visitBinaryOperator ctx i op a b
     | Cast op v \<Rightarrow> visitCastInst ctx i op v
     | Select c a b \<Rightarrow> HandleOpcodes ctx (inst_kind i) False
     | ICmp p a b \<Rightarrow> visitICmpInst ctx p a b
     | Load p \<Rightarrow> visitLoadInst ctx i p
     | Store x p \<Rightarrow> visitStoreInst ctx x p
     | GetElementPtr p ixs \<Rightarrow> visitGetElementPtrInst ctx p ixs
     | Br b \<Rightarrow> outs [printOp OP_BC_JMP, printBasicBlockID ctx b]
     | CondBr c a b \<Rightarrow>
         outs [printOp OP_BC_BRANCH, printOperand ctx c, printBasicBlockID ctx a, printBasicBlockID ctx b]
     | Switch v \<Rightarrow> Inl (Stop ''ClamAV bytecode backend has not implemented switch statements, please lower '')
     | Return None \<Rightarrow> printOp OP_BC_RET_VOID
     | Return (Some v) \<Rightarrow> HandleOpcodes ctx (inst_kind i) True
     | Unreachable \<Rightarrow> printOp OP_BC_ABORT
     | Call F args \<Rightarrow> visitCallInst ctx i F args
     | IndirectCall p args \<Rightarrow> Inl (Stop ''Indirect calls are not implemented yet!'')
     | InlineAsmCall t args \<Rightarrow> Inl (Stop ''Indirect calls are not implemented yet!'')
     | _ \<Rightarrow> Inl (Stop ''ClamAV bytecode backend does not know about ''))"

end
