(* ===== verification/BC_InstrFormat.thy ===== *)
theory BC_InstrFormat
  imports BC_Instr
begin

text \<open>
  What the text of an instruction means. A reader of the instruction format, driven by one
  table of operand layouts, stands beside the meaning of an instruction as an opcode with the
  items it is applied to; the theorem is that the text the visitors of \<^theory_text>\<open>BC_Instr\<close>
  write reads back as the meaning, so that an instruction that is written can be decoded in
  one way only.
\<close>

section \<open>The instruction format\<close>

text \<open>An item of an instruction is a type, an operand or a plain number.\<close>

datatype item = ITy uint64_t | IOp operand | INum uint64_t

datatype field = FTy | FOp | FNum

fun read_field :: "field \<Rightarrow> bytes \<Rightarrow> (item \<times> bytes) option" where
  "read_field FTy bs = map_option (\<lambda>(n, r). (ITy n, r)) (readNumber bs)"
| "read_field FOp bs = map_option (\<lambda>(x, r). (IOp x, r)) (readOperand bs)"
| "read_field FNum bs = map_option (\<lambda>(n, r). (INum n, r)) (readNumber bs)"

abbreviation read_fields :: "field list \<Rightarrow> bytes \<Rightarrow> (item list \<times> bytes) option" where
  "read_fields \<equiv> read_items read_field"

text \<open>The layout of the opcodes with a fixed number of items; calls carry their own.\<close>

fun opcode_fields :: "bc_opcode \<Rightarrow> field list option" where
  "opcode_fields OP_BC_TRUNC = Some [FOp]"
| "opcode_fields OP_BC_SEXT = Some [FOp]"
| "opcode_fields OP_BC_ZEXT = Some [FOp]"
| "opcode_fields OP_BC_BRANCH = Some [FOp, FNum, FNum]"
| "opcode_fields OP_BC_JMP = Some [FNum]"
| "opcode_fields OP_BC_RET = Some [FTy, FOp]"
| "opcode_fields OP_BC_RET_VOID = Some []"
| "opcode_fields OP_BC_ICMP_EQ = Some [FTy, FOp, FOp]"
| "opcode_fields OP_BC_ICMP_NE = Some [FTy, FOp, FOp]"
| "opcode_fields OP_BC_ICMP_UGT = Some [FTy, FOp, FOp]"
| "opcode_fields OP_BC_ICMP_UGE = Some [FTy, FOp, FOp]"
| "opcode_fields OP_BC_ICMP_ULT = Some [FTy, FOp, FOp]"
| "opcode_fields OP_BC_ICMP_ULE = Some [FTy, FOp, FOp]"
| "opcode_fields OP_BC_ICMP_SGT = Some [FTy, FOp, FOp]"
| "opcode_fields OP_BC_ICMP_SGE = Some [FTy, FOp, FOp]"
| "opcode_fields OP_BC_ICMP_SLE = Some [FTy, FOp, FOp]"
| "opcode_fields OP_BC_ICMP_SLT = Some [FTy, FOp, FOp]"
| "opcode_fields OP_BC_SELECT = Some [FOp, FOp, FOp]"
| "opcode_fields OP_BC_CALL_DIRECT = None"
| "opcode_fields OP_BC_CALL_API = None"
| "opcode_fields OP_BC_GEP1 = Some [FTy, FOp, FOp]"
| "opcode_fields OP_BC_GEPZ = Some [FTy, FOp, FOp]"
| "opcode_fields OP_BC_GEPN = None"
| "opcode_fields OP_BC_LOAD = Some [FOp]"
| "opcode_fields OP_BC_MEMSET = Some [FOp, FOp, FOp]"
| "opcode_fields OP_BC_MEMCPY = Some [FOp, FOp, FOp]"
| "opcode_fields OP_BC_MEMMOVE = Some [FOp, FOp, FOp]"
| "opcode_fields OP_BC_MEMCMP = Some [FOp, FOp, FOp]"
| "opcode_fields OP_BC_ISBIGENDIAN = Some []"
| "opcode_fields OP_BC_ABORT = Some []"
| "opcode_fields OP_BC_BSWAP16 = Some [FOp]"
| "opcode_fields OP_BC_BSWAP32 = Some [FOp]"
| "opcode_fields OP_BC_BSWAP64 = Some [FOp]"
| "opcode_fields OP_BC_PTRTOINT64 = Some [FOp]"
| "opcode_fields OP_BC_INVALID = None"
| "opcode_fields _ = Some [FOp, FOp]"

definition opcode_of :: "uint32_t \<Rightarrow> bc_opcode option" where
  "opcode_of n = find (\<lambda>op. opcode_num op = unat n) bc_opcodes"

definition read_call :: "bytes \<Rightarrow> (item list \<times> bytes) option" where
  "read_call bs = (case readFixed 1 bs of None \<Rightarrow> None
     | Some (n, r) \<Rightarrow> map_option (\<lambda>(xs, r'). (INum (ucast n) # xs, r'))
         (read_fields (FNum # replicate (unat n) FOp) r))"

definition read_inst :: "bytes \<Rightarrow> ((bc_opcode \<times> item list) \<times> bytes) option" where
  "read_inst bs = (case readFixed 2 bs of None \<Rightarrow> None | Some (n, r) \<Rightarrow>
     (case opcode_of n of None \<Rightarrow> None
      | Some op \<Rightarrow> map_option (\<lambda>(xs, r'). ((op, xs), r'))
          (case opcode_fields op of Some Fs \<Rightarrow> read_fields Fs r
           | None \<Rightarrow> if op = OP_BC_CALL_DIRECT \<or> op = OP_BC_CALL_API then read_call r else None)))"

section \<open>The meaning of an instruction\<close>

fun const_operand :: "wctx \<Rightarrow> konst \<Rightarrow> operand option" where
  "const_operand ctx (KInt w v) = Some (Inl (of_nat v, of_nat ((w + 7) div 8)))"
| "const_operand ctx (KGlobal g) = map_option (\<lambda>n. Inl (of_nat n, 0)) (globals (wc_an ctx) g)"
| "const_operand ctx (KExpr op t cs) = (case wc_CEMap ctx (KExpr op t cs) of None \<Rightarrow> None
     | Some g \<Rightarrow> map_option (\<lambda>n. Inl (of_nat n, 0)) (globals (wc_an ctx) g))"
| "const_operand ctx (KNull t) = Some (Inl (0, 0))"
| "const_operand ctx _ = None"

fun value_operand :: "wctx \<Rightarrow> val \<Rightarrow> operand option" where
  "value_operand ctx (VConst t (KUndef t')) = const_operand ctx (null_value t)"
| "value_operand ctx (VConst t c) = const_operand ctx c"
| "value_operand ctx v = (case val_key v of None \<Rightarrow> None
     | Some k \<Rightarrow> map_option (\<lambda>n. Inr (of_nat n)) (map_of (ValueMap (wc_ra ctx)) k))"

abbreviation op_item :: "wctx \<Rightarrow> val \<Rightarrow> item option" where
  "op_item ctx v \<equiv> map_option IOp (value_operand ctx v)"

abbreviation ty_item :: "wctx \<Rightarrow> ty \<Rightarrow> item option" where
  "ty_item ctx t \<equiv> map_option (\<lambda>n. ITy (of_nat n)) (typeIDs (wc_an ctx) t)"

definition call_meaning :: "wctx \<Rightarrow> inst \<Rightarrow> callee \<Rightarrow> val list \<Rightarrow> (bc_opcode \<times> item option list) option" where
  "call_meaning ctx i F args =
     (if fn_isDeclaration F \<and> fn_name F = ''__is_bigendian'' then Some (OP_BC_ISBIGENDIAN, [])
      else if fn_isDeclaration F \<and> fn_name F = ''abort'' then Some (OP_BC_ABORT, [])
      else case fn_intrinsic F of
        Some I_memset \<Rightarrow> Some (OP_BC_MEMSET, map (op_item ctx) (take 3 args))
      | Some I_memcpy \<Rightarrow> Some (OP_BC_MEMCPY, map (op_item ctx) (take 3 args))
      | Some I_memmove \<Rightarrow> Some (OP_BC_MEMMOVE, map (op_item ctx) (take 3 args))
      | Some I_bswap \<Rightarrow> map_option (\<lambda>op. (op, map (op_item ctx) args)) (bswap_opcode (inst_ty i))
      | Some I_other \<Rightarrow> None
      | None \<Rightarrow>
          if fn_isDeclaration F \<and> fn_name F = ''memcmp'' then Some (OP_BC_MEMCMP, map (op_item ctx) (take 3 args))
          else let ids = (if fn_isDeclaration F then apiCalls (wc_an ctx) else functionIDs (wc_an ctx))
            in Some (if fn_isDeclaration F then OP_BC_CALL_API else OP_BC_CALL_DIRECT,
                 Some (INum (of_nat (length args))) # map_option (\<lambda>n. INum (of_nat n)) (ids (fn_name F))
                 # map (op_item ctx) args))"

definition store_meaning :: "wctx \<Rightarrow> val \<Rightarrow> val \<Rightarrow> bc_opcode \<times> item option list" where
  "store_meaning ctx x p =
     (if isGEP ctx p \<or> isBitCast ctx p then (OP_BC_STORE, [op_item ctx x, op_item ctx p])
      else let v = wc_strip ctx p
        in (if isAlloca ctx v \<or> isGlobalVariable v \<or> isArgument ctx v then OP_BC_COPY else OP_BC_STORE,
            [op_item ctx x, op_item ctx v]))"

definition meaning :: "wctx \<Rightarrow> inst \<Rightarrow> (bc_opcode \<times> item option list) option" where
  "meaning ctx i = (let k = inst_kind i;
       plain = map_option (\<lambda>op. (op, map (op_item ctx) (operands k))) (opcodecvt k)
     in case k of
       Binary op a b \<Rightarrow> (case (ptrToInt_operand ctx a, ptrToInt_operand ctx b) of
           (Some l, Some r) \<Rightarrow> if op = Sub \<and> inst_ty i = IntTy 32
             then Some (OP_BC_PTRDIFF32, [op_item ctx l, op_item ctx r]) else plain
         | _ \<Rightarrow> plain)
     | Cast op v \<Rightarrow>
         if op = BitCast True
         then Some (OP_BC_GEPZ, [ty_item ctx (val_ty v), op_item ctx v, Some (IOp (Inl (0, 4)))])
         else if op = PtrToInt \<and> inst_ty i = IntTy 64 then Some (OP_BC_PTRTOINT64, [op_item ctx v]) else plain
     | Select c a b \<Rightarrow> plain
     | ICmp p a b \<Rightarrow>
         map_option (\<lambda>op. (op, [ty_item ctx (val_ty a), op_item ctx a, op_item ctx b])) (icmp_opcode p)
     | Load p \<Rightarrow> if isAlloca ctx p \<or> isGlobalVariable p
         then Some (OP_BC_COPY, [op_item ctx p, op_item ctx (VInst (inst_ty i) (inst_id i))])
         else Some (OP_BC_LOAD, [op_item ctx p])
     | Store x p \<Rightarrow> Some (store_meaning ctx x p)
     | GetElementPtr p ixs \<Rightarrow> Some (if length ixs = 1 then OP_BC_GEP1 else OP_BC_GEPZ,
         [ty_item ctx (val_ty p), op_item ctx p, op_item ctx (last ixs)])
     | Br b \<Rightarrow> Some (OP_BC_JMP, [Some (INum (of_nat b))])
     | CondBr c a b \<Rightarrow> Some (OP_BC_BRANCH, [op_item ctx c, Some (INum (of_nat a)), Some (INum (of_nat b))])
     | Return None \<Rightarrow> Some (OP_BC_RET_VOID, [])
     | Return (Some v) \<Rightarrow> Some (OP_BC_RET, [ty_item ctx (val_ty v), op_item ctx v])
     | Unreachable \<Rightarrow> Some (OP_BC_ABORT, [])
     | Call F args \<Rightarrow> call_meaning ctx i F args
     | _ \<Rightarrow> None)"

section \<open>Items read back\<close>

abbreviation prints :: "out \<Rightarrow> field \<Rightarrow> item option \<Rightarrow> bool" where
  "prints \<equiv> prints_item read_field"

lemma outs_guards [simp]:
  "outs (assert_that b m # os) = Inr bs \<longleftrightarrow> b \<and> outs os = Inr bs"
  "outs (stop_if c m # os) = Inr bs \<longleftrightarrow> \<not> c \<and> outs os = Inr bs"
  by (auto simp: assert_that_def stop_if_def split: sum.splits)

lemma outs_single [simp]: "outs [t] = t"
  by (cases t) auto

lemma lookup_id_Inr [simp]: "lookup_id m k msg = Inr n \<longleftrightarrow> m k = Some n"
  by (auto simp: lookup_id_def split: option.splits)

lemma prints_number [intro]: "prints (printNumber n False) FNum (Some (INum n))"
  by (auto simp: prints_item_def number.read_print)

lemma prints_type [intro]: "prints (printType ctx t) FTy (ty_item ctx t)"
  by (auto simp: prints_item_def printType_def and_then_Inr_iff getTypeID_def number.read_print)

lemma prints_immediate:
  "prints (outs [printNumber v True, printFixedNumber w 1]) FOp (Some (IOp (Inl (v, w))))"
  by (auto simp: prints_item_def readOperand_immediate simp del: outs.simps)

lemma outs_and_then [simp]:
  "outs (and_then m f # os) = Inr bs \<longleftrightarrow> (\<exists>x. m = Inr x \<and> outs (f x # os) = Inr bs)"
  by (cases m) auto

lemma prints_const: "prints (printConstantOperand ctx c) FOp (map_option IOp (const_operand ctx c))"
  using prints_immediate
  by (cases c) (auto simp: prints_item_def getGlobalID_def getGlobalID_CE_def simp del: outs.simps
      split: option.splits)

lemma prints_operand [intro]: "prints (printOperand ctx v) FOp (op_item ctx v)"
proof (cases v)
  case (VConst t c)
  then show ?thesis using prints_const by (cases c) (simp_all del: printConstantOperand.simps const_operand.simps)
qed (auto simp: prints_item_def and_then_Inr_iff getValueID_Inr readOperand_number)

lemma prints_block [intro]: "prints (printBasicBlockID ctx b) FNum (Some (INum (of_nat b)))"
  using prints_number by (auto simp: prints_item_def printBasicBlockID_def Let_def split: if_splits)

lemma opcode_of_num: "opcode_of (of_nat (opcode_num op)) = Some op"
proof -
  have u: "unat (of_nat (opcode_num op) :: uint32_t) = opcode_num op"
    using opcode_num_range[of op] by (simp add: unsigned_of_nat take_bit_nat_eq_self)
  have "find (\<lambda>x. opcode_num x = opcode_num op) bc_opcodes \<noteq> None"
    using bc_opcodes_UNIV by (auto simp: find_None_iff)
  then obtain x where x: "find (\<lambda>x. opcode_num x = opcode_num op) bc_opcodes = Some x" by auto
  then have "opcode_num x = opcode_num op" by (auto simp: find_Some_iff)
  then have "x = op" using inj_opcode_num by (auto dest: injD)
  with x u show ?thesis by (simp add: opcode_of_def)
qed

text \<open>How an instruction with a fixed layout reads, and a call.\<close>

definition reads_as :: "out \<Rightarrow> (bc_opcode \<times> item option list) option \<Rightarrow> bool" where
  "reads_as t mo \<longleftrightarrow> (\<forall>bs. t = Inr bs \<longrightarrow> (\<exists>op its xs. mo = Some (op, its) \<and> those its = Some xs
     \<and> (\<forall>rest. read_inst (bs @ rest) = Some ((op, xs), rest))))"

lemma reads_as_fixed:
  assumes "opcode_fields op = Some (map (\<lambda>p. fst (snd p)) ps)" and "\<forall>(t, F, it)\<in>set ps. prints t F it"
  shows "reads_as (outs (printOp op # map fst ps)) (Some (op, map (\<lambda>p. snd (snd p)) ps))"
  unfolding reads_as_def
proof (intro allI impI)
  fix bs assume "outs (printOp op # map fst ps) = Inr bs"
  then obtain b cs where b: "printOp op = Inr b" and cs: "outs (map fst ps) = Inr cs" and bs: "bs = b @ cs"
    by (auto elim: outs_Cons_InrE)
  obtain xs where xs: "those (map (\<lambda>p. snd (snd p)) ps) = Some xs"
    using read_items_printed[where r = read_field, OF assms(2) cs] by blast
  have "read_inst (bs @ rest) = Some ((op, xs), rest)" for rest
    using fixednum.read_print[OF TrueI b[unfolded printOp_def], of "cs @ rest"]
      read_items_printed[where r = read_field, OF assms(2) cs, of rest] xs
    by (auto simp: bs read_inst_def opcode_of_num assms(1))
  with xs show "\<exists>op' its xs. Some (op, map (\<lambda>p. snd (snd p)) ps) = Some (op', its) \<and> those its = Some xs
      \<and> (\<forall>rest. read_inst (bs @ rest) = Some ((op', xs), rest))" by blast
qed

lemma reads_as_call:
  assumes "op = OP_BC_CALL_API \<or> op = OP_BC_CALL_DIRECT" and "length args < 2 ^ 32"
  shows "reads_as (outs ([printOp op, printFixedNumber (of_nat (length args)) 1, printNumber fid False]
      @ map (printOperand ctx) args))
    (Some (op, Some (INum (of_nat (length args))) # Some (INum fid) # map (op_item ctx) args))"
  unfolding reads_as_def
proof (intro allI impI)
  let ?ps = "(printNumber fid False, FNum, Some (INum fid)) # map (\<lambda>v. (printOperand ctx v, FOp, op_item ctx v)) args"
  have ps: "\<forall>(t, F, it)\<in>set ?ps. prints t F it" by auto
  have Fs: "map (\<lambda>p. fst (snd p)) ?ps = FNum # replicate (length args) FOp" by (simp add: comp_def map_replicate_const)
  fix bs
  assume "outs ([printOp op, printFixedNumber (of_nat (length args)) 1, printNumber fid False]
      @ map (printOperand ctx) args) = Inr bs"
  then obtain b n cs where b: "printOp op = Inr b" and n: "printFixedNumber (of_nat (length args)) 1 = Inr n"
    and "outs (printNumber fid False # map (printOperand ctx) args) = Inr cs" and bs: "bs = b @ n @ cs"
    by (auto elim!: outs_Cons_InrE)
  then have cs: "outs (map fst ?ps) = Inr cs" by (simp add: comp_def)
  obtain xs where xs: "those (map (\<lambda>p. snd (snd p)) ?ps) = Some xs"
    using read_items_printed[where r = read_field, OF ps cs] by blast
  have len: "unat (of_nat (length args) :: uint32_t) = length args"
    "ucast (of_nat (length args) :: uint32_t) = (of_nat (length args) :: uint64_t)"
    using assms(2) by (simp_all add: unsigned_of_nat take_bit_nat_eq_self word_eq_iff_unsigned unsigned_ucast_eq)
  have fields: "read_fields (FNum # replicate (length args) FOp) (cs @ rest) = Some (xs, rest)" for rest
    using read_items_printed[where r = read_field, OF ps cs, of rest] xs unfolding Fs by auto
  have "read_inst (bs @ rest) = Some ((op, INum (of_nat (length args)) # xs), rest)" for rest
    using fixednum.read_print[OF TrueI b[unfolded printOp_def], of "n @ cs @ rest"]
      fixednum.read_print[OF TrueI n, of "cs @ rest"] fields[of rest] assms(1)
    by (auto simp: bs read_inst_def read_call_def opcode_of_num len simp del: read_items.simps)
  moreover have "those (Some (INum (of_nat (length args))) # Some (INum fid) # map (op_item ctx) args) =
      Some (INum (of_nat (length args)) # xs)"
    using xs by (simp add: comp_def)
  ultimately show "\<exists>op' its xs. Some (op, Some (INum (of_nat (length args))) # Some (INum fid) # map (op_item ctx) args)
      = Some (op', its) \<and> those its = Some xs \<and> (\<forall>rest. read_inst (bs @ rest) = Some ((op', xs), rest))"
    by blast
qed

section \<open>Every visitor\<close>

lemma reads_as_Inl [simp]: "reads_as (Inl e) mo"
  by (simp add: reads_as_def)

lemma reads_as_guards:
  "(b \<Longrightarrow> reads_as (outs os) mo) \<Longrightarrow> reads_as (outs (assert_that b m # os)) mo"
  "(\<not> c \<Longrightarrow> reads_as (outs os) mo) \<Longrightarrow> reads_as (outs (stop_if c m # os)) mo"
  by (auto simp: reads_as_def)

lemma outs_Cons_Inr: "outs (t # os) = Inr bs \<longleftrightarrow> (\<exists>b cs. t = Inr b \<and> outs os = Inr cs \<and> bs = b @ cs)"
  by (cases t) (auto split: sum.splits)

lemma outs_guards_second [simp]:
  "outs (t # assert_that b m # os) = Inr bs \<longleftrightarrow> b \<and> outs (t # os) = Inr bs"
  "outs (t # stop_if c m # os) = Inr bs \<longleftrightarrow> \<not> c \<and> outs (t # os) = Inr bs"
  "outs (t # and_then g f # os) = Inr bs \<longleftrightarrow> (\<exists>x. g = Inr x \<and> outs (t # f x # os) = Inr bs)"
  unfolding outs_Cons_Inr[of t] by auto

lemma reads_as_guards_second:
  "(b \<Longrightarrow> reads_as (outs (t # os)) mo) \<Longrightarrow> reads_as (outs (t # assert_that b m # os)) mo"
  "(\<not> c \<Longrightarrow> reads_as (outs (t # os)) mo) \<Longrightarrow> reads_as (outs (t # stop_if c m # os)) mo"
  "(\<And>x. g = Inr x \<Longrightarrow> reads_as (outs (t # f x # os)) mo) \<Longrightarrow> reads_as (outs (t # and_then g f # os)) mo"
  by (auto simp: reads_as_def)

lemma reads_as_and_then: "(\<And>x. g = Inr x \<Longrightarrow> reads_as (f x) mo) \<Longrightarrow> reads_as (and_then g f) mo"
  by (cases g) auto

text \<open>Opcodes with operands only, and those with a type before them.\<close>

lemma reads_as_ops:
  "opcode_fields op = Some (replicate (length vs) FOp) \<Longrightarrow>
   reads_as (outs (printOp op # map (printOperand ctx) vs)) (Some (op, map (op_item ctx) vs))"
  using reads_as_fixed[of op "map (\<lambda>v. (printOperand ctx v, FOp, op_item ctx v)) vs"] prints_operand
  by (auto simp: comp_def map_replicate_const)

lemma reads_as_typed:
  "opcode_fields op = Some (FTy # replicate (length vs) FOp) \<Longrightarrow>
   reads_as (outs (printOp op # printType ctx t # map (printOperand ctx) vs))
     (Some (op, ty_item ctx t # map (op_item ctx) vs))"
  using reads_as_fixed[of op "(printType ctx t, FTy, ty_item ctx t) #
      map (\<lambda>v. (printOperand ctx v, FOp, op_item ctx v)) vs"] prints_operand prints_type
  by (auto simp: comp_def map_replicate_const)

lemmas reads_as_ops0 = reads_as_ops[of _ "[]", simplified]
lemmas reads_as_ops1 = reads_as_ops[of _ "[a]" for a, simplified]
lemmas reads_as_ops2 = reads_as_ops[of _ "[a, b]" for a b, simplified]
lemmas reads_as_typed1 = reads_as_typed[of _ "[a]" for a, simplified]
lemmas reads_as_typed2 = reads_as_typed[of _ "[a, b]" for a b, simplified]

lemma binop_fields: "opcodecvt_binop b = Some op \<Longrightarrow> opcode_fields op = Some [FOp, FOp]"
  by (cases b) auto

lemma opcodecvt_fields:
  "opcodecvt k = Some op \<Longrightarrow> operand_counts ! opcode_num op = length (operands k) \<Longrightarrow> \<not> (\<exists>v. k = Return v) \<Longrightarrow>
   opcode_fields op = Some (replicate (length (operands k)) FOp)"
  by (erule opcodecvt.elims) (auto intro: binop_fields[OF sym])

lemma HandleOpcodes_reads:
  assumes "\<not> (\<exists>v. k = Return v)"
  shows "reads_as (HandleOpcodes ctx k False) (map_option (\<lambda>op. (op, map (op_item ctx) (operands k))) (opcodecvt k))"
proof (cases "opcodecvt k")
  case (Some op)
  have "concat (map (\<lambda>v. [printOperand ctx v]) vs) = map (printOperand ctx) vs" for vs by (induction vs) simp_all
  with Some show ?thesis
    using opcodecvt_fields[OF Some _ assms] unfolding HandleOpcodes_def
    by (auto intro!: reads_as_guards reads_as_ops)
qed (simp add: HandleOpcodes_def reads_as_def)

lemma visitReturn_reads:
  "reads_as (HandleOpcodes ctx (Return (Some v)) True) (Some (OP_BC_RET, [ty_item ctx (val_ty v), op_item ctx v]))"
  by (auto simp: HandleOpcodes_def intro!: reads_as_guards reads_as_typed1)

lemma visitCast_reads:
  "inst_kind i = Cast op v \<Longrightarrow> reads_as (visitCastInst ctx i op v) (meaning ctx i)"
proof -
  assume k: "inst_kind i = Cast op v"
  let ?ps = "[(printType ctx (val_ty v), FTy, ty_item ctx (val_ty v)), (printOperand ctx v, FOp, op_item ctx v),
     (outs [printNumber 0 True, printFixedNumber 4 1], FOp, Some (IOp (Inl (0, 4))))]"
  have "outs [a, b, c, d, e] = outs [a, b, c, outs [d, e]]" for a b c d e
    using outs_append[of "[a, b, c]" "[d, e]"] outs_append[of "[a, b, c]" "[outs [d, e]]"] by simp
  then have "reads_as (outs [printOp OP_BC_GEPZ, printType ctx (val_ty v), printOperand ctx v,
      printNumber 0 True, printFixedNumber 4 1])
    (Some (OP_BC_GEPZ, [ty_item ctx (val_ty v), op_item ctx v, Some (IOp (Inl (0, 4)))]))"
    using reads_as_fixed[of OP_BC_GEPZ ?ps] prints_immediate prints_type prints_operand by auto
  then show ?thesis
    using HandleOpcodes_reads[of "Cast op v" ctx]
    by (auto simp: visitCastInst_def meaning_def k Let_def intro!: reads_as_ops1)
qed

lemma visitBinary_reads:
  "inst_kind i = Binary op a b \<Longrightarrow> reads_as (visitBinaryOperator ctx i op a b) (meaning ctx i)"
  using HandleOpcodes_reads[of "Binary op a b" ctx]
  by (auto simp: visitBinaryOperator_def meaning_def Let_def intro!: reads_as_guards reads_as_ops2
      split: option.splits)

lemma icmp_fields: "icmp_opcode p = Some op \<Longrightarrow> opcode_fields op = Some [FTy, FOp, FOp]"
  by (erule icmp_opcode.elims) auto

lemma visitICmp_reads:
  "inst_kind i = ICmp p a b \<Longrightarrow> reads_as (visitICmpInst ctx p a b) (meaning ctx i)"
  by (auto simp: visitICmpInst_def meaning_def Let_def icmp_fields intro!: reads_as_guards reads_as_typed2
      split: option.splits)

lemma visitLoad_reads: "inst_kind i = Load p \<Longrightarrow> reads_as (visitLoadInst ctx i p) (meaning ctx i)"
  by (auto simp: visitLoadInst_def meaning_def Let_def simp del: printOperand.simps value_operand.simps
      intro!: reads_as_ops1 reads_as_ops2)

lemma argument_not_GEP: "isArgument ctx v \<Longrightarrow> \<not> isGEP ctx v"
  by (auto simp: isArgument_def isGEP_def find_inst_def split: val.splits)

lemma visitStore_reads: "reads_as (visitStoreInst ctx x p) (Some (store_meaning ctx x p))"
  by (auto simp: visitStoreInst_def store_meaning_def Let_def dest: argument_not_GEP intro!: reads_as_ops2)

lemma visitGEP_reads:
  "inst_kind i = GetElementPtr p ixs \<Longrightarrow> reads_as (visitGetElementPtrInst ctx p ixs) (meaning ctx i)"
  unfolding visitGetElementPtrInst_def
  by (auto simp: meaning_def Let_def intro!: reads_as_guards reads_as_guards_second reads_as_typed2 split: list.splits)

lemma visitJump_reads:
  "reads_as (outs [printOp OP_BC_JMP, printBasicBlockID ctx b]) (Some (OP_BC_JMP, [Some (INum (of_nat b))]))"
  "reads_as (outs [printOp OP_BC_BRANCH, printOperand ctx c, printBasicBlockID ctx a, printBasicBlockID ctx b])
     (Some (OP_BC_BRANCH, [op_item ctx c, Some (INum (of_nat a)), Some (INum (of_nat b))]))"
  using reads_as_fixed[of OP_BC_JMP "[(printBasicBlockID ctx b, FNum, Some (INum (of_nat b)))]"]
    reads_as_fixed[of OP_BC_BRANCH "[(printOperand ctx c, FOp, op_item ctx c),
      (printBasicBlockID ctx a, FNum, Some (INum (of_nat a))), (printBasicBlockID ctx b, FNum, Some (INum (of_nat b)))]"]
  by auto

text \<open>
  LLVM keeps the number of arguments of a call equal to the number of parameters; the
  function \<^verbatim>\<open>memcmp\<close> is taken to be the one of the C library.
\<close>

fun wf_call :: "kind \<Rightarrow> bool" where
  "wf_call (Call F args) = (length args = fn_arg_size F \<and> fn_arg_size F < 2 ^ 32
     \<and> (fn_name F = ''memcmp'' \<longrightarrow> 3 \<le> length args))"
| "wf_call _ = True"

lemma visitIntrinsic_reads:
  assumes "fn_intrinsic F = Some iid"
    and "\<not> (fn_isDeclaration F \<and> (fn_name F = ''__is_bigendian'' \<or> fn_name F = ''abort''))"
  shows "reads_as (visitIntrinsic ctx i iid args) (call_meaning ctx i F args)"
proof (cases "iid = I_bswap")
  case True
  show ?thesis
  proof (cases "bswap_opcode (inst_ty i)")
    case None
    then show ?thesis using True by (auto simp: visitIntrinsic_def reads_as_def)
  next
    case (Some op)
    then have "opcode_fields op = Some [FOp]" by (cases "inst_ty i") (auto split: if_splits)
    then show ?thesis using True Some assms
      by (auto simp: visitIntrinsic_def call_meaning_def intro!: reads_as_guards reads_as_ops)
  qed
next
  case False
  then show ?thesis using assms
    by (cases iid) (auto simp: visitIntrinsic_def call_meaning_def numeral_3_eq_3 intro!: reads_as_guards reads_as_ops)
qed

lemma visitCall_reads:
  assumes "wf_call (Call F args)"
  shows "reads_as (visitCallInst ctx i F args) (call_meaning ctx i F args)"
proof -
  have mem: "length args \<ge> 3 \<Longrightarrow> reads_as (outs (printOp OP_BC_MEMCMP # map (printOperand ctx) (take 3 args)))
      (Some (OP_BC_MEMCMP, map (op_item ctx) (take 3 args)))"
    by (rule reads_as_ops) (simp add: numeral_3_eq_3 min_def)
  have call: "reads_as (outs (printOp op # printFixedNumber (of_nat (fn_arg_size F)) (Suc 0) # printNumber n False
       # map (printOperand ctx) args))
     (Some (op, Some (INum (of_nat (length args))) # Some (INum n) # map (op_item ctx) args))"
    if "op = OP_BC_CALL_API \<or> op = OP_BC_CALL_DIRECT" for op n
    using reads_as_call[OF that, of args n ctx] assms by simp
  have direct: "reads_as (outs (printOp OP_BC_CALL_DIRECT # printFixedNumber (of_nat (fn_arg_size F)) (Suc 0)
      # and_then (getFunctionID (wc_an ctx) (fn_name F)) (\<lambda>n. printNumber (of_nat n) False) # map (printOperand ctx) args))
     (Some (OP_BC_CALL_DIRECT, Some (INum (of_nat (length args)))
       # map_option (\<lambda>n. INum (of_nat n)) (functionIDs (wc_an ctx) (fn_name F)) # map (op_item ctx) args))"
    using call[of OP_BC_CALL_DIRECT]
    by (cases "functionIDs (wc_an ctx) (fn_name F)") (auto simp: getFunctionID_def lookup_id_def reads_as_def outs_Cons_Inr)
  show ?thesis
    using assms mem call direct visitIntrinsic_reads[of F _ ctx i args]
    by (auto simp: visitCallInst_def call_meaning_def Let_def getExternalID_def
        intro!: reads_as_and_then reads_as_guards_second reads_as_ops0 split: option.splits)
qed

lemma visit_reads:
  assumes "wf_call (inst_kind i)"
  shows "reads_as (visit ctx i) (meaning ctx i)"
proof (cases "inst_kind i")
  case (Select c a b)
  then show ?thesis using HandleOpcodes_reads[of "inst_kind i" ctx] by (simp add: visit_def meaning_def Let_def)
next
  case (Return v)
  then show ?thesis using visitReturn_reads reads_as_ops0[of OP_BC_RET_VOID]
    by (cases v) (simp_all add: visit_def meaning_def)
next
  case (Call F args)
  then show ?thesis using visitCall_reads assms by (simp add: visit_def meaning_def)
next
  case (Store x p)
  then show ?thesis using visitStore_reads by (simp add: visit_def meaning_def)
qed (simp_all add: visit_def visitBinary_reads visitCast_reads visitICmp_reads visitLoad_reads visitGEP_reads,
  simp_all add: meaning_def visitJump_reads[simplified] reads_as_ops0)

text \<open>
  C2: instructions. Whenever the writer writes an instruction, it has a meaning, an opcode with
  items that all are defined, and reading the text gives exactly this opcode and these items
  and stops at the end of the instruction, whatever follows.
\<close>

theorem instruction_decodes:
  assumes "visit ctx i = Inr bs" and "wf_call (inst_kind i)"
  shows "\<exists>op its xs. meaning ctx i = Some (op, its) \<and> those its = Some xs
     \<and> read_inst (bs @ rest) = Some ((op, xs), rest)"
  using visit_reads[OF assms(2), of ctx] assms(1) unfolding reads_as_def by blast

text \<open>The instruction of \<open>slot_sample\<close> that adds 1 to the parameter.\<close>

definition sample_ctx :: wctx where
  "sample_ctx = \<lparr>wc_an = initial_analysis sample_module 0 [], wc_CEMap = Map.empty, wc_ra = slot_result,
     wc_fun = slot_sample, wc_minflvl = 0, wc_strip = \<lambda>v. v\<rparr>"

definition sample_add :: inst where
  "sample_add = \<lparr>inst_id = 1, inst_ty = IntTy 32,
     inst_kind = Binary Add (VArg (IntTy 32) 0) (VConst (IntTy 32) (KInt 32 1))\<rparr>"

lemma printOp_ADD: "printOp OP_BC_ADD = Inr (chars ''a`'')"
  by code_simp

lemma sample_add_text: "visit sample_ctx sample_add = Inr (chars ''a``Aad'')"
  by (simp add: visit_def visitBinaryOperator_def ptrToInt_operand_def find_inst_def HandleOpcodes_def
      sample_add_def sample_ctx_def slot_result_def getValueID_def no_id_def printOp_ADD operand_counts_def
      printFixedNumber_def printNumber_def nibbles.simps chars_def assert_that_def stop_if_def)

theorem instruction_decodes_witness:
  "visit sample_ctx sample_add = Inr (chars ''a``Aad'')
     \<and> read_inst (chars ''a``Aad'' @ [0x54]) = Some ((OP_BC_ADD, [IOp (Inr 0), IOp (Inl (1, 4))]), [0x54])"
proof -
  have "wf_call (inst_kind sample_add)" by (simp add: sample_add_def)
  from instruction_decodes[OF sample_add_text this, of "[0x54]"] show ?thesis
    using sample_add_text
    by (auto simp: meaning_def sample_add_def sample_ctx_def ptrToInt_operand_def find_inst_def slot_result_def)
qed

end
