(* ===== verification/BC_Phi.thy ===== *)
theory BC_Phi
  imports BC_RegAlloc
begin

text \<open>
  The elimination of phi nodes: \<^verbatim>\<open>handlePHI\<close> and the first loops of
  \<^verbatim>\<open>runOnFunction\<close> in \<^verbatim>\<open>libclambcc/ClamBCRegAlloc.cpp\<close>. Each phi node becomes a
  stack slot, a store at the end of every incoming block, and a load. The theorem says that the
  function behaves as before: it takes the same path through its blocks, hands the same
  values to every other instruction and returns the same.
\<close>

section \<open>The transformation\<close>

fun incoming :: "kind \<Rightarrow> (val \<times> nat) list" where
  "incoming (Phi ivs) = ivs"
| "incoming _ = []"

text \<open>\<^verbatim>\<open>replaceAllUsesWith\<close>: uses of instruction \<open>n\<close> become \<open>v\<close>.\<close>

definition replace_use :: "nat \<Rightarrow> val \<Rightarrow> val \<Rightarrow> val" where
  "replace_use n v u = (if val_key u = Some (InstKey n) then v else u)"

definition replaceAllUsesWith :: "nat \<Rightarrow> val \<Rightarrow> inst \<Rightarrow> inst" where
  "replaceAllUsesWith n v i = i\<lparr>inst_kind := map_operands (replace_use n v) (inst_kind i)\<rparr>"

definition phi_slot :: "ty \<Rightarrow> nat \<Rightarrow> inst" where
  "phi_slot t x = \<lparr>inst_id = x, inst_ty = PtrTy t, inst_kind = Alloca t (VConst (IntTy 32) (KInt 32 1))\<rparr>"

definition phi_load :: "ty \<Rightarrow> nat \<Rightarrow> inst" where
  "phi_load t x = \<lparr>inst_id = x + 1, inst_ty = t, inst_kind = Load (VInst (PtrTy t) x)\<rparr>"

text \<open>The stores into the slot \<open>x\<close> that go before the terminator of block \<open>b\<close>.\<close>

definition phi_stores :: "ty \<Rightarrow> nat \<Rightarrow> (val \<times> nat) list \<Rightarrow> nat \<Rightarrow> inst list" where
  "phi_stores t x ivs b = map (\<lambda>j. \<lparr>inst_id = x + 2 + j, inst_ty = VoidTy,
     inst_kind = Store (fst (ivs ! j)) (VInst (PtrTy t) x)\<rparr>) (filter (\<lambda>j. snd (ivs ! j) = b) [0..<length ivs])"

text \<open>The load goes behind the phi nodes of the block, and the phi node \<open>n\<close> is erased.\<close>

definition phi_to_load :: "nat \<Rightarrow> inst \<Rightarrow> inst list \<Rightarrow> inst list" where
  "phi_to_load n ld is = (let rest = dropWhile (\<lambda>i. inst_id i \<noteq> n) is in
     if rest = [] then is
     else takeWhile (\<lambda>i. inst_id i \<noteq> n) is @ takeWhile (\<lambda>i. isPhi (inst_kind i)) (tl rest)
       @ ld # dropWhile (\<lambda>i. isPhi (inst_kind i)) (tl rest))"

definition phi_block :: "inst \<Rightarrow> nat \<Rightarrow> nat \<Rightarrow> inst list \<Rightarrow> inst list" where
  "phi_block p x b blk = (let t = inst_ty p in
     map (replaceAllUsesWith (inst_id p) (VInst t (x + 1)))
       ((if b = 0 then [phi_slot t x] else []) @ phi_to_load (inst_id p) (phi_load t x) (butlast blk)
        @ phi_stores t x (incoming (inst_kind p)) b @ [last blk]))"

text \<open>
  \<open>x\<close> is the number of the new slot; the load and the stores are numbered behind it. The
  common dominator that \<^verbatim>\<open>handlePHI\<close> computes is only asked for its function.
\<close>

definition handlePHI :: "nat \<Rightarrow> nat \<Rightarrow> bfunction \<Rightarrow> bfunction" where
  "handlePHI x n f = (case find (\<lambda>i. inst_id i = n) (f_insts f) of None \<Rightarrow> f
     | Some p \<Rightarrow> f\<lparr>f_blocks := map (\<lambda>(b, blk). phi_block p x b blk) (enumerate 0 (f_blocks f))\<rparr>)"

definition phis_of :: "inst list \<Rightarrow> inst list" where
  "phis_of blk = takeWhile (\<lambda>i. isPhi (inst_kind i)) blk"

text \<open>The loops of \<^verbatim>\<open>runOnFunction\<close>; with the numbers of the slots that were made.\<close>

definition function_phis :: "bfunction \<Rightarrow> nat list" where
  "function_phis f = map inst_id (concat (map phis_of (f_blocks f)))"

definition eliminate_phis :: "bfunction \<Rightarrow> nat set \<times> bfunction" where
  "eliminate_phis f = fold (\<lambda>n (S, g). (insert (fresh_id g) S, handlePHI (fresh_id g) n g)) (function_phis f) ({}, f)"

section \<open>Execution\<close>

text \<open>
  A state has the values of parameters and instructions, the contents of the stack slots, and
  the rest of the world. \<open>S\<close> are the slots that are accessed directly; all other
  instructions are given by \<open>sem\<close>, from the number of the instruction and the values of
  its operands. \<open>cv\<close> gives the value of constants and \<open>truth\<close> which branch is taken.
\<close>

record ('v, 'w) machine =
  m_env :: "vkey \<Rightarrow> 'v"
  m_slots :: "nat \<Rightarrow> 'v"
  m_world :: 'w

record ('v, 'w) semantics =
  s_const :: "val \<Rightarrow> 'v"
  s_inst :: "nat \<Rightarrow> 'v list \<Rightarrow> 'w \<Rightarrow> 'v \<times> 'w"
  s_truth :: "'v \<Rightarrow> bool"

definition val_of :: "('v, 'w) semantics \<Rightarrow> (vkey \<Rightarrow> 'v) \<Rightarrow> val \<Rightarrow> 'v" where
  "val_of sm env v = (case val_key v of None \<Rightarrow> s_const sm v | Some k \<Rightarrow> env k)"

fun slot_in :: "nat set \<Rightarrow> val \<Rightarrow> nat option" where
  "slot_in S (VInst t a) = (if a \<in> S then Some a else None)"
| "slot_in S v = None"

fun direct_access :: "nat set \<Rightarrow> inst \<Rightarrow> (nat \<times> val option) option" where
  "direct_access S i = (case inst_kind i of
       Load p \<Rightarrow> map_option (\<lambda>a. (a, None)) (slot_in S p)
     | Store v p \<Rightarrow> map_option (\<lambda>a. (a, Some v)) (slot_in S p)
     | _ \<Rightarrow> None)"

declare direct_access.simps [simp del]

definition exec :: "('v, 'w) semantics \<Rightarrow> nat set \<Rightarrow> inst \<Rightarrow> ('v, 'w) machine \<Rightarrow> ('v, 'w) machine" where
  "exec sm S i m = (let k = InstKey (inst_id i) in
     if inst_id i \<in> S then m
     else case direct_access S i of
       Some (a, None) \<Rightarrow> m\<lparr>m_env := (m_env m)(k := m_slots m a)\<rparr>
     | Some (a, Some v) \<Rightarrow> m\<lparr>m_slots := (m_slots m)(a := val_of sm (m_env m) v)\<rparr>
     | None \<Rightarrow> (case s_inst sm (inst_id i) (map (val_of sm (m_env m)) (operands (inst_kind i))) (m_world m) of
         (r, w) \<Rightarrow> m\<lparr>m_env := (m_env m)(k := r), m_world := w\<rparr>))"

text \<open>Phi nodes of a block are evaluated at once, when it is entered from \<open>prev\<close>.\<close>

definition phi_value :: "('v, 'w) semantics \<Rightarrow> nat \<Rightarrow> (vkey \<Rightarrow> 'v) \<Rightarrow> inst \<Rightarrow> 'v" where
  "phi_value sm prev env i = (case find (\<lambda>(v, b). b = prev) (incoming (inst_kind i)) of
       Some (v, b) \<Rightarrow> val_of sm env v | None \<Rightarrow> env (InstKey (inst_id i)))"

definition enter :: "('v, 'w) semantics \<Rightarrow> nat \<Rightarrow> inst list \<Rightarrow> ('v, 'w) machine \<Rightarrow> ('v, 'w) machine" where
  "enter sm prev ps m = m\<lparr>m_env := (\<lambda>k. case find (\<lambda>i. InstKey (inst_id i) = k) ps of
     Some i \<Rightarrow> phi_value sm prev (m_env m) i | None \<Rightarrow> m_env m k)\<rparr>"

definition body_of :: "inst list \<Rightarrow> inst list" where
  "body_of blk = butlast (dropWhile (\<lambda>i. isPhi (inst_kind i)) blk)"

definition run_block :: "('v, 'w) semantics \<Rightarrow> nat set \<Rightarrow> nat \<Rightarrow> inst list \<Rightarrow> ('v, 'w) machine \<Rightarrow> ('v, 'w) machine" where
  "run_block sm S prev blk m = fold (exec sm S) (body_of blk) (enter sm prev (phis_of blk) m)"

text \<open>The end of a block: the block that follows, or the values that are returned.\<close>

datatype ('v, 'w) outcome = At nat nat "('v, 'w) machine" | Done "'v list" 'w

fun next_block :: "('v \<Rightarrow> bool) \<Rightarrow> kind \<Rightarrow> 'v list \<Rightarrow> nat option" where
  "next_block truth (Br b) vs = Some b"
| "next_block truth (CondBr c a b) vs = Some (if truth (hd vs) then a else b)"
| "next_block truth k vs = None"

definition step_block :: "('v, 'w) semantics \<Rightarrow> nat set \<Rightarrow> bfunction \<Rightarrow> ('v, 'w) outcome \<Rightarrow> ('v, 'w) outcome" where
  "step_block sm S f out = (case out of Done vs w \<Rightarrow> Done vs w
     | At prev cur m \<Rightarrow> (let blk = f_blocks f ! cur; m' = run_block sm S prev blk m;
           k = inst_kind (last blk); vs = map (val_of sm (m_env m')) (operands k)
         in case next_block (s_truth sm) k vs of Some b \<Rightarrow> At cur b m' | None \<Rightarrow> Done vs (m_world m')))"

definition run_function :: "('v, 'w) semantics \<Rightarrow> nat set \<Rightarrow> bfunction \<Rightarrow> nat \<Rightarrow> ('v, 'w) machine \<Rightarrow> ('v, 'w) outcome" where
  "run_function sm S f k m = (step_block sm S f ^^ k) (At 0 0 m)"

text \<open>What can be observed of an execution: where it is, the rest of the world, and the result.\<close>

fun observed :: "('v, 'w) outcome \<Rightarrow> (nat \<times> nat) option \<times> 'v list \<times> 'w" where
  "observed (At prev cur m) = (Some (prev, cur), [], m_world m)"
| "observed (Done vs w) = (None, vs, w)"

section \<open>Well-formed functions\<close>

text \<open>
  What LLVM guarantees: phi nodes stand at the beginning of a block and have a value for every
  block that leads to theirs, the same one if it is listed twice; the entry block has none.
  Every operand exists, and the slots \<open>S\<close> are allocas.
\<close>

abbreviation inst_ids :: "bfunction \<Rightarrow> nat set" where
  "inst_ids f \<equiv> inst_id ` set (f_insts f)"

definition wf_edges :: "bfunction \<Rightarrow> bool" where
  "wf_edges f \<longleftrightarrow> (\<forall>p<length (f_blocks f). \<forall>b\<in>set (successors (inst_kind (last (f_blocks f ! p)))).
     b < length (f_blocks f) \<and> (\<forall>i\<in>set (phis_of (f_blocks f ! b)). p \<in> snd ` set (incoming (inst_kind i))))"

definition wf_inst :: "nat set \<Rightarrow> nat set \<Rightarrow> inst \<Rightarrow> bool" where
  "wf_inst S N i \<longleftrightarrow> (\<forall>v\<in>set (operands (inst_kind i)). \<forall>n. val_key v = Some (InstKey n) \<longrightarrow> n \<in> N)
     \<and> (inst_id i \<in> S \<longrightarrow> (\<exists>t c. inst_kind i = Alloca t c))
     \<and> (\<forall>(v, b)\<in>set (incoming (inst_kind i)). \<forall>(v', b')\<in>set (incoming (inst_kind i)). b = b' \<longrightarrow> v = v')"

definition phis_first :: "inst list \<Rightarrow> bool" where
  "phis_first blk \<longleftrightarrow> (\<forall>i\<in>set (dropWhile (\<lambda>i. isPhi (inst_kind i)) blk). \<not> isPhi (inst_kind i))"

definition wf_phis :: "nat set \<Rightarrow> bfunction \<Rightarrow> bool" where
  "wf_phis S f \<longleftrightarrow> f_blocks f \<noteq> [] \<and> wf_ids f \<and> phis_of (f_blocks f ! 0) = []
     \<and> (\<forall>blk\<in>set (f_blocks f). wf_block blk \<and> phis_first blk)
     \<and> wf_edges f \<and> S \<subseteq> inst_ids f \<and> (\<forall>i\<in>set (f_insts f). wf_inst S (inst_ids f) i)"

lemma block_parts:
  assumes "wf_block blk"
  shows "blk = phis_of blk @ body_of blk @ [last blk]"
    and "butlast blk = phis_of blk @ body_of blk" and "\<forall>i\<in>set (phis_of blk). isPhi (inst_kind i)"
proof -
  let ?d = "dropWhile (\<lambda>i. isPhi (inst_kind i)) blk"
  have l: "\<not> isPhi (inst_kind (last blk))" and ne: "blk \<noteq> []"
    using assms by (auto simp: wf_block_def elim: isTerminator.elims)
  then have d: "?d \<noteq> []" by (metis dropWhile_eq_Nil_conv last_in_set)
  then have "last ?d = last blk" by (metis last_appendR takeWhile_dropWhile_id)
  then have "body_of blk @ [last blk] = ?d" using append_butlast_last_id[OF d] by (simp add: body_of_def)
  then show e: "blk = phis_of blk @ body_of blk @ [last blk]" by (simp add: phis_of_def)
  show "butlast blk = phis_of blk @ body_of blk" by (subst e) (simp add: butlast_append)
  show "\<forall>i\<in>set (phis_of blk). isPhi (inst_kind i)" by (auto simp: phis_of_def dest: set_takeWhileD)
qed

lemma body_not_phi:
  assumes "wf_block blk" and "phis_first blk"
  shows "\<forall>i\<in>set (body_of blk @ [last blk]). \<not> isPhi (inst_kind i)"
  using assms(2) block_parts(1)[OF assms(1)]
  by (metis phis_first_def phis_of_def same_append_eq takeWhile_dropWhile_id)

lemma phi_in_block:
  assumes "wf_block blk" and "phis_first blk" and "isPhi (inst_kind p)"
  shows "p \<in> set blk \<longleftrightarrow> p \<in> set (phis_of blk)"
  using body_not_phi[OF assms(1,2)] assms(3) arg_cong[OF block_parts(1)[OF assms(1)], of set] by auto

lemma block_parts_unique:
  assumes "\<forall>i\<in>set ps. isPhi (inst_kind i)" and "\<forall>i\<in>set bs. \<not> isPhi (inst_kind i)" and "\<not> isPhi (inst_kind t)"
  shows "phis_of (ps @ bs @ [t]) = ps" "body_of (ps @ bs @ [t]) = bs"
proof -
  have "takeWhile (\<lambda>i. isPhi (inst_kind i)) (bs @ [t]) = []"
    "dropWhile (\<lambda>i. isPhi (inst_kind i)) (bs @ [t]) = bs @ [t]" using assms by (cases bs; simp)+
  then show "phis_of (ps @ bs @ [t]) = ps" "body_of (ps @ bs @ [t]) = bs"
    using assms(1) by (simp_all add: phis_of_def body_of_def)
qed

lemma phi_to_load_parts:
  assumes "\<forall>i\<in>set ps. isPhi (inst_kind i)" and "\<forall>i\<in>set bs. \<not> isPhi (inst_kind i)"
    and "distinct (map inst_id ps)" and "n \<notin> inst_id ` set bs"
  shows "phi_to_load n ld (ps @ bs) = filter (\<lambda>i. inst_id i \<noteq> n) ps
    @ (if n \<in> inst_id ` set ps then [ld] else []) @ bs"
proof (cases "n \<in> inst_id ` set ps")
  case True
  then obtain p where "p \<in> set ps" and pn: "inst_id p = n" by blast
  then obtain xs ys where ps: "ps = xs @ p # ys" by (meson split_list)
  have "inst_id i \<noteq> n" if "i \<in> set (xs @ ys)" for i
    using assms(3) pn ps imageI[OF that, of inst_id] by auto
  then have "filter (\<lambda>i. inst_id i \<noteq> n) ps = xs @ ys" "takeWhile (\<lambda>i. inst_id i \<noteq> n) (ps @ bs) = xs"
    "dropWhile (\<lambda>i. inst_id i \<noteq> n) (ps @ bs) = p # ys @ bs"
    using pn by (auto simp: ps filter_id_conv)
  moreover have "takeWhile (\<lambda>i. isPhi (inst_kind i)) bs = []" "dropWhile (\<lambda>i. isPhi (inst_kind i)) bs = bs"
    using assms(2) by (cases bs; simp)+
  ultimately show ?thesis using True assms(1) by (simp add: phi_to_load_def ps Let_def)
next
  case False
  then have "\<forall>i\<in>set (ps @ bs). inst_id i \<noteq> n" using assms(4) by auto
  then show ?thesis using False by (auto simp: phi_to_load_def dropWhile_eq_Nil_conv filter_id_conv)
qed

section \<open>The blocks of the result\<close>

abbreviation use_load :: "inst \<Rightarrow> nat \<Rightarrow> inst \<Rightarrow> inst" where
  "use_load p x \<equiv> replaceAllUsesWith (inst_id p) (VInst (inst_ty p) (x + 1))"

lemma replaceAll_simps [simp]:
  "inst_id (replaceAllUsesWith n v i) = inst_id i" "inst_ty (replaceAllUsesWith n v i) = inst_ty i"
  "inst_kind (replaceAllUsesWith n v i) = map_operands (replace_use n v) (inst_kind i)"
  by (simp_all add: replaceAllUsesWith_def)

lemma phi_slot_simps [simp]:
  "inst_id (phi_slot t x) = x" "inst_kind (phi_slot t x) = Alloca t (VConst (IntTy 32) (KInt 32 1))"
  "inst_id (phi_load t x) = Suc x" "inst_kind (phi_load t x) = Load (VInst (PtrTy t) x)"
  by (simp_all add: phi_slot_def phi_load_def)

lemma phi_storesD:
  "i \<in> set (phi_stores t x ivs b) \<Longrightarrow>
     \<exists>v j. inst_kind i = Store v (VInst (PtrTy t) x) \<and> (v, b) \<in> set ivs \<and> j < length ivs \<and> inst_id i = x + 2 + j"
  by (auto simp: phi_stores_def)

definition new_body :: "inst \<Rightarrow> nat \<Rightarrow> nat \<Rightarrow> inst list \<Rightarrow> inst list" where
  "new_body p x b blk = (if b = 0 then [phi_slot (inst_ty p) x] else [])
     @ (if inst_id p \<in> inst_id ` set (phis_of blk) then [phi_load (inst_ty p) x] else [])
     @ body_of blk @ phi_stores (inst_ty p) x (incoming (inst_kind p)) b"

lemma phi_block_parts:
  assumes wf: "wf_block blk" "phis_first blk" and d: "distinct (map inst_id blk)"
    and p: "isPhi (inst_kind p)" "p \<in> set blk \<or> inst_id p \<notin> inst_id ` set blk" and b0: "b = 0 \<longrightarrow> phis_of blk = []"
  shows "phis_of (phi_block p x b blk) = map (use_load p x) (filter (\<lambda>i. inst_id i \<noteq> inst_id p) (phis_of blk))"
    and "body_of (phi_block p x b blk) = map (use_load p x) (new_body p x b blk)"
    and "last (phi_block p x b blk) = use_load p x (last blk)"
    and "phi_block p x b blk = map (use_load p x) (filter (\<lambda>i. inst_id i \<noteq> inst_id p) (phis_of blk)
           @ new_body p x b blk @ [last blk])"
proof -
  note P = block_parts[OF wf(1)]
  note nb = body_not_phi[OF wf]
  have d1: "distinct (map inst_id (phis_of blk @ body_of blk @ [last blk]))" using d P(1) by metis
  have "p \<in> set (phis_of blk) \<or> inst_id p \<notin> inst_id ` set blk"
    using p nb P(1) by (metis Un_iff set_append)
  moreover have "set (body_of blk) \<subseteq> set blk" "set (phis_of blk) \<subseteq> set blk" by (subst P(1), auto)+
  ultimately have "inst_id p \<notin> inst_id ` set (body_of blk)"
    using d1 by (auto dest: imageI[of p _ inst_id])
  then have ptl: "phi_to_load (inst_id p) ld (butlast blk) = filter (\<lambda>i. inst_id i \<noteq> inst_id p) (phis_of blk)
      @ (if inst_id p \<in> inst_id ` set (phis_of blk) then [ld] else []) @ body_of blk" for ld
    using phi_to_load_parts[OF P(3)] nb d1 P(2) by simp
  show E: "phi_block p x b blk = map (use_load p x) (filter (\<lambda>i. inst_id i \<noteq> inst_id p) (phis_of blk)
           @ new_body p x b blk @ [last blk])"
    using b0 by (auto simp: phi_block_def Let_def ptl new_body_def)
  have "\<forall>i\<in>set (map (use_load p x) (filter (\<lambda>i. inst_id i \<noteq> inst_id p) (phis_of blk))). isPhi (inst_kind i)"
    using P(3) by auto
  moreover have "\<forall>i\<in>set (map (use_load p x) (new_body p x b blk)). \<not> isPhi (inst_kind i)"
    using nb by (auto simp: new_body_def dest!: phi_storesD split: if_splits)
  moreover have "\<not> isPhi (inst_kind (use_load p x (last blk)))" using nb by simp
  ultimately show "phis_of (phi_block p x b blk) = map (use_load p x) (filter (\<lambda>i. inst_id i \<noteq> inst_id p) (phis_of blk))"
    "body_of (phi_block p x b blk) = map (use_load p x) (new_body p x b blk)"
    using block_parts_unique unfolding E by simp_all
  show "last (phi_block p x b blk) = use_load p x (last blk)" unfolding E by simp
qed

section \<open>The simulation\<close>

text \<open>
  How the states before and after the elimination of the phi node \<open>n\<close> correspond: the load
  \<open>x + 1\<close> has the value of the phi node, and everything older than \<open>x\<close> is the same.
\<close>

definition phi_rel :: "nat \<Rightarrow> nat \<Rightarrow> ('v, 'w) machine \<Rightarrow> ('v, 'w) machine \<Rightarrow> bool" where
  "phi_rel n x m m' \<longleftrightarrow> (\<forall>k. k \<noteq> InstKey n \<and> k \<notin> InstKey ` {x..} \<longrightarrow> m_env m' k = m_env m k)
     \<and> m_env m' (InstKey (x + 1)) = m_env m (InstKey n)
     \<and> (\<forall>a. a \<noteq> x \<longrightarrow> m_slots m' a = m_slots m a) \<and> m_world m' = m_world m"

definition old_operands :: "nat \<Rightarrow> val list \<Rightarrow> bool" where
  "old_operands x vs \<longleftrightarrow> (\<forall>v\<in>set vs. val_key v \<notin> Some ` InstKey ` {x..})"

lemma val_of_rel:
  assumes "phi_rel n x m m'" and "val_key v \<notin> Some ` InstKey ` {x..}"
  shows "val_of sm (m_env m') (replace_use n (VInst t (x + 1)) v) = val_of sm (m_env m) v"
proof (cases "val_key v")
  case (Some k)
  then have "k \<notin> InstKey ` {x..}" using assms(2) by auto
  then show ?thesis using assms(1) Some by (auto simp: phi_rel_def val_of_def replace_use_def)
qed (cases v; auto simp: val_of_def replace_use_def)

lemma vals_rel:
  assumes "phi_rel n x m m'" and "old_operands x vs"
  shows "map (val_of sm (m_env m') \<circ> replace_use n (VInst t (x + 1))) vs = map (val_of sm (m_env m)) vs"
  using assms(2) by (auto simp: old_operands_def intro: val_of_rel[OF assms(1), simplified])

lemma slot_in_replace:
  assumes "val_key v \<notin> Some ` InstKey ` {x..}" and "n \<notin> S" and "S \<subseteq> {..<x}"
  shows "slot_in (insert x S) (replace_use n (VInst t (x + 1)) v) = slot_in S v"
  using assms by (cases v) (auto simp: replace_use_def)

lemma direct_access_replace:
  assumes "old_operands x (operands (inst_kind i))" and "n \<notin> S" and "S \<subseteq> {..<x}"
  shows "direct_access (insert x S) (replaceAllUsesWith n (VInst t (x + 1)) i) =
     map_option (\<lambda>(a, v). (a, map_option (replace_use n (VInst t (x + 1))) v)) (direct_access S i)"
  using assms slot_in_replace[OF _ assms(2,3)]
  by (cases "inst_kind i") (auto simp: direct_access.simps old_operands_def option.map_comp comp_def)

lemma direct_accessD:
  "direct_access S i = Some (a, v) \<Longrightarrow> a \<in> S \<and> (\<forall>u. v = Some u \<longrightarrow> u \<in> set (operands (inst_kind i)))"
proof -
  have "slot_in S p = Some a \<Longrightarrow> a \<in> S" for p by (cases p) (auto split: if_splits)
  then show "direct_access S i = Some (a, v) \<Longrightarrow> a \<in> S \<and> (\<forall>u. v = Some u \<longrightarrow> u \<in> set (operands (inst_kind i)))"
    by (auto simp: direct_access.simps split: kind.splits)
qed

lemma exec_rel:
  assumes R: "phi_rel n x m m'" and i: "inst_id i < x" "inst_id i \<noteq> n" "old_operands x (operands (inst_kind i))"
    and S: "n \<notin> S" "S \<subseteq> {..<x}"
  shows "phi_rel n x (exec sm S i m) (exec sm (insert x S) (replaceAllUsesWith n (VInst t (x + 1)) i) m')"
proof (cases "direct_access S i")
  case None
  have w: "m_world m' = m_world m" using R by (simp add: phi_rel_def)
  show ?thesis
    using R i None direct_access_replace[OF i(3) S, of t]
    by (auto simp: exec_def Let_def phi_rel_def w vals_rel[OF R i(3), of sm t, unfolded Suc_eq_plus1[symmetric]] split: prod.splits)
next
  case (Some av)
  then obtain a v where av: "direct_access S i = Some (a, v)" by (cases av) auto
  have a: "a \<in> S" "a \<noteq> x" using direct_accessD[OF av] S by auto
  have sl: "m_slots m' a = m_slots m a" using R a by (simp add: phi_rel_def)
  show ?thesis
  proof (cases v)
    case None
    then show ?thesis using R i av sl direct_access_replace[OF i(3) S, of t]
      by (auto simp: exec_def Let_def phi_rel_def)
  next
    case (Some u)
    then have "val_key u \<notin> Some ` InstKey ` {x..}"
      using direct_accessD[OF av] i(3) by (auto simp: old_operands_def)
    then show ?thesis using R i av Some val_of_rel[OF R, of u sm t] direct_access_replace[OF i(3) S, of t]
      by (auto simp: exec_def Let_def phi_rel_def)
  qed
qed

lemma exec_body_rel:
  assumes "phi_rel n x m m'" and "\<forall>i\<in>set is. inst_id i < x \<and> inst_id i \<noteq> n \<and> old_operands x (operands (inst_kind i))"
    and S: "n \<notin> S" "S \<subseteq> {..<x}"
  shows "phi_rel n x (fold (exec sm S) is m)
     (fold (exec sm (insert x S)) (map (replaceAllUsesWith n (VInst t (x + 1))) is) m')"
  using assms(1,2)
proof (induction "is" arbitrary: m m')
  case (Cons i "is")
  then show ?case using exec_rel[OF Cons.prems(1) _ _ _ S, of i] by simp
qed simp

text \<open>The stores at the end of an incoming block.\<close>

lemma exec_stores:
  assumes "phi_rel n x m m'"
    and "\<forall>i\<in>set is. \<exists>v. inst_kind i = Store v (VInst t' x) \<and> val_key v \<notin> Some ` InstKey ` {x..} \<and> inst_id i \<notin> insert x S"
    and "n < x" and "\<forall>i\<in>set is. \<forall>v. inst_kind i = Store v (VInst t' x) \<longrightarrow> val_of sm (m_env m) v = r"
  shows "phi_rel n x m (fold (exec sm (insert x S)) (map (replaceAllUsesWith n (VInst t (x + 1))) is) m')
     \<and> (is \<noteq> [] \<longrightarrow> m_slots (fold (exec sm (insert x S)) (map (replaceAllUsesWith n (VInst t (x + 1))) is) m') x = r)"
  using assms(1,2,4)
proof (induction "is" arbitrary: m' rule: rev_induct)
  case (snoc i "is")
  let ?m = "fold (exec sm (insert x S)) (map (replaceAllUsesWith n (VInst t (x + 1))) is) m'"
  have R: "phi_rel n x m ?m" using snoc by auto
  from snoc.prems(2) obtain v where v: "inst_kind i = Store v (VInst t' x)"
    "val_key v \<notin> Some ` InstKey ` {x..}" "inst_id i \<notin> insert x S" by auto
  have "replace_use n (VInst t (x + 1)) (VInst t' x) = VInst t' x" using assms(3) by (simp add: replace_use_def)
  then have "exec sm (insert x S) (replaceAllUsesWith n (VInst t (x + 1)) i) ?m =
      ?m\<lparr>m_slots := (m_slots ?m)(x := val_of sm (m_env m) v)\<rparr>"
    using v val_of_rel[OF R v(2), of sm t] by (simp add: exec_def direct_access.simps Let_def)
  moreover have "val_of sm (m_env m) v = r" using snoc.prems(3) v(1) by simp
  ultimately show ?case using R by (simp add: phi_rel_def)
qed simp

lemma enter_env:
  assumes "distinct (map inst_id ps)"
  shows "i \<in> set ps \<Longrightarrow> m_env (enter sm prev ps m) (InstKey (inst_id i)) = phi_value sm prev (m_env m) i"
    and "k \<notin> InstKey ` inst_id ` set ps \<Longrightarrow> m_env (enter sm prev ps m) k = m_env m k"
proof -
  have "i \<in> set ps \<Longrightarrow> find (\<lambda>j. inst_id j = inst_id i) ps = Some i" using assms
    by (induction ps) (auto dest: imageI[of _ _ inst_id])
  then show "i \<in> set ps \<Longrightarrow> m_env (enter sm prev ps m) (InstKey (inst_id i)) = phi_value sm prev (m_env m) i"
    by (simp add: enter_def)
  assume "k \<notin> InstKey ` inst_id ` set ps"
  then have "find (\<lambda>i. InstKey (inst_id i) = k) ps = None" by (auto simp: find_None_iff)
  then show "m_env (enter sm prev ps m) k = m_env m k" by (simp add: enter_def)
qed

lemma enter_same [simp]: "m_slots (enter sm prev ps m) = m_slots m" "m_world (enter sm prev ps m) = m_world m"
  by (simp_all add: enter_def)

lemma incoming_map: "incoming (map_operands g k) = map (\<lambda>(v, b). (g v, b)) (incoming k)"
  by (cases k) auto

lemma find_incoming_map:
  "find (\<lambda>(v, b). b = prev) (map (\<lambda>(v, b). (g v, b)) ivs) =
     map_option (\<lambda>(v, b). (g v, b)) (find (\<lambda>(v, b). b = prev) ivs)"
  by (induction ivs) (auto split: prod.splits)

lemma incoming_operands: "(v, b) \<in> set (incoming k) \<Longrightarrow> v \<in> set (operands k)"
  by (cases k) (auto intro: rev_image_eqI)

lemma phi_value_rel:
  assumes R: "phi_rel n x m m'" and "old_operands x (operands (inst_kind i))" and "inst_id i \<noteq> n" "inst_id i < x"
  shows "phi_value sm prev (m_env m') (replaceAllUsesWith n (VInst t (x + 1)) i) = phi_value sm prev (m_env m) i"
proof (cases "find (\<lambda>(v, b). b = prev) (incoming (inst_kind i))")
  case None
  then show ?thesis using R assms(3,4) by (auto simp: phi_value_def incoming_map find_incoming_map phi_rel_def)
next
  case (Some vb)
  then obtain v b where vb: "vb = (v, b)" "(v, b) \<in> set (incoming (inst_kind i))"
    by (cases vb) (auto simp: find_Some_iff, metis nth_mem)
  then have "val_key v \<notin> Some ` InstKey ` {x..}"
    using assms(2) incoming_operands by (auto simp: old_operands_def)
  then show ?thesis using Some vb val_of_rel[OF R, of v sm t]
    by (simp add: phi_value_def incoming_map find_incoming_map)
qed

text \<open>The phi nodes and the load of one block.\<close>

lemma enter_rel:
  assumes R: "phi_rel n x m m'" and d: "distinct (map inst_id ps)"
    and old: "\<forall>i\<in>set ps. inst_id i < x \<and> old_operands x (operands (inst_kind i))"
    and slot: "\<And>p. p \<in> set ps \<Longrightarrow> inst_id p = n \<Longrightarrow> m_slots m' x = phi_value sm prev (m_env m) p"
    and S: "x + 1 \<notin> S" and n: "n < x"
  shows "phi_rel n x (enter sm prev ps m)
     (fold (exec sm (insert x S)) (map (replaceAllUsesWith n (VInst t (x + 1)))
       (if n \<in> inst_id ` set ps then [phi_load t' x] else []))
       (enter sm prev (map (replaceAllUsesWith n (VInst t (x + 1))) (filter (\<lambda>i. inst_id i \<noteq> n) ps)) m'))"
    (is "phi_rel n x ?m (fold _ _ ?m')")
proof -
  let ?qs = "map (replaceAllUsesWith n (VInst t (x + 1))) (filter (\<lambda>i. inst_id i \<noteq> n) ps)"
  have ids: "map inst_id ?qs = filter (\<lambda>j. j \<noteq> n) (map inst_id ps)" by (induction ps) auto
  have dq: "distinct (map inst_id ?qs)" unfolding ids using d by simp
  have env: "m_env ?m' k = m_env ?m k" if k: "k \<noteq> InstKey n" "k \<notin> InstKey ` {x..}" for k
  proof (cases "k \<in> InstKey ` inst_id ` set ps")
    case True
    then obtain i where i: "i \<in> set ps" "k = InstKey (inst_id i)" by blast
    moreover from this k have "replaceAllUsesWith n (VInst t (x + 1)) i \<in> set ?qs" by auto
    ultimately show ?thesis
      using enter_env(1)[OF dq, of "replaceAllUsesWith n (VInst t (x + 1)) i" sm prev m'] enter_env(1)[OF d, of i sm prev m]
        phi_value_rel[OF R, of i sm prev t] old k by auto
  next
    case False
    then have "k \<notin> InstKey ` inst_id ` set ?qs" by auto
    then show ?thesis
      using False R k enter_env(2)[OF dq, of k sm prev m'] enter_env(2)[OF d, of k sm prev m] by (simp add: phi_rel_def)
  qed
  have rest: "\<forall>a. a \<noteq> x \<longrightarrow> m_slots ?m' a = m_slots ?m a" "m_world ?m' = m_world ?m"
    using R by (simp_all add: phi_rel_def)
  show ?thesis
  proof (cases "n \<in> inst_id ` set ps")
    case True
    then obtain p where p: "p \<in> set ps" "inst_id p = n" by blast
    have "replace_use n (VInst t (x + 1)) (VInst (PtrTy t') x) = VInst (PtrTy t') x" using n by (simp add: replace_use_def)
    then have "exec sm (insert x S) (replaceAllUsesWith n (VInst t (x + 1)) (phi_load t' x)) ?m' =
        ?m'\<lparr>m_env := (m_env ?m')(InstKey (x + 1) := m_slots m' x)\<rparr>"
      using S by (simp add: exec_def direct_access.simps Let_def)
    moreover have "m_slots m' x = m_env ?m (InstKey n)" using slot[OF p] enter_env(1)[OF d p(1), of sm prev m] p(2) by simp
    ultimately show ?thesis using True env rest by (simp add: phi_rel_def)
  next
    case False
    have nk: "InstKey n \<notin> InstKey ` inst_id ` set ps" using False by (metis imageE vkey.inject(2))
    have "InstKey (x + 1) \<notin> InstKey ` inst_id ` set ?qs" using old by auto
    then have "m_env ?m' (InstKey (x + 1)) = m_env ?m (InstKey n)"
      using enter_env(2)[OF dq, of "InstKey (x + 1)" sm prev m'] enter_env(2)[OF d nk, of sm prev m] R
      by (auto simp: phi_rel_def)
    then show ?thesis using False env rest by (simp add: phi_rel_def)
  qed
qed

lemma phi_stores_eq_Nil: "phi_stores t x ivs b = [] \<longleftrightarrow> b \<notin> snd ` set ivs"
proof -
  have "b \<in> snd ` set ivs \<longleftrightarrow> (\<exists>j<length ivs. snd (ivs ! j) = b)" by (metis image_iff in_set_conv_nth)
  then show ?thesis by (auto simp: phi_stores_def filter_empty_conv)
qed

lemma phi_value_incoming:
  assumes "(v, b) \<in> set (incoming (inst_kind p))"
    and "\<forall>(v, b)\<in>set (incoming (inst_kind p)). \<forall>(v', b')\<in>set (incoming (inst_kind p)). b = b' \<longrightarrow> v = v'"
  shows "phi_value sm b env p = val_of sm env v"
proof (cases "find (\<lambda>(v, c). c = b) (incoming (inst_kind p))")
  case None
  then show ?thesis using assms(1) by (auto simp: find_None_iff)
next
  case (Some vb)
  then obtain u where "vb = (u, b)" "(u, b) \<in> set (incoming (inst_kind p))"
    by (cases vb) (auto simp: find_Some_iff, metis nth_mem)
  then show ?thesis using Some assms by (auto simp: phi_value_def)
qed

text \<open>
  One block: the states correspond again, and the slot has the value that the phi node would get
  from this block.
\<close>

lemma run_block_rel:
  assumes wf: "wf_block blk" "phis_first blk" and d: "distinct (map inst_id blk)"
    and p: "isPhi (inst_kind p)" "p \<in> set blk \<or> inst_id p \<notin> inst_id ` set blk" and b0: "b = 0 \<longrightarrow> phis_of blk = []"
    and old: "\<forall>i\<in>insert p (set blk). inst_id i < x \<and> old_operands x (operands (inst_kind i))"
    and fn: "\<forall>(v, b)\<in>set (incoming (inst_kind p)). \<forall>(v', b')\<in>set (incoming (inst_kind p)). b = b' \<longrightarrow> v = v'"
    and S: "inst_id p \<notin> S" "S \<subseteq> {..<x}" and R: "phi_rel (inst_id p) x m m'"
    and slot: "p \<in> set blk \<Longrightarrow> m_slots m' x = phi_value sm prev (m_env m) p"
  defines "n \<equiv> run_block sm S prev blk m" and "n' \<equiv> run_block sm (insert x S) prev (phi_block p x b blk) m'"
  shows "phi_rel (inst_id p) x n n' \<and> (b \<in> snd ` set (incoming (inst_kind p)) \<longrightarrow> m_slots n' x = phi_value sm b (m_env n) p)"
proof -
  note P = block_parts[OF wf(1)] and PB = phi_block_parts[OF wf d p b0]
  have sub: "set (phis_of blk) \<subseteq> set blk" "set (body_of blk) \<subseteq> set blk" by (subst P(1), auto)+
  have d1: "distinct (map inst_id (phis_of blk @ body_of blk @ [last blk]))" using d P(1) by metis
  have pp: "p \<in> set blk \<longleftrightarrow> p \<in> set (phis_of blk)" using phi_in_block[OF wf p(1)] .
  have pn: "q = p" if "q \<in> set (phis_of blk)" "inst_id q = inst_id p" for q
  proof -
    have q: "q \<in> set blk" using that sub by blast
    then have "p \<in> set blk" using p(2) that(2) by (metis imageI)
    then show ?thesis using q that(2) d by (auto simp: distinct_map dest: inj_onD)
  qed
  let ?e = "enter sm prev (phis_of blk) m"
  let ?load = "if inst_id p \<in> inst_id ` set (phis_of blk) then [phi_load (inst_ty p) x] else []"
  let ?L = "fold (exec sm (insert x S)) (map (use_load p x) ?load)"
  let ?st = "phi_stores (inst_ty p) x (incoming (inst_kind p)) b"
  have e: "phi_rel (inst_id p) x ?e (?L (enter sm prev (phis_of (phi_block p x b blk)) m'))"
    unfolding PB(1) using d1 old sub pn slot S(2) by (intro enter_rel[OF R]) auto
  have slot0: "exec sm (insert x S) (use_load p x (phi_slot (inst_ty p) x)) s = s" for s by (simp add: exec_def)
  have "inst_id p \<notin> inst_id ` set (body_of blk)"
    using pp p(2) sub d1 by (auto dest: imageI[of p _ inst_id])
  then have "\<forall>i\<in>set (body_of blk). inst_id i < x \<and> inst_id i \<noteq> inst_id p \<and> old_operands x (operands (inst_kind i))"
    using old sub by (metis imageI insertCI subsetD)
  note body = exec_body_rel[OF e this S, of sm "inst_ty p"]
  have "n = fold (exec sm S) (body_of blk) ?e" by (simp add: n_def run_block_def)
  moreover have "n' = fold (exec sm (insert x S)) (map (use_load p x) ?st)
      (fold (exec sm (insert x S)) (map (use_load p x) (body_of blk)) (?L (enter sm prev (phis_of (phi_block p x b blk)) m')))"
    using slot0 by (simp add: n'_def run_block_def PB(2) new_body_def)
  moreover have "\<forall>i\<in>set ?st. \<exists>v. inst_kind i = Store v (VInst (PtrTy (inst_ty p)) x)
      \<and> val_key v \<notin> Some ` InstKey ` {x..} \<and> inst_id i \<notin> insert x S"
    using old S(2) by (fastforce dest!: phi_storesD incoming_operands simp: old_operands_def)
  moreover have "\<forall>i\<in>set ?st. \<forall>v. inst_kind i = Store v (VInst (PtrTy (inst_ty p)) x) \<longrightarrow>
      val_of sm (m_env n) v = phi_value sm b (m_env n) p"
    using phi_value_incoming[OF _ fn, of _ b sm "m_env n"] by (auto dest!: phi_storesD)
  ultimately show ?thesis
    using exec_stores[of "inst_id p" x n _ ?st "PtrTy (inst_ty p)" S sm "phi_value sm b (m_env n) p" "inst_ty p"]
      body old by (auto simp: phi_stores_eq_Nil)
qed

section \<open>The whole function\<close>

text \<open>
  The states of the two functions before each block. The slot has the value that a pending phi
  node is about to get.
\<close>

definition out_rel :: "('v, 'w) semantics \<Rightarrow> bfunction \<Rightarrow> inst \<Rightarrow> nat \<Rightarrow> ('v, 'w) outcome \<Rightarrow> ('v, 'w) outcome \<Rightarrow> bool" where
  "out_rel sm f p x out1 out2 \<longleftrightarrow> (case (out1, out2) of
       (At a b m, At a' b' m') \<Rightarrow> a' = a \<and> b' = b \<and> b < length (f_blocks f) \<and> phi_rel (inst_id p) x m m'
         \<and> (p \<in> set (f_blocks f ! b) \<longrightarrow> m_slots m' x = phi_value sm a (m_env m) p)
     | (Done vs w, Done vs' w') \<Rightarrow> vs' = vs \<and> w' = w
     | _ \<Rightarrow> False)"

lemma out_rel_observed: "out_rel sm f p x out1 out2 \<Longrightarrow> observed out2 = observed out1"
  by (auto simp: out_rel_def phi_rel_def split: outcome.splits)

lemma next_block_map [simp]: "next_block truth (map_operands g k) vs = next_block truth k vs"
  by (cases k) auto

lemma next_block_successor: "next_block truth k vs = Some b \<Longrightarrow> b \<in> set (successors k)"
  by (cases k) auto

lemma nth_handlePHI:
  assumes "find (\<lambda>i. inst_id i = n) (f_insts f) = Some p" and "b < length (f_blocks f)"
  shows "f_blocks (handlePHI x n f) ! b = phi_block p x b (f_blocks f ! b)"
  using assms by (simp add: handlePHI_def nth_enumerate_eq)

lemma fresh_id_greater: "i \<in> set (f_insts f) \<Longrightarrow> inst_id i < fresh_id f"
  unfolding fresh_id_def by (auto simp: less_Suc_eq_le intro: Max_ge)

lemma wf_phisD:
  assumes "wf_phis S f"
  shows "S \<subseteq> {..<fresh_id f}"
    and "i \<in> set (f_insts f) \<Longrightarrow> old_operands (fresh_id f) (operands (inst_kind i))"
    and "i \<in> set (f_insts f) \<Longrightarrow> isPhi (inst_kind i) \<Longrightarrow> inst_id i \<notin> S"
    and "b < length (f_blocks f) \<Longrightarrow> wf_block (f_blocks f ! b) \<and> phis_first (f_blocks f ! b)
      \<and> distinct (map inst_id (f_blocks f ! b)) \<and> set (f_blocks f ! b) \<subseteq> set (f_insts f)"
proof -
  have ids: "k < fresh_id f" if "k \<in> inst_ids f" for k using that fresh_id_greater by auto
  then show "S \<subseteq> {..<fresh_id f}" using assms by (auto simp: wf_phis_def)
  have W: "wf_inst S (inst_ids f) i" if "i \<in> set (f_insts f)" for i using assms that by (simp add: wf_phis_def)
  show "old_operands (fresh_id f) (operands (inst_kind i))" if "i \<in> set (f_insts f)"
  proof -
    have "k \<in> inst_ids f" if "v \<in> set (operands (inst_kind i))" "val_key v = Some (InstKey k)" for v k
      using W[OF \<open>i \<in> set (f_insts f)\<close>] that by (simp add: wf_inst_def)
    then show ?thesis using ids by (fastforce simp: old_operands_def)
  qed
  show "i \<in> set (f_insts f) \<Longrightarrow> isPhi (inst_kind i) \<Longrightarrow> inst_id i \<notin> S"
    using W[of i] by (auto simp: wf_inst_def)
  assume b: "b < length (f_blocks f)"
  then have "f_insts f = concat (take b (f_blocks f)) @ f_blocks f ! b @ concat (drop (Suc b) (f_blocks f))"
    using id_take_nth_drop[OF b] by (metis concat.simps(2) concat_append f_insts_def)
  then show "wf_block (f_blocks f ! b) \<and> phis_first (f_blocks f ! b)
      \<and> distinct (map inst_id (f_blocks f ! b)) \<and> set (f_blocks f ! b) \<subseteq> set (f_insts f)"
    using assms b by (auto simp: wf_phis_def)
qed

text \<open>A phi node \<open>p\<close> of a well-formed function.\<close>

definition phi_in :: "nat set \<Rightarrow> bfunction \<Rightarrow> inst \<Rightarrow> bool" where
  "phi_in S f p \<longleftrightarrow> wf_phis S f \<and> p \<in> set (f_insts f) \<and> isPhi (inst_kind p)"

lemma phi_inD:
  assumes "phi_in S f p"
  shows "wf_phis S f" "isPhi (inst_kind p)" "inst_id p \<notin> S"
    and "find (\<lambda>i. inst_id i = inst_id p) (f_insts f) = Some p"
    and "\<forall>(v, b)\<in>set (incoming (inst_kind p)). \<forall>(v', b')\<in>set (incoming (inst_kind p)). b = b' \<longrightarrow> v = v'"
    and "b < length (f_blocks f) \<Longrightarrow> p \<in> set (f_blocks f ! b) \<or> inst_id p \<notin> inst_id ` set (f_blocks f ! b)"
    and "b < length (f_blocks f) \<Longrightarrow> b = 0 \<longrightarrow> phis_of (f_blocks f ! b) = []"
    and "b < length (f_blocks f) \<Longrightarrow> \<forall>i\<in>insert p (set (f_blocks f ! b)). inst_id i < fresh_id f
      \<and> old_operands (fresh_id f) (operands (inst_kind i))"
proof -
  show wf: "wf_phis S f" and ph: "isPhi (inst_kind p)" using assms by (simp_all add: phi_in_def)
  have pf: "p \<in> set (f_insts f)" using assms by (simp add: phi_in_def)
  show "inst_id p \<notin> S" using wf_phisD(3)[OF wf pf ph] .
  have ids: "wf_ids f" using wf by (simp add: wf_phis_def)
  show "find (\<lambda>i. inst_id i = inst_id p) (f_insts f) = Some p" using find_inst_id[OF ids pf] .
  have "wf_inst S (inst_ids f) p" using wf pf by (simp add: wf_phis_def)
  then show "\<forall>(v, b)\<in>set (incoming (inst_kind p)). \<forall>(v', b')\<in>set (incoming (inst_kind p)). b = b' \<longrightarrow> v = v'"
    by (simp add: wf_inst_def)
  assume b: "b < length (f_blocks f)"
  note B = wf_phisD(4)[OF wf b]
  have "q = p" if "q \<in> set (f_blocks f ! b)" "inst_id q = inst_id p" for q
    using that B ids pf by (auto simp: distinct_map dest: inj_onD)
  then show "p \<in> set (f_blocks f ! b) \<or> inst_id p \<notin> inst_id ` set (f_blocks f ! b)" by auto
  show "b = 0 \<longrightarrow> phis_of (f_blocks f ! b) = []" using wf by (auto simp: wf_phis_def)
  show "\<forall>i\<in>insert p (set (f_blocks f ! b)). inst_id i < fresh_id f
      \<and> old_operands (fresh_id f) (operands (inst_kind i))"
    using B pf fresh_id_greater wf_phisD(2)[OF wf] by auto
qed

lemma step_rel:
  assumes P: "phi_in S f p" and R: "out_rel sm f p (fresh_id f) out1 out2"
  shows "out_rel sm f p (fresh_id f) (step_block sm S f out1)
     (step_block sm (insert (fresh_id f) S) (handlePHI (fresh_id f) (inst_id p) f) out2)"
proof (cases out1)
  case (At a b m)
  then obtain m' where m': "out2 = At a b m'" and b: "b < length (f_blocks f)"
    and rel: "phi_rel (inst_id p) (fresh_id f) m m'"
    and slot: "p \<in> set (f_blocks f ! b) \<Longrightarrow> m_slots m' (fresh_id f) = phi_value sm a (m_env m) p"
    using R by (auto simp: out_rel_def split: outcome.splits)
  let ?x = "fresh_id f" and ?blk = "f_blocks f ! b"
  let ?n = "run_block sm S a ?blk m" and ?n' = "run_block sm (insert ?x S) a (phi_block p ?x b ?blk) m'"
  note D = phi_inD[OF P] and B = wf_phisD(4)[OF phi_inD(1)[OF P] b]
  have run: "phi_rel (inst_id p) ?x ?n ?n'"
    "b \<in> snd ` set (incoming (inst_kind p)) \<Longrightarrow> m_slots ?n' ?x = phi_value sm b (m_env ?n) p"
    using run_block_rel[OF _ _ _ D(2) D(6)[OF b] D(7)[OF b] D(8)[OF b] D(5) D(3) wf_phisD(1)[OF D(1)] rel, of sm a]
      B slot by auto
  have ln: "last (phi_block p ?x b ?blk) = use_load p ?x (last ?blk)"
    using phi_block_parts(3)[OF _ _ _ D(2) D(6)[OF b] D(7)[OF b]] B by blast
  have "?blk \<noteq> []" using B by (auto simp: wf_block_def)
  then have "old_operands ?x (operands (inst_kind (last ?blk)))" using D(8)[OF b] by auto
  note vs = vals_rel[OF run(1) this, of sm "inst_ty p"]
  have edge: "c < length (f_blocks f)" "p \<in> set (f_blocks f ! c) \<Longrightarrow> b \<in> snd ` set (incoming (inst_kind p))"
    if "c \<in> set (successors (inst_kind (last ?blk)))" for c
  proof -
    show c: "c < length (f_blocks f)" using that D(1) b by (auto simp: wf_phis_def wf_edges_def)
    show "p \<in> set (f_blocks f ! c) \<Longrightarrow> b \<in> snd ` set (incoming (inst_kind p))"
      using that D(1,2) b phi_in_block[of "f_blocks f ! c" p] wf_phisD(4)[OF D(1) c]
      by (auto simp: wf_phis_def wf_edges_def)
  qed
  let ?k = "inst_kind (last ?blk)"
  let ?vs = "map (val_of sm (m_env ?n)) (operands ?k)"
  have s1: "step_block sm S f out1 = (case next_block (s_truth sm) ?k ?vs of Some c \<Rightarrow> At b c ?n | None \<Rightarrow> Done ?vs (m_world ?n))"
    by (simp add: At step_block_def Let_def)
  have s2: "step_block sm (insert ?x S) (handlePHI ?x (inst_id p) f) out2 =
      (case next_block (s_truth sm) ?k ?vs of Some c \<Rightarrow> At b c ?n' | None \<Rightarrow> Done ?vs (m_world ?n'))"
    by (simp add: m' step_block_def Let_def nth_handlePHI[OF D(4) b] ln vs[unfolded Suc_eq_plus1[symmetric]]
        cong: option.case_cong)
  have w: "m_world ?n' = m_world ?n" using run(1) by (simp add: phi_rel_def)
  show ?thesis
  proof (cases "next_block (s_truth sm) ?k ?vs")
    case (Some c)
    then show ?thesis using run edge next_block_successor[OF Some] unfolding s1 s2 by (simp add: out_rel_def)
  qed (simp add: s1 s2 w out_rel_def)
qed (use R in \<open>auto simp: out_rel_def step_block_def split: outcome.splits\<close>)

text \<open>A state in which no instruction has a value yet.\<close>

definition fresh_state :: "('v, 'w) machine \<Rightarrow> bool" where
  "fresh_state m \<longleftrightarrow> (\<forall>j k. m_env m (InstKey j) = m_env m (InstKey k))"

lemma handlePHI_observed:
  assumes P: "phi_in S f p" and "fresh_state m"
  shows "observed (run_function sm (insert (fresh_id f) S) (handlePHI (fresh_id f) (inst_id p) f) k m) =
     observed (run_function sm S f k m)"
proof -
  have nb: "0 < length (f_blocks f)" using phi_inD(1)[OF P] by (auto simp: wf_phis_def)
  have "p \<notin> set (f_blocks f ! 0)"
    using phi_in_block[of "f_blocks f ! 0" p] wf_phisD(4)[OF phi_inD(1)[OF P] nb] phi_inD(2)[OF P] phi_inD(7)[OF P nb] by auto
  moreover have "phi_rel (inst_id p) (fresh_id f) m m"
    using assms(2) by (auto simp: phi_rel_def fresh_state_def)
  ultimately have "out_rel sm f p (fresh_id f) (At 0 0 m) (At 0 0 m)" using nb by (simp add: out_rel_def)
  then have "out_rel sm f p (fresh_id f) (run_function sm S f k m)
      (run_function sm (insert (fresh_id f) S) (handlePHI (fresh_id f) (inst_id p) f) k m)"
    unfolding run_function_def by (induction k) (simp_all add: step_rel[OF P])
  then show ?thesis by (rule out_rel_observed)
qed

section \<open>Well-formedness is kept\<close>

lemma distinct_concat_nth:
  "distinct (concat xss) \<longleftrightarrow> (\<forall>b<length xss. distinct (xss ! b))
     \<and> (\<forall>c<length xss. \<forall>b<c. set (xss ! b) \<inter> set (xss ! c) = {})"
proof (induction xss rule: rev_induct)
  case (snoc xs xss)
  have "set (concat xss) \<inter> set xs = {} \<longleftrightarrow> (\<forall>b<length xss. set (xss ! b) \<inter> set xs = {})"
    by (simp add: set_conv_nth[of xss]) blast
  then show ?case using snoc by (simp add: All_less_Suc nth_append) blast
qed simp

lemma f_insts_nth: "set (f_insts f) = (\<Union>b<length (f_blocks f). set (f_blocks f ! b))"
proof -
  have "set (f_blocks f) = (!) (f_blocks f) ` {..<length (f_blocks f)}" by (auto simp: set_conv_nth)
  then show ?thesis by (simp add: f_insts_def)
qed

lemma wf_ids_nth:
  "wf_ids f \<longleftrightarrow> (\<forall>b<length (f_blocks f). distinct (map inst_id (f_blocks f ! b)))
     \<and> (\<forall>c<length (f_blocks f). \<forall>b<c. inst_id ` set (f_blocks f ! b) \<inter> inst_id ` set (f_blocks f ! c) = {})"
  using distinct_concat_nth[of "map (map inst_id) (f_blocks f)"] by (simp add: f_insts_def map_concat)

text \<open>The numbers of the stores of one block.\<close>

definition store_ids :: "nat \<Rightarrow> (val \<times> nat) list \<Rightarrow> nat \<Rightarrow> nat set" where
  "store_ids x ivs b = {x + 2 + j | j. j < length ivs \<and> snd (ivs ! j) = b}"

lemma phi_stores_ids:
  "inst_id ` set (phi_stores t x ivs b) = store_ids x ivs b" "distinct (map inst_id (phi_stores t x ivs b))"
  by (auto simp: phi_stores_def store_ids_def comp_def distinct_map inj_on_def image_image)

lemma distinct_parts:
  fixes x :: nat
  assumes "distinct (F0 @ B @ [z])" and "set F \<subseteq> set F0" "distinct F" and "set F0 \<union> set B \<union> {z} \<subseteq> {..<x}"
    and "A = [] \<or> A = [x]" and "L = [] \<or> L = [Suc x]" and "distinct T" "set T \<inter> {..x + 1} = {}"
  shows "distinct (F @ (A @ L @ B @ T) @ [z])"
proof -
  have "set F \<union> set B \<union> {z, x, Suc x} \<subseteq> {..x + 1}" using assms(2,4) by force
  then have "set T \<inter> (set F \<union> set B \<union> {z, x, Suc x}) = {}" using assms(8) by blast
  moreover have "set F \<inter> set B = {}" "z \<notin> set F"
    "set A \<subseteq> {x}" "set L \<subseteq> {Suc x}" "distinct A" "distinct L" "(set F \<union> set B \<union> {z}) \<inter> {x, Suc x} = {}"
    using assms by auto
  ultimately show ?thesis using assms(1,3,7) by auto
qed

lemma phi_block_ids:
  assumes P: "phi_in S f p" and b: "b < length (f_blocks f)"
  defines "x \<equiv> fresh_id f"
  shows "inst_id ` set (phi_block p x b (f_blocks f ! b)) =
      (inst_id ` set (f_blocks f ! b) - {inst_id p}) \<union> (if b = 0 then {x} else {})
      \<union> (if p \<in> set (f_blocks f ! b) then {x + 1} else {}) \<union> store_ids x (incoming (inst_kind p)) b"
    and "distinct (map inst_id (phi_block p x b (f_blocks f ! b)))"
proof -
  let ?blk = "f_blocks f ! b"
  note D = phi_inD[OF P] and B = wf_phisD(4)[OF phi_inD(1)[OF P] b]
  have wf: "wf_block ?blk" "phis_first ?blk" "distinct (map inst_id ?blk)" using B by auto
  note parts = phi_block_parts(4)[OF wf D(2) D(6)[OF b] D(7)[OF b], of x]
  have pp: "p \<in> set ?blk \<longleftrightarrow> p \<in> set (phis_of ?blk)" using phi_in_block[OF wf(1,2) D(2)] .
  have P1: "?blk = phis_of ?blk @ body_of ?blk @ [last ?blk]" using block_parts(1)[OF wf(1)] .
  have d1: "distinct (map inst_id (phis_of ?blk @ body_of ?blk @ [last ?blk]))" using wf(3) P1 by metis
  have S1: "inst_id ` set ?blk = inst_id ` set (phis_of ?blk) \<union> inst_id ` set (body_of ?blk) \<union> {inst_id (last ?blk)}"
    by (subst P1) auto
  have home: "inst_id p \<in> inst_id ` set (phis_of ?blk) \<longleftrightarrow> p \<in> set ?blk"
    using D(6)[OF b] pp S1 by auto
  have np: "inst_id p \<notin> inst_id ` set (body_of ?blk)" "inst_id p \<noteq> inst_id (last ?blk)"
  proof -
    have "inst_id ` set (phis_of ?blk) \<inter> (inst_id ` set (body_of ?blk) \<union> {inst_id (last ?blk)}) = {}" using d1 by simp
    then show "inst_id p \<notin> inst_id ` set (body_of ?blk)" "inst_id p \<noteq> inst_id (last ?blk)"
      using home D(6)[OF b] S1 by blast+
  qed
  have small: "k < x" if "k \<in> inst_id ` set ?blk" for k using that D(8)[OF b] by (auto simp: x_def)
  have fil: "inst_id ` set (filter (\<lambda>i. inst_id i \<noteq> inst_id p) (phis_of ?blk)) = inst_id ` set (phis_of ?blk) - {inst_id p}"
    by auto
  show "inst_id ` set (phi_block p x b (f_blocks f ! b)) =
      (inst_id ` set ?blk - {inst_id p}) \<union> (if b = 0 then {x} else {})
      \<union> (if p \<in> set ?blk then {x + 1} else {}) \<union> store_ids x (incoming (inst_kind p)) b"
  proof -
    have "inst_id ` set ?blk - {inst_id p} = (inst_id ` set (phis_of ?blk) - {inst_id p})
        \<union> inst_id ` set (body_of ?blk) \<union> {inst_id (last ?blk)}" using S1 np by auto
    then show ?thesis unfolding parts using home
      by (simp add: image_Un image_image new_body_def phi_stores_ids(1) fil[simplified] Un_ac)
  qed
  have "distinct (map inst_id (filter (\<lambda>i. inst_id i \<noteq> inst_id p) (phis_of ?blk)) @
      (map inst_id (if b = 0 then [phi_slot (inst_ty p) x] else [])
       @ map inst_id (if inst_id p \<in> inst_id ` set (phis_of ?blk) then [phi_load (inst_ty p) x] else [])
       @ map inst_id (body_of ?blk) @ map inst_id (phi_stores (inst_ty p) x (incoming (inst_kind p)) b))
      @ [inst_id (last ?blk)])"
  proof (rule distinct_parts)
    show "distinct (map inst_id (phis_of ?blk) @ map inst_id (body_of ?blk) @ [inst_id (last ?blk)])" using d1 by simp
    show "distinct (map inst_id (filter (\<lambda>i. inst_id i \<noteq> inst_id p) (phis_of ?blk)))"
      using d1 by (simp add: distinct_map_filter)
    show "set (map inst_id (phis_of ?blk)) \<union> set (map inst_id (body_of ?blk)) \<union> {inst_id (last ?blk)} \<subseteq> {..<x}"
      using small S1 by auto
    show "set (map inst_id (phi_stores (inst_ty p) x (incoming (inst_kind p)) b)) \<inter> {..x + 1} = {}"
      using phi_stores_ids(1)[of "inst_ty p" x "incoming (inst_kind p)" b] by (auto simp: store_ids_def)
  qed (auto simp: phi_stores_ids(2))
  then show "distinct (map inst_id (phi_block p x b ?blk))"
    unfolding parts by (simp add: comp_def new_body_def cong: if_cong)
qed

lemma blocks_handlePHI:
  assumes "phi_in S f p"
  shows "length (f_blocks (handlePHI x (inst_id p) f)) = length (f_blocks f)"
    and "b < length (f_blocks f) \<Longrightarrow> f_blocks (handlePHI x (inst_id p) f) ! b = phi_block p x b (f_blocks f ! b)"
  using phi_inD(4)[OF assms] nth_handlePHI[OF phi_inD(4)[OF assms]] by (simp_all add: handlePHI_def)

lemma disjoint_parts:
  fixes x :: nat
  assumes "I \<inter> J = {}" and "I \<subseteq> {..<x}" "J \<subseteq> {..<x}" and "T \<inter> U = {}" "(T \<union> U) \<inter> {..x + 1} = {}"
    and "A \<subseteq> {x}" and "L \<subseteq> {x + 1}" "L' \<subseteq> {x + 1}" "L = {} \<or> L' = {}"
  shows "(I - N \<union> A \<union> L \<union> T) \<inter> (J - N \<union> {} \<union> L' \<union> U) = {}"
proof -
  have "\<not> (y \<in> I \<union> A \<union> L \<union> T \<and> y \<in> J \<union> L' \<union> U)" for y
  proof (cases "y \<le> x + 1")
    case True
    then have "y \<notin> T \<union> U" using assms(5) by blast
    moreover have "y \<in> A \<Longrightarrow> y \<notin> J \<union> L'" "y \<in> L \<Longrightarrow> y \<notin> J \<union> L'" "y \<in> I \<Longrightarrow> y \<notin> J \<union> L'"
      using assms(1-3,6-9) by auto
    ultimately show ?thesis by blast
  next
    case False
    then have "y \<notin> I \<union> A \<union> L \<union> (J \<union> L')" using assms(2,3,6-8) by auto
    then show ?thesis using assms(4) by blast
  qed
  then show ?thesis by blast
qed

lemma wf_ids_handlePHI:
  assumes P: "phi_in S f p"
  shows "wf_ids (handlePHI (fresh_id f) (inst_id p) f)"
proof -
  let ?x = "fresh_id f" and ?B = "\<lambda>b. f_blocks f ! b" and ?ivs = "incoming (inst_kind p)"
  have W: "wf_ids f" using phi_inD(1)[OF P] by (simp add: wf_phis_def)
  have "inst_id ` set (phi_block p ?x b (?B b)) \<inter> inst_id ` set (phi_block p ?x c (?B c)) = {}"
    if bc: "b < c" "c < length (f_blocks f)" for b c
  proof -
    have b: "b < length (f_blocks f)" using bc by simp
    have dis: "inst_id ` set (?B b) \<inter> inst_id ` set (?B c) = {}" using W bc by (auto simp: wf_ids_nth)
    have "inst_id ` set (?B b) \<subseteq> {..<?x}" "inst_id ` set (?B c) \<subseteq> {..<?x}"
      using phi_inD(8)[OF P b] phi_inD(8)[OF P bc(2)] by auto
    moreover have "\<not> (p \<in> set (?B b) \<and> p \<in> set (?B c))" using dis by blast
    moreover have "store_ids ?x ?ivs b \<inter> store_ids ?x ?ivs c = {}"
      "(store_ids ?x ?ivs b \<union> store_ids ?x ?ivs c) \<inter> {..?x + 1} = {}" using bc(1) by (auto simp: store_ids_def)
    ultimately show ?thesis
      using disjoint_parts[OF dis, of ?x "store_ids ?x ?ivs b" "store_ids ?x ?ivs c" "if b = 0 then {?x} else {}"
          "if p \<in> set (?B b) then {?x + 1} else {}" "if p \<in> set (?B c) then {?x + 1} else {}" "{inst_id p}"] bc(1)
      unfolding phi_block_ids(1)[OF P b] phi_block_ids(1)[OF P bc(2)] by simp
  qed
  then show ?thesis using phi_block_ids(2)[OF P] by (simp add: wf_ids_nth blocks_handlePHI[OF P])
qed

lemma ids_handlePHI:
  assumes P: "phi_in S f p"
  shows "inst_ids f - {inst_id p} \<union> {fresh_id f, fresh_id f + 1} \<subseteq> inst_ids (handlePHI (fresh_id f) (inst_id p) f)"
proof -
  let ?x = "fresh_id f" and ?f = "handlePHI (fresh_id f) (inst_id p) f"
  have eq: "inst_ids ?f = (\<Union>b<length (f_blocks f). inst_id ` set (phi_block p ?x b (f_blocks f ! b)))"
    by (auto simp: f_insts_nth blocks_handlePHI[OF P])
  have sub: "inst_id ` set (f_blocks f ! b) - {inst_id p} \<union> (if b = 0 then {?x} else {})
      \<union> (if p \<in> set (f_blocks f ! b) then {?x + 1} else {}) \<subseteq> inst_ids ?f" if "b < length (f_blocks f)" for b
    unfolding eq using phi_block_ids(1)[OF P that] that by blast
  have "0 < length (f_blocks f)" using phi_inD(1)[OF P] by (auto simp: wf_phis_def)
  then have "?x \<in> inst_ids ?f" using sub[of 0] by simp
  moreover obtain b where "b < length (f_blocks f)" "p \<in> set (f_blocks f ! b)"
    using P by (auto simp: phi_in_def f_insts_nth)
  then have "?x + 1 \<in> inst_ids ?f" using sub[of b] by simp
  moreover have "inst_ids f = (\<Union>b<length (f_blocks f). inst_id ` set (f_blocks f ! b))" by (auto simp: f_insts_nth)
  then have "inst_ids f - {inst_id p} \<subseteq> inst_ids ?f" using sub by blast
  ultimately show ?thesis by simp
qed

lemma wf_inst_replace:
  assumes "wf_inst S N i" and "n \<notin> S" and "inst_id i = x \<longrightarrow> (\<exists>t c. inst_kind i = Alloca t c)"
    and "N - {n} \<union> {x, x + 1} \<subseteq> N'"
  shows "wf_inst (insert x S) N' (replaceAllUsesWith n (VInst t (x + 1)) i)"
proof -
  have "k \<in> N'" if "v \<in> set (operands (inst_kind i))" "val_key (replace_use n (VInst t (x + 1)) v) = Some (InstKey k)" for v k
    using that assms(1,4) by (auto simp: wf_inst_def replace_use_def split: if_splits)
  moreover have "inst_id i \<in> insert x S \<Longrightarrow> \<exists>t' c. map_operands (replace_use n (VInst t (x + 1))) (inst_kind i) = Alloca t' c"
    using assms(1,3) by (auto simp: wf_inst_def)
  moreover have "\<forall>(v, b)\<in>set (map (\<lambda>(v, b). (g v, b)) (incoming (inst_kind i))).
      \<forall>(v', b')\<in>set (map (\<lambda>(v, b). (g v, b)) (incoming (inst_kind i))). b = b' \<longrightarrow> v = v'" for g :: "val \<Rightarrow> val"
    using assms(1) by (auto simp: wf_inst_def; blast)
  ultimately show ?thesis unfolding wf_inst_def by (simp add: incoming_map)
qed

lemma wf_block_phi_block:
  assumes P: "phi_in S f p" and b: "b < length (f_blocks f)"
  shows "wf_block (phi_block p x b (f_blocks f ! b)) \<and> phis_first (phi_block p x b (f_blocks f ! b))"
proof -
  let ?blk = "f_blocks f ! b"
  note D = phi_inD[OF P] and B = wf_phisD(4)[OF phi_inD(1)[OF P] b]
  have wf: "wf_block ?blk" "phis_first ?blk" "distinct (map inst_id ?blk)" using B by auto
  note parts = phi_block_parts[OF wf D(2) D(6)[OF b] D(7)[OF b], of x] and nb = body_not_phi[OF wf(1,2)]
  have "set (phis_of ?blk) \<union> set (body_of ?blk) = set (butlast ?blk)" using block_parts(2)[OF wf(1)] by simp
  then have "\<forall>i\<in>set (phis_of ?blk) \<union> set (body_of ?blk). \<not> isTerminator (inst_kind i)"
    using wf(1) by (simp add: wf_block_def list_all_iff)
  then have "wf_block (phi_block p x b ?blk)"
    using wf(1) unfolding parts(4) wf_block_def
    by (auto simp: butlast_append list_all_iff new_body_def dest!: phi_storesD split: if_splits)
  moreover have "phis_first (phi_block p x b ?blk)"
  proof -
    have "phi_block p x b ?blk = phis_of (phi_block p x b ?blk) @ map (use_load p x) (new_body p x b ?blk @ [last ?blk])"
      using parts(1,4) by simp
    then have "dropWhile (\<lambda>i. isPhi (inst_kind i)) (phi_block p x b ?blk) = map (use_load p x) (new_body p x b ?blk @ [last ?blk])"
      by (metis phis_of_def same_append_eq takeWhile_dropWhile_id)
    then show ?thesis using nb by (auto simp: phis_first_def new_body_def dest!: phi_storesD split: if_splits)
  qed
  ultimately show ?thesis by simp
qed

lemma wf_new_insts:
  assumes P: "phi_in S f p" and b: "b < length (f_blocks f)" and i: "i \<in> set (phi_block p (fresh_id f) b (f_blocks f ! b))"
  shows "wf_inst (insert (fresh_id f) S) (inst_ids (handlePHI (fresh_id f) (inst_id p) f)) i"
proof -
  let ?x = "fresh_id f" and ?blk = "f_blocks f ! b" and ?N = "inst_ids f \<union> {fresh_id f}"
  note D = phi_inD[OF P] and B = wf_phisD(4)[OF phi_inD(1)[OF P] b]
  have wf: "wf_block ?blk" "phis_first ?blk" "distinct (map inst_id ?blk)" using B by auto
  from i obtain j where j: "i = use_load p ?x j"
    "j \<in> set (phis_of ?blk) \<union> set (new_body p ?x b ?blk) \<union> {last ?blk}"
    unfolding phi_block_parts(4)[OF wf D(2) D(6)[OF b] D(7)[OF b]] by auto
  have sub: "set (phis_of ?blk) \<union> set (body_of ?blk) \<union> {last ?blk} \<subseteq> set (f_insts f)"
    using B by (subst (asm) block_parts(1)[OF wf(1)]) auto
  have old: "wf_inst S ?N k" if "k \<in> set (f_insts f)" for k
  proof -
    have "wf_inst S (inst_ids f) k" using D(1) that by (simp add: wf_phis_def)
    then show ?thesis by (auto simp: wf_inst_def)
  qed
  have SX: "S \<subseteq> {..<?x}" using wf_phisD(1)[OF D(1)] .
  have "wf_inst S ?N (phi_slot t ?x)" "wf_inst S ?N (phi_load t ?x)" for t
    using SX by (auto simp: wf_inst_def)
  moreover have "wf_inst S ?N k" if k: "k \<in> set (phi_stores t ?x (incoming (inst_kind p)) b)" for k t
  proof -
    obtain v j where v: "inst_kind k = Store v (VInst (PtrTy t) ?x)" "(v, b) \<in> set (incoming (inst_kind p))"
      "inst_id k = ?x + 2 + j" using phi_storesD[OF k] by blast
    have "wf_inst S ?N p" using old P by (simp add: phi_in_def)
    then have "\<forall>n. val_key v = Some (InstKey n) \<longrightarrow> n \<in> ?N" using incoming_operands[OF v(2)] by (simp add: wf_inst_def)
    then show ?thesis using v(1,3) SX by (auto simp: wf_inst_def)
  qed
  ultimately have "wf_inst S ?N j" using j(2) sub old by (auto simp: new_body_def split: if_splits)
  moreover have "inst_id j = ?x \<longrightarrow> (\<exists>t c. inst_kind j = Alloca t c)"
  proof -
    have "inst_id k \<noteq> ?x" if "k \<in> set (phis_of ?blk) \<union> set (body_of ?blk) \<union> {last ?blk}" for k
      using sub that fresh_id_greater[of k f] by auto
    then show ?thesis using j(2) by (auto simp: new_body_def dest!: phi_storesD split: if_splits)
  qed
  ultimately show ?thesis
    unfolding j(1) using wf_inst_replace[OF _ D(3)] ids_handlePHI[OF P] by blast
qed

lemma phis_of_handlePHI:
  assumes P: "phi_in S f p" and b: "b < length (f_blocks f)"
  shows "phis_of (f_blocks (handlePHI x (inst_id p) f) ! b) =
      map (use_load p x) (filter (\<lambda>i. inst_id i \<noteq> inst_id p) (phis_of (f_blocks f ! b)))"
    and "last (f_blocks (handlePHI x (inst_id p) f) ! b) = use_load p x (last (f_blocks f ! b))"
  using phi_block_parts(1,3)[OF _ _ _ phi_inD(2)[OF P] phi_inD(6)[OF P b] phi_inD(7)[OF P b], of x]
    wf_phisD(4)[OF phi_inD(1)[OF P] b] by (simp_all add: blocks_handlePHI[OF P] b)

lemma wf_handlePHI:
  assumes P: "phi_in S f p"
  shows "wf_phis (insert (fresh_id f) S) (handlePHI (fresh_id f) (inst_id p) f)"
proof -
  let ?x = "fresh_id f" and ?f = "handlePHI (fresh_id f) (inst_id p) f"
  note L = blocks_handlePHI[OF P] and W = phi_inD(1)[OF P]
  have n0: "0 < length (f_blocks f)" using W by (auto simp: wf_phis_def)
  have "phis_of (f_blocks ?f ! 0) = []" using phis_of_handlePHI(1)[OF P n0] phi_inD(7)[OF P n0] by simp
  moreover have "\<forall>blk\<in>set (f_blocks ?f). wf_block blk \<and> phis_first blk"
    using wf_block_phi_block[OF P] L by (auto simp: in_set_conv_nth)
  moreover have "wf_edges ?f"
    using W by (auto simp: wf_edges_def wf_phis_def L(1) phis_of_handlePHI[OF P] incoming_map image_image split_def)
  moreover have "insert ?x S \<subseteq> inst_ids ?f"
    using ids_handlePHI[OF P] W phi_inD(3)[OF P] by (auto simp: wf_phis_def)
  moreover have "\<forall>i\<in>set (f_insts ?f). wf_inst (insert ?x S) (inst_ids ?f) i"
    using wf_new_insts[OF P] L by (auto simp: f_insts_nth[of ?f])
  moreover have "f_blocks ?f \<noteq> []" using n0 L(1)[of ?x] by (metis length_greater_0_conv)
  ultimately show ?thesis using wf_ids_handlePHI[OF P] unfolding wf_phis_def by blast
qed

section \<open>All phi nodes\<close>

definition phi_ids :: "bfunction \<Rightarrow> nat set" where
  "phi_ids f = inst_id ` {i \<in> set (f_insts f). isPhi (inst_kind i)}"

lemma phi_ids_blocks:
  assumes "wf_phis S f"
  shows "phi_ids f = (\<Union>b<length (f_blocks f). inst_id ` set (phis_of (f_blocks f ! b)))"
proof -
  have "{i \<in> set (f_blocks f ! b). isPhi (inst_kind i)} = set (phis_of (f_blocks f ! b))" if "b < length (f_blocks f)" for b
    using phi_in_block[of "f_blocks f ! b"] wf_phisD(4)[OF assms that] block_parts(3)[of "f_blocks f ! b"] by blast
  moreover have "phi_ids f = (\<Union>b<length (f_blocks f). inst_id ` {i \<in> set (f_blocks f ! b). isPhi (inst_kind i)})"
    by (auto simp: phi_ids_def f_insts_nth)
  ultimately show ?thesis by simp
qed

lemma phi_ids_handlePHI:
  assumes P: "phi_in S f p"
  shows "phi_ids (handlePHI (fresh_id f) (inst_id p) f) = phi_ids f - {inst_id p}"
  unfolding phi_ids_blocks[OF wf_handlePHI[OF P]] phi_ids_blocks[OF phi_inD(1)[OF P]] blocks_handlePHI(1)[OF P]
  by (auto simp: phis_of_handlePHI(1)[OF P] image_image)

text \<open>
  C4: phi nodes. The register allocation replaces all phi nodes of a function by stack slots. The
  result has none left and its instructions are numbered apart; executed with the new slots it
  behaves like the function before, whatever the other instructions do: after any number of
  blocks both are at the same place with the same effects, or both have returned the same values.
\<close>

theorem phis_eliminated:
  assumes "wf_phis {} f" and "fresh_state m" and "eliminate_phis f = (S, f')"
  shows "observed (run_function sm S f' k m) = observed (run_function sm {} f k m)
     \<and> phi_ids f' = {} \<and> wf_ids f'"
proof -
  let ?step = "\<lambda>n (S, g). (insert (fresh_id g) S, handlePHI (fresh_id g) n g)"
  have all: "observed (run_function sm S' g' k m) = observed (run_function sm S g k m) \<and> phi_ids g' = phi_ids g - set ns
      \<and> wf_phis S' g'"
    if "wf_phis S g" "set ns \<subseteq> phi_ids g" "distinct ns" "fold ?step ns (S, g) = (S', g')" for ns S g S' g'
    using that
  proof (induction ns arbitrary: S g)
    case (Cons n ns)
    then obtain p where p: "p \<in> set (f_insts g)" "isPhi (inst_kind p)" "n = inst_id p" by (auto simp: phi_ids_def)
    then have P: "phi_in S g p" using Cons.prems(1) by (simp add: phi_in_def)
    have "set ns \<subseteq> phi_ids (handlePHI (fresh_id g) n g)"
      using Cons.prems(2,3) phi_ids_handlePHI[OF P] p(3) by auto
    then have "observed (run_function sm S' g' k m) =
          observed (run_function sm (insert (fresh_id g) S) (handlePHI (fresh_id g) n g) k m)
        \<and> phi_ids g' = phi_ids (handlePHI (fresh_id g) n g) - set ns \<and> wf_phis S' g'"
      using Cons.IH[of "insert (fresh_id g) S" "handlePHI (fresh_id g) n g"] Cons.prems(3,4) wf_handlePHI[OF P] p(3) by simp
    then show ?case
      using handlePHI_observed[OF P assms(2), of sm k] phi_ids_handlePHI[OF P] p(3) by auto
  qed simp
  have "set (function_phis f) = phi_ids f"
    unfolding phi_ids_blocks[OF assms(1)] by (force simp: function_phis_def set_conv_nth[of "f_blocks f"])
  moreover have "distinct (function_phis f)"
  proof -
    have "function_phis f = concat (map (\<lambda>blk. map inst_id (phis_of blk)) (f_blocks f))"
      by (simp add: function_phis_def map_concat comp_def)
    moreover have "set (phis_of blk) \<subseteq> set blk" "distinct (map inst_id blk) \<Longrightarrow> distinct (map inst_id (phis_of blk))" for blk
      by (auto simp: phis_of_def dest: set_takeWhileD) (metis distinct_append map_append takeWhile_dropWhile_id)
    ultimately show ?thesis
      using assms(1) unfolding wf_phis_def wf_ids_nth by (simp add: distinct_concat_nth) blast
  qed
  ultimately show ?thesis
    using all[OF assms(1) _ _ assms(3)[unfolded eliminate_phis_def]] by (auto simp: wf_phis_def)
qed

text \<open>
  A loop that remembers the value before last: \<open>1\<close> takes the value of \<open>2\<close> in each round,
  and is returned when the world says so.
\<close>

definition delay_sample :: bfunction where
  "delay_sample = (let c = \<lambda>n. VConst (IntTy 32) (KInt 32 n) in
     \<lparr>f_name = ''delay'', f_args = [], f_ret = IntTy 32, f_structRet = False, f_blocks =
      [[\<lparr>inst_id = 0, inst_ty = VoidTy, inst_kind = Br 1\<rparr>],
       [\<lparr>inst_id = 1, inst_ty = IntTy 32, inst_kind = Phi [(c 10, 0), (VInst (IntTy 32) 2, 1)]\<rparr>,
        \<lparr>inst_id = 2, inst_ty = IntTy 32, inst_kind = Phi [(c 20, 0), (c 30, 1)]\<rparr>,
        \<lparr>inst_id = 3, inst_ty = IntTy 1, inst_kind = OtherInst []\<rparr>,
        \<lparr>inst_id = 4, inst_ty = VoidTy, inst_kind = CondBr (VInst (IntTy 1) 3) 1 2\<rparr>],
       [\<lparr>inst_id = 5, inst_ty = VoidTy, inst_kind = Return (Some (VInst (IntTy 32) 1))\<rparr>]]\<rparr>)"

definition delay_semantics :: "(int, nat) semantics" where
  "delay_semantics = \<lparr>s_const = (\<lambda>v. case v of VConst t (KInt w n) \<Rightarrow> int n | _ \<Rightarrow> 0),
     s_inst = (\<lambda>j vs w. (if w < 1 then 1 else 0, w + 1)), s_truth = (\<lambda>v. v \<noteq> 0)\<rparr>"

definition delay_start :: "(int, nat) machine" where
  "delay_start = \<lparr>m_env = (\<lambda>_. 0), m_slots = (\<lambda>_. 0), m_world = 0\<rparr>"

lemma delay_wf: "wf_phis {} delay_sample"
  by (simp add: delay_sample_def wf_phis_def wf_edges_def wf_inst_def phis_of_def phis_first_def wf_block_def
      f_insts_def All_less_Suc Let_def)

lemma delay_run: "observed (run_function delay_semantics {} delay_sample 4 delay_start) = (None, [20], 2)"
  by code_simp

lemma delay_slots: "fst (eliminate_phis delay_sample) = {6, 10}"
  by code_simp

theorem phis_eliminated_witness:
  "\<exists>S f'. eliminate_phis delay_sample = (S, f') \<and> S = {6, 10} \<and> phi_ids f' = {}
     \<and> observed (run_function delay_semantics S f' 4 delay_start) = (None, [20], 2)"
proof -
  obtain S f' where e: "eliminate_phis delay_sample = (S, f')" by fastforce
  have S: "S = {6, 10}" using delay_slots e by simp
  have "fresh_state delay_start" by (simp add: fresh_state_def delay_start_def)
  from phis_eliminated[OF delay_wf this e, of delay_semantics 4] delay_run e S show ?thesis by auto
qed

end
