(* ===== verification/BC_Writer.thy ===== *)
theory BC_Writer
  imports BC_InstrFormat BC_Phi
begin

text \<open>
  Whole functions and modules: the rest of \<^verbatim>\<open>ClamBCOutputWriter\<close> and of
  \<^verbatim>\<open>ClamBCWriter\<close> in \<^verbatim>\<open>libclambcc/ClamBCWriter.cpp\<close>. Text goes to a line buffer
  whose longest line is remembered; the header, which announces it, is written in front at
  the end, and the source code of the signature is embedded behind.
\<close>

section \<open>The output writer\<close>

record output_writer =
  lineBuffer :: bytes
  lastLinePos :: nat
  maxLineLength :: nat

type_synonym cmd = "output_writer \<Rightarrow> wr_error + output_writer"

definition new_writer :: output_writer where
  "new_writer = \<lparr>lineBuffer = [], lastLinePos = 0, maxLineLength = 0\<rparr>"

definition emit :: "out \<Rightarrow> cmd" where
  "emit t w = and_then t (\<lambda>bs. Inr (w\<lparr>lineBuffer := lineBuffer w @ bs\<rparr>))"

definition printOne :: "char \<Rightarrow> cmd" where
  "printOne c = emit (Inr (chars [c]))"

definition printEOL :: cmd where
  "printEOL w = (let buf = lineBuffer w @ chars [CHR 0x0A]; diff = length buf - lastLinePos w
     in if diff = 0 then Inl (Failed ''diff > 0'')
        else Inr \<lparr>lineBuffer = buf, lastLinePos = length buf,
                  maxLineLength = (if maxLineLength w < diff then diff else maxLineLength w)\<rparr>)"

definition seq :: "cmd list \<Rightarrow> cmd" where
  "seq cs w = fold_err (\<lambda>c. c) cs w"

section \<open>Functions\<close>

definition printCount :: "nat \<Rightarrow> string \<Rightarrow> out" where
  "printCount n what = outs [stop_if (65536 \<le> n) (''Attempted to use more than 64k '' @ what),
     printNumber (of_nat n) False]"

fun isAllocaInst :: "kind \<Rightarrow> bool" where
  "isAllocaInst (Alloca t n) = True"
| "isAllocaInst _ = False"

text \<open>Operand 0 of a call is its first argument when it has one.\<close>

fun isInlineAsm :: "kind \<Rightarrow> bool" where
  "isInlineAsm (InlineAsmCall t []) = True"
| "isInlineAsm _ = False"

text \<open>The body of the loop of \<^verbatim>\<open>printBasicBlock\<close>.\<close>

fun written_type :: "inst \<Rightarrow> ty" where
  "written_type i = (case inst_kind i of Store x p \<Rightarrow> val_ty x | _ \<Rightarrow> inst_ty i)"

definition printDest :: "wctx \<Rightarrow> inst \<Rightarrow> out" where
  "printDest ctx i = (if inst_ty i \<noteq> VoidTy
     then and_then (getValueID (wc_ra ctx) (Some (InstKey (inst_id i)))) (\<lambda>n. printNumber (of_nat n) False)
     else printNumber 0 False)"

definition printInstruction :: "wctx \<Rightarrow> inst \<Rightarrow> out" where
  "printInstruction ctx i =
     (if isAllocaInst (inst_kind i) \<or> inst_kind i = DbgIntrinsic then Inr []
      else if isInlineAsm (inst_kind i) then Inl (Stop ''Inline assembly is not allowed'')
      else if skipInstruction (wc_ra ctx) i then Inr []
      else outs [printType ctx (written_type i), printDest ctx i, visit ctx i])"

definition printBasicBlock :: "wctx \<Rightarrow> inst list \<Rightarrow> cmd" where
  "printBasicBlock ctx b = seq ([printEOL, printOne CHR ''B'']
     @ map (\<lambda>i. emit (printInstruction ctx i)) (butlast b)
     @ [printOne CHR ''T'', emit (visit ctx (last b))])"

fun isArrayTy :: "ty \<Rightarrow> bool" where
  "isArrayTy (ArrayTy n t) = True"
| "isArrayTy _ = False"

text \<open>The declaration of one value: its type and whether it is a stack slot.\<close>

definition printValue :: "wctx \<Rightarrow> vkey \<Rightarrow> out" where
  "printValue ctx k = (case k of
       ArgKey n \<Rightarrow> (case nth_opt (f_args (wc_fun ctx)) n of
           Some t \<Rightarrow> outs [printType ctx t, printFixedNumber 0 1]
         | None \<Rightarrow> Inl (Failed ''Null Value in idmap?''))
     | InstKey n \<Rightarrow> (case find (\<lambda>i. inst_id i = n) (f_insts (wc_fun ctx)) of
           None \<Rightarrow> Inl (Failed ''Null Value in idmap?'')
         | Some i \<Rightarrow> (case inst_kind i of
               Alloca t c \<Rightarrow> outs
                 [stop_if (isArrayAllocation c \<and> \<not> isArrayTy t) ''VLAs are not (yet) supported'',
                  stop_if (isArrayAllocation c) ''Array allocs are not supported'',
                  printType ctx t, printFixedNumber 1 1]
             | _ \<Rightarrow> outs [printType ctx (inst_ty i), printFixedNumber 0 1])))"

definition counted :: "wctx \<Rightarrow> inst \<Rightarrow> bool" where
  "counted ctx i \<longleftrightarrow> \<not> (isAllocaInst (inst_kind i) \<or> inst_kind i = DbgIntrinsic)
     \<and> \<not> (\<not> isTerminator (inst_kind i) \<and> skipInstruction (wc_ra ctx) i)"

text \<open>\<^verbatim>\<open>printFunction\<close> up to the values, and from there.\<close>

definition function_head :: "wctx \<Rightarrow> cmd list" where
  "function_head ctx = (let f = wc_fun ctx in
     [emit (stop_if (f_structRet f) ''Functions with struct ret are not supported''),
      printEOL, printOne CHR ''A'', emit (printFixedNumber (of_nat (length (f_args f))) 1),
      emit (printType ctx (f_ret f)), printOne CHR ''L'',
      emit (stop_if (32768 \<le> length (f_insts f)) ''Attempted to use more than 32k instructions'')])"

definition function_body :: "wctx \<Rightarrow> vkey list \<Rightarrow> cmd list" where
  "function_body ctx values = (let f = wc_fun ctx in
     [emit (printCount (length values - length (f_args f)) ''values'')]
     @ map (\<lambda>k. emit (printValue ctx k)) values
     @ [printOne CHR ''F'', emit (printNumber (of_nat (length (filter (counted ctx) (f_insts f)))) False),
        emit (printCount (length (f_blocks f)) ''basic blocks'')]
     @ map (printBasicBlock ctx) (f_blocks f)
     @ [printOne CHR ''E''])"

definition printFunction :: "wctx \<Rightarrow> cmd" where
  "printFunction ctx w = and_then (seq (function_head ctx) w) (\<lambda>w.
     and_then (buildReverseMap (wc_ra ctx)) (\<lambda>values. seq (function_body ctx values) w))"

section \<open>Types\<close>

text \<open>
  \<open>align\<close> and \<open>bits\<close> are the ABI alignment in bytes and the size in bits of the data
  layout. A pointer inside a structure fails before its message.
\<close>

record layout =
  abi_align :: "ty \<Rightarrow> nat"
  type_bits :: "ty \<Rightarrow> nat"

definition printTypeID :: "analysis \<Rightarrow> ty \<Rightarrow> out" where
  "printTypeID a t = and_then (getTypeID a t) (\<lambda>n. printNumber (of_nat n) False)"

definition struct_element :: "layout \<Rightarrow> analysis \<Rightarrow> ty \<Rightarrow> out" where
  "struct_element L a t = outs
     [assert_that (\<not> isPointerTy t) ''Find replacement for WriteTypeSymbolic'',
      stop_if (isIntegerTy t \<and> 8 * abi_align L t < type_bits L t)
        ''Internal error: ABI alignment less than typesize for integer!'',
      and_then (getTypeID a t) (\<lambda>_. Inr [])]"

fun describeType :: "layout \<Rightarrow> analysis \<Rightarrow> ty \<Rightarrow> out" where
  "describeType L a (FunTy r ts v) = outs ([printFixedNumber 1 1, assert_that (\<not> v) ''!FTy->isVarArg()'',
     printNumber (of_nat (length ts + 1)) False, printTypeID a r] @ map (printTypeID a) ts)"
| "describeType L a (StructTy s packed ts) = outs (map (struct_element L a) ts
     @ [printFixedNumber (if packed then 2 else 3) 1, printNumber (of_nat (length ts)) False]
     @ map (printTypeID a) ts)"
| "describeType L a (OpaqueTy s) = outs [printFixedNumber 3 1, printNumber 0 False]"
| "describeType L a (ArrayTy n t) = outs [printFixedNumber 4 1, printNumber (of_nat n) False, printTypeID a t]"
| "describeType L a (PtrTy t) = outs [printFixedNumber 5 1,
     if isOpaque t then printNumber 8 False else printTypeID a t]"
| "describeType L a _ = Inl (Stop ''Unsupported type '')"

section \<open>Constants\<close>

text \<open>
  \<open>kstrip\<close> is \<^verbatim>\<open>stripPointerCasts\<close> on constants. Where the code goes on with the null
  pointer of a failed cast, the model fails.
\<close>

definition printOffset :: "analysis \<Rightarrow> nat \<Rightarrow> string \<Rightarrow> out" where
  "printOffset a v g = outs [printNumber (of_nat v) True,
     and_then (getGlobalID a g) (\<lambda>n. printNumber (of_nat n) True)]"

text \<open>The cases of a constant expression that is an address; \<open>None\<close> is not an address.\<close>

definition printAddress :: "(konst \<Rightarrow> konst) \<Rightarrow> analysis \<Rightarrow> konst \<Rightarrow> out option" where
  "printAddress kstrip a c = (case c of KExpr op t cs \<Rightarrow>
     (case (case kstrip c of KExpr op' t' cs' \<Rightarrow> (op', cs') | _ \<Rightarrow> (op, cs)) of (vop, vcs) \<Rightarrow>
      (case vcs of [] \<Rightarrow> Some (Inl (Failed ''getOperand(0)''))
       | v # vs \<Rightarrow> (case kstrip v of
           KGlobal g \<Rightarrow>
             if vop = CE_GetElementPtr \<and> length vs = 1
             then Some (case vs of [KInt w n] \<Rightarrow> printOffset a n g | _ \<Rightarrow> Inl (Failed ''dyn_cast<ConstantInt>''))
             else (case vs of
                 [KInt w0 n0, KInt w1 n1] \<Rightarrow>
                   if n0 = 0 then Some (printOffset a n1 g)
                   else if op = CE_BitCast then Some (printOffset a 0 g) else None
               | [x, y] \<Rightarrow> Some (Inl (Failed ''dyn_cast<ConstantInt>''))
               | _ \<Rightarrow> if op = CE_BitCast then Some (printOffset a 0 g) else None)
         | _ \<Rightarrow> None)))
   | _ \<Rightarrow> None)"

function printConstant :: "(konst \<Rightarrow> konst) \<Rightarrow> analysis \<Rightarrow> konst \<Rightarrow> out" where
  "printConstant kstrip a (KExpr op t cs) = (case printAddress kstrip a (KExpr op t cs) of Some o' \<Rightarrow> o'
     | None \<Rightarrow> Inl (Stop ''Global variable has runtime-computable constant expression initializer''))"
| "printConstant kstrip a (KInt w v) = outs
     [assert_that (v < 2 ^ 64) ''Too many bits for uint64_t'', printNumber (of_nat v) True]"
| "printConstant kstrip a (KNull t) = printNumber 0 True"
| "printConstant kstrip a (KZero t) = printNumber 0 True"
| "printConstant kstrip a (KArray cs) = outs (assert_that (cs \<noteq> []) ''[0xty] arrays are not supported!''
     # map (printConstant kstrip a) cs)"
| "printConstant kstrip a (KStruct cs) = outs (assert_that (cs \<noteq> []) ''[0xty] arrays are not supported!''
     # map (printConstant kstrip a) cs)"
| "printConstant kstrip a (KData cs) = outs (assert_that (cs \<noteq> []) ''[0xty] arrays are not supported!''
     # map (printConstant kstrip a) cs)"
| "printConstant kstrip a (KFloat z) =
     (if z then printNumber 0 True else Inl (Stop ''Floating point constants are not supported!''))"
| "printConstant kstrip a (KGlobal g) = Inl (Stop ''Unsupported constant type'')"
| "printConstant kstrip a (KUndef t) = Inl (Stop ''Unsupported constant type'')"
| "printConstant kstrip a (KFunction f) = Inl (Stop ''Unsupported constant type'')"
  by pat_completeness auto
termination
  by (relation "measure (\<lambda>(_, _, c). size c)") (auto simp: less_Suc_eq_le size_list_estimation')

section \<open>Globals\<close>

text \<open>\<open>kty\<close> is the type of a constant; the size of \<^verbatim>\<open>apiCalls\<close> is that of its key set.\<close>

definition printApi :: "analysis \<Rightarrow> mfunction \<Rightarrow> out" where
  "printApi a F = outs [and_then (getExternalID a (mf_name F)) (\<lambda>n. printNumber (of_nat n) False),
     printTypeID a (mf_ty F), printConstData (chars (mf_name F) @ [0])]"

definition printInit :: "(konst \<Rightarrow> ty) \<Rightarrow> (konst \<Rightarrow> konst) \<Rightarrow> analysis \<Rightarrow> konst option \<Rightarrow> out" where
  "printInit kty kstrip a c = (case c of
       None \<Rightarrow> Inl (Failed ''cast<Constant>'')
     | Some c \<Rightarrow> outs [and_then (getTypeID a (kty c)) (\<lambda>n. printNumber (of_nat (n mod 65536)) False),
         printConstant kstrip a c, printNumber 0 False])"

definition printInits :: "(konst \<Rightarrow> ty) \<Rightarrow> (konst \<Rightarrow> konst) \<Rightarrow> analysis \<Rightarrow> out" where
  "printInits kty kstrip a = (case globalInits a of [] \<Rightarrow> Inr []
     | c # cs \<Rightarrow> outs ([assert_that (c = None) ''!*I'', printNumber 0 False, printNumber 0 True, printNumber 0 False]
         @ map (printInit kty kstrip a) cs))"

definition printExtraTypes :: "layout \<Rightarrow> analysis \<Rightarrow> out" where
  "printExtraTypes L a = outs (map (\<lambda>(n, t). outs
     [and_then (getTypeID a t) (\<lambda>m. assert_that (m = n) ''internal type ID mismatch''), describeType L a t])
     (zip [startTID a..<startTID a + length (extraTypes a)] (extraTypes a)))"

definition printGlobals :: "layout \<Rightarrow> (konst \<Rightarrow> ty) \<Rightarrow> (konst \<Rightarrow> konst) \<Rightarrow> analysis \<Rightarrow> cmd" where
  "printGlobals L kty kstrip a = (let ncalls = length (remdups (map mf_name (apis a))) in seq
     [emit (Inr (chars (if an_logicalSignature a = [] then an_virusnames a else an_logicalSignature a))),
      printEOL, printOne CHR ''T'', emit (printFixedNumber (of_nat (startTID a)) 2),
      emit (printExtraTypes L a),
      printEOL, printOne CHR ''E'', emit (printNumber (of_nat (maxApi a)) False),
      emit (printNumber (of_nat ncalls) False),
      emit (assert_that (length (apis a) = ncalls) ''Number of apis do not match''),
      emit (outs (map (printApi a) (apis a))),
      printEOL, printOne CHR ''G'', emit (printNumber (of_nat (maxGlobal a)) False),
      emit (printNumber (of_nat (length (globalInits a))) False),
      emit (printInits kty kstrip a)])"

section \<open>Single-index address computations\<close>

text \<open>
  \<^verbatim>\<open>fixGEPs\<close>: the interpreter handles an address computation with one index on byte
  pointers only. One on another pointer becomes a cast to a byte pointer, a multiplication of
  the index by the size of the element, an address computation on bytes and a cast back, which
  takes the place of the old instruction. New instructions get the numbers from \<open>n\<close>;
  \<open>inbounds\<close> is the flag of the old instruction.
\<close>

abbreviation i8ptr :: ty where
  "i8ptr \<equiv> PtrTy (IntTy 8)"

fun elementWidth :: "ty \<Rightarrow> wr_error + nat" where
  "elementWidth (PtrTy (IntTy w)) = Inr w"
| "elementWidth (PtrTy t) = Inl (Failed ''ONLY INTEGER TYPES ARE CURRENTLY IMPLEMENTED'')"
| "elementWidth t = Inl (Failed ''HOW COULD THIS HAPPEN?'')"

fun constantOfType :: "ty \<Rightarrow> nat \<Rightarrow> val" where
  "constantOfType (IntTy w) n = VConst (IntTy w) (KInt w (n mod 2 ^ w))"
| "constantOfType t n = VConst t (KUndef t)"

definition byteGEP :: "inst \<Rightarrow> val \<Rightarrow> val \<Rightarrow> nat \<Rightarrow> nat \<Rightarrow> inst list" where
  "byteGEP i p ix multiplier n =
     [\<lparr>inst_id = n, inst_ty = i8ptr, inst_kind = Cast (BitCast True) p\<rparr>,
      \<lparr>inst_id = n + 1, inst_ty = val_ty ix, inst_kind = Binary Mul (constantOfType (val_ty ix) multiplier) ix\<rparr>,
      \<lparr>inst_id = n + 2, inst_ty = i8ptr,
       inst_kind = GetElementPtr (VInst i8ptr n) [VInst (val_ty ix) (n + 1)]\<rparr>,
      \<lparr>inst_id = inst_id i, inst_ty = inst_ty i, inst_kind = Cast (BitCast True) (VInst i8ptr (n + 2))\<rparr>]"

definition fixGEP :: "analysis \<Rightarrow> (inst \<Rightarrow> bool) \<Rightarrow> inst \<Rightarrow> nat \<Rightarrow> wr_error + inst list \<times> nat" where
  "fixGEP a inbounds i n = (case inst_kind i of
       GetElementPtr p [ix] \<Rightarrow>
         and_then (getTypeID a (val_ty p)) (\<lambda>iid.
         if iid \<le> 65 then Inr ([i], n)
         else if \<not> isPointerTy (inst_ty i) then Inl (Failed ''ONLY POINTER TYPES ARE CURRENTLY SUPPORTED'')
         else and_then (elementWidth (val_ty p)) (\<lambda>width.
         if width div 8 = 0 then Inl (Failed ''HOW DID THIS END UP ZERO'')
         else if \<not> inbounds i then Inl (Failed ''inbounds'')
         else Inr (byteGEP i p ix (width div 8) n, n + 3)))
     | _ \<Rightarrow> Inr ([i], n))"

definition fixBlock :: "analysis \<Rightarrow> (inst \<Rightarrow> bool) \<Rightarrow> inst list \<Rightarrow> nat \<Rightarrow> wr_error + inst list \<times> nat" where
  "fixBlock a inbounds b n = fold_err (\<lambda>i (js, n).
     and_then (fixGEP a inbounds i n) (\<lambda>(is, n). Inr (js @ is, n))) b ([], n)"

definition fixGEPs :: "analysis \<Rightarrow> (inst \<Rightarrow> bool) \<Rightarrow> bfunction \<Rightarrow> wr_error + bfunction" where
  "fixGEPs a inbounds f = and_then (fold_err (\<lambda>b (bs, n).
     and_then (fixBlock a inbounds b n) (\<lambda>(b', n). Inr (bs @ [b'], n))) (f_blocks f) ([], fresh_id f))
     (\<lambda>(bs, _). Inr (f\<lparr>f_blocks := bs\<rparr>))"

section \<open>Header and source\<close>

text \<open>A minimum or maximum of 0 means none.\<close>

definition checkFunctionalityLevel :: "uint32_t \<Rightarrow> uint32_t \<Rightarrow> uint32_t \<Rightarrow> bool" where
  "checkFunctionalityLevel query mn mx =
     (if mn \<noteq> 0 \<and> query < mn then False else if mx \<noteq> 0 \<and> mx < query then False else True)"

definition FUNC_LEVEL_096 :: uint32_t where
  "FUNC_LEVEL_096 = (case enum_value lib_FunctionalityLevels ''FUNC_LEVEL_096'' of Some v \<Rightarrow> of_int v | None \<Rightarrow> 0)"

text \<open>
  What the header takes from outside the module: the functionality levels of its metadata, the
  time, the environment variables \<^verbatim>\<open>SIGNDUSER\<close> and \<^verbatim>\<open>USER\<close>, and the version of the
  compiler.
\<close>

record header_env =
  h_minfunc :: uint32_t
  h_maxfunc :: uint32_t
  h_now :: uint64_t
  h_signduser :: "bytes option"
  h_user :: "bytes option"
  h_version :: bytes

definition printModuleHeader :: "header_env \<Rightarrow> analysis \<Rightarrow> mfunction list \<Rightarrow> uint32_t \<Rightarrow> out" where
  "printModuleHeader h a fs maxLine = (
     let user = (case h_signduser h of None \<Rightarrow> h_user h | Some u \<Rightarrow> Some u);
         line = (if maxLine < 4096 then 4096 else maxLine);
         text = outs
           [Inr (chars ''ClamBC''),
            printNumber (if checkFunctionalityLevel FUNC_LEVEL_096 (h_minfunc h) (h_maxfunc h)
              then of_nat BC_FORMAT_096 else of_nat BC_FORMAT_LEVEL) False,
            printNumber (h_now h) False, printString user 64, printNumber 0 False,
            printNumber (of_nat (an_kind a)) False,
            printNumber (ucast (h_minfunc h)) False, printNumber (ucast (h_maxfunc h)) False,
            printNumber 0 False, printString (Some (h_version h)) 64,
            printNumber (of_nat (length (extraTypes a)) + of_nat (startTID a) - 64) False,
            printNumber (of_nat (length (filter (\<lambda>f. \<not> mf_isDeclaration f) fs))) False,
            printNumber 0x53e5493e9f3d1c30 False, printFixedNumber 42 2,
            Inr (chars '':'' @ chars (decimal (unat line)) @ chars [CHR 0x0A])]
     in and_then text (\<lambda>bs. if length bs < 8192 then Inr bs else Inl (Failed ''OutReal too big'')))"

definition is_blank :: "uint8_t \<Rightarrow> bool" where
  "is_blank c \<longleftrightarrow> c = 0x20 \<or> c = 0x09"

text \<open>
  The loop of \<^verbatim>\<open>finished\<close> over the source text, which ends at its first NUL: blanks at
  the beginning of a line are dropped, every other character is written as two nibbles. A
  line ends with \<open>S\<close>, or with a line feed when the line of the output has 80 characters
  or at the end.
\<close>

definition is_line :: "uint8_t \<Rightarrow> bool" where
  "is_line c \<longleftrightarrow> c \<noteq> 0x0A \<and> c \<noteq> 0"

lemma rest_shorter:
  "dropWhile P (dropWhile Q s) \<noteq> [] \<Longrightarrow> length (dropWhile P (dropWhile Q s)) - Suc 0 < length s"
  using length_dropWhile_le[of Q s] length_dropWhile_le[of P "dropWhile Q s"]
  by (cases "dropWhile P (dropWhile Q s)") auto

function embed_source :: "bytes \<Rightarrow> nat \<Rightarrow> bytes" where
  "embed_source s linelength = (
     let s1 = dropWhile is_blank s;
         line = takeWhile is_line s1;
         rest = dropWhile is_line s1;
         more = (rest \<noteq> [] \<and> hd rest \<noteq> 0);
         len = linelength + length line
     in concat (map char_nibbles line) @
        (if more \<and> len < 80 then chars ''S'' @ embed_source (tl rest) len
         else (if 0 < len then chars [CHR 0x0A] else []) @
              (if more then embed_source (tl rest) (if 0 < len then 0 else len) else [])))"
  by pat_completeness auto
termination
  by (relation "measure (\<lambda>(s, _). length s)") (auto simp: rest_shorter)

declare embed_source.simps [simp del]

text \<open>\<open>source\<close> is the text of the source file, when it can be opened.\<close>

definition finished :: "header_env \<Rightarrow> analysis \<Rightarrow> mfunction list \<Rightarrow> bytes option \<Rightarrow> output_writer \<Rightarrow> out" where
  "finished h a fs source w = (
     let start = (if an_copyright a \<noteq> [] then Some (chars (an_copyright a)) else source)
     in outs [printModuleHeader h a fs (of_nat (maxLineLength w + 1)), Inr (lineBuffer w),
          (case start of
             None \<Rightarrow> Inl (Stop ''Bytecode should either have source code or include copyright statement'')
           | Some s \<Rightarrow> Inr (chars ''S'' @ embed_source s 0))])"

section \<open>The pass\<close>

text \<open>What the pass asks LLVM about the module.\<close>

record llvm_env =
  lv_layout :: layout
  lv_kty :: "konst \<Rightarrow> ty"
  lv_kstrip :: "konst \<Rightarrow> konst"
  lv_strip :: "val \<Rightarrow> val"
  lv_effects :: "inst \<Rightarrow> bool"
  lv_inbounds :: "inst \<Rightarrow> bool"
  lv_available :: "mfunction \<Rightarrow> bool"
  lv_CEMap :: "konst \<rightharpoonup> string"

definition writer_ctx :: "llvm_env \<Rightarrow> nat \<Rightarrow> analysis \<Rightarrow> bfunction \<Rightarrow> regalloc \<Rightarrow> wctx" where
  "writer_ctx lv minflvl a f ra = \<lparr>wc_an = a, wc_CEMap = lv_CEMap lv, wc_ra = ra, wc_fun = f,
     wc_minflvl = minflvl, wc_strip = lv_strip lv\<rparr>"

text \<open>
  Register allocation changes the function: its phi nodes are gone afterwards. Instructions of
  different functions are different keys of \<^verbatim>\<open>SkipMap\<close>, so each function starts with
  none of its own.
\<close>

definition runOnFunction :: "llvm_env \<Rightarrow> nat \<Rightarrow> analysis \<Rightarrow> mfunction
    \<Rightarrow> nat \<times> output_writer \<Rightarrow> wr_error + nat \<times> output_writer" where
  "runOnFunction lv minflvl a F st = (case st of (fid, w) \<Rightarrow>
     and_then (fixGEPs a (lv_inbounds lv) (mf_body F)) (\<lambda>f.
     if f_name f = [] then Inl (Failed ''Function created by ClamBCRebuild is not being deleted'')
     else if lv_available lv F then Inr (fid, w)
     else and_then (getFunctionID a (f_name f)) (\<lambda>n.
     if n \<noteq> fid + 1 then Inl (Failed ''Function IDs do not match'')
     else let f = snd (eliminate_phis f) in
     and_then (runOnFunction_regalloc (lv_effects lv) f
         \<lparr>ValueMap = [], RevValueMap = [], SkipMap = {}, ra_id = 0\<rparr>) (\<lambda>ra.
     and_then (printFunction (writer_ctx lv minflvl a f ra) w) (\<lambda>w. Inr (fid + 1, w))))))"

definition write_functions :: "llvm_env \<Rightarrow> nat \<Rightarrow> analysis \<Rightarrow> mfunction list \<Rightarrow> wr_error + output_writer" where
  "write_functions lv minflvl a fs =
     and_then (printGlobals (lv_layout lv) (lv_kty lv) (lv_kstrip lv) a new_writer) (\<lambda>w.
     and_then (fold_err (runOnFunction lv minflvl a) (filter (\<lambda>f. \<not> mf_isDeclaration f) fs) (0, w)) (\<lambda>(fid, w).
     printEOL w))"

definition write_module :: "llvm_env \<Rightarrow> nat \<Rightarrow> header_env \<Rightarrow> bytes option \<Rightarrow> analysis \<Rightarrow> mfunction list \<Rightarrow> out" where
  "write_module lv minflvl h source a fs =
     and_then (write_functions lv minflvl a fs) (\<lambda>w. finished h a fs source w)"

end
