(* ===== verification/BC_Lines.thy ===== *)
theory BC_Lines
  imports BC_Writer
begin

text \<open>
  The line buffer of \<^theory_text>\<open>BC_Writer\<close>: every command only appends, and the length of the
  longest line is the one that the header announces.
\<close>

section \<open>What a command writes\<close>

text \<open>A command that succeeds appends the text \<open>t\<close>.\<close>

definition writes :: "cmd \<Rightarrow> out \<Rightarrow> bool" where
  "writes c t \<longleftrightarrow> (\<forall>w w'. c w = Inr w' \<longrightarrow> (\<exists>bs. t = Inr bs \<and> lineBuffer w' = lineBuffer w @ bs))"

lemma writesD: "writes c t \<Longrightarrow> c w = Inr w' \<Longrightarrow> \<exists>bs. t = Inr bs \<and> lineBuffer w' = lineBuffer w @ bs"
  by (simp add: writes_def)

lemma writes_emit [intro]: "writes (emit t) t"
  by (auto simp: writes_def emit_def and_then_Inr_iff)

lemma writes_EOL [intro]: "writes printEOL (Inr [0x0A])"
  by (auto simp: writes_def printEOL_def Let_def chars_def split: if_splits)

lemma writes_One [intro]: "writes (printOne c) (Inr [of_nat (of_char c)])"
  using writes_emit[of "Inr (chars [c])"] by (simp add: printOne_def chars_def)

lemma writes_seq: "list_all2 writes cs ts \<Longrightarrow> writes (seq cs) (outs ts)"
proof (induction rule: list_all2_induct)
  case Nil
  then show ?case by (simp add: writes_def seq_def)
next
  case (Cons c cs t ts)
  show ?case
    unfolding writes_def seq_def
  proof (intro allI impI)
    fix w w' assume "fold_err (\<lambda>c. c) (c # cs) w = Inr w'"
    then obtain w1 where "c w = Inr w1" "seq cs w1 = Inr w'" by (auto simp: seq_def and_then_Inr_iff)
    from writesD[OF Cons(1) this(1)] writesD[OF Cons(3) this(2)] show "\<exists>bs. outs (t # ts) = Inr bs \<and> lineBuffer w' = lineBuffer w @ bs" by auto
  qed
qed

section \<open>The longest line\<close>

text \<open>
  Up to the last line feed counted, no stretch of text without a line feed is as long as the
  longest line with its line feed.
\<close>

definition line_inv :: "output_writer \<Rightarrow> bool" where
  "line_inv w \<longleftrightarrow> lastLinePos w \<le> length (lineBuffer w)
     \<and> (lastLinePos w \<noteq> 0 \<longrightarrow> lineBuffer w ! (lastLinePos w - 1) = 0x0A)
     \<and> (\<forall>i j. i \<le> j \<and> j \<le> lastLinePos w \<and> (\<forall>k. i \<le> k \<and> k < j \<longrightarrow> lineBuffer w ! k \<noteq> 0x0A)
          \<longrightarrow> j - i < max 1 (maxLineLength w))"

definition keeps_lines :: "cmd \<Rightarrow> bool" where
  "keeps_lines c \<longleftrightarrow> (\<forall>w w'. line_inv w \<longrightarrow> c w = Inr w' \<longrightarrow> line_inv w')"

lemma keeps_emit [intro]: "keeps_lines (emit t)"
  unfolding keeps_lines_def line_inv_def emit_def
  by (auto simp: and_then_Inr_iff nth_append)

lemma keeps_EOL [intro]: "keeps_lines printEOL"
  unfolding keeps_lines_def
proof (intro allI impI)
  fix w w' assume inv: "line_inv w" and ok: "printEOL w = Inr w'"
  define n where "n = length (lineBuffer w)"
  have w': "lineBuffer w' = lineBuffer w @ [0x0A]" "lastLinePos w' = Suc n"
    "maxLineLength w \<le> maxLineLength w'" "Suc n - lastLinePos w \<le> maxLineLength w'"
    using ok by (auto simp: printEOL_def Let_def n_def chars_def split: if_splits)
  have last: "lastLinePos w \<le> n" using inv by (simp add: line_inv_def n_def)
  have "j - i < max 1 (maxLineLength w')"
    if ij: "i \<le> j" "j \<le> Suc n" and none: "\<forall>k. i \<le> k \<and> k < j \<longrightarrow> lineBuffer w' ! k \<noteq> 0x0A" for i j
  proof (cases "i = j")
    case False
    then have "i < j" using ij by simp
    moreover have "lineBuffer w' ! n = 0x0A" by (simp add: w' n_def)
    ultimately have jn: "j \<le> n" using none ij by (metis Suc_leI le_antisym less_Suc_eq_le not_le)
    have old: "\<forall>k. i \<le> k \<and> k < j \<longrightarrow> lineBuffer w ! k \<noteq> 0x0A"
      using none jn by (auto simp: w' n_def nth_append)
    show ?thesis
    proof (cases "j \<le> lastLinePos w")
      case True
      then have "j - i < max 1 (maxLineLength w)" using inv ij(1) old by (auto simp: line_inv_def)
      then show ?thesis using w'(3) by simp
    next
      case False
      have "lastLinePos w \<le> i"
      proof (rule ccontr)
        assume "\<not> lastLinePos w \<le> i"
        then have "i \<le> lastLinePos w - 1" "lastLinePos w - 1 < j" "lastLinePos w \<noteq> 0" using False by auto
        with old inv show False by (auto simp: line_inv_def)
      qed
      then show ?thesis using w'(4) jn last by linarith
    qed
  qed simp
  then show "line_inv w'" unfolding line_inv_def w'(1,2) by (auto simp: n_def)
qed

lemma keeps_One [intro]: "keeps_lines (printOne c)"
  unfolding printOne_def by (rule keeps_emit)

lemma keeps_seq [intro]: "\<forall>c\<in>set cs. keeps_lines c \<Longrightarrow> keeps_lines (seq cs)"
  unfolding keeps_lines_def seq_def
  using fold_err_invariant[where P = line_inv and f = "\<lambda>c. c" and xs = cs] by blast

lemmas keeps_lines = keeps_emit keeps_EOL keeps_One

lemma keepsD: "keeps_lines c \<Longrightarrow> c w = Inr w' \<Longrightarrow> line_inv w \<Longrightarrow> line_inv w'"
  by (simp add: keeps_lines_def)

lemma keeps_block: "keeps_lines (printBasicBlock ctx b)"
  unfolding printBasicBlock_def by (rule keeps_seq) (simp add: keeps_lines ball_Un)

lemma keeps_function: "keeps_lines (printFunction ctx)"
proof -
  have head: "keeps_lines (seq (function_head ctx))"
    unfolding function_head_def Let_def by (rule keeps_seq) (simp add: keeps_lines)
  have body: "keeps_lines (seq (function_body ctx vs))" for vs
    unfolding function_body_def Let_def by (rule keeps_seq) (simp add: keeps_lines keeps_block ball_Un)
  show ?thesis
    unfolding keeps_lines_def
    by (auto simp: printFunction_def and_then_Inr_iff dest: keepsD[OF head] keepsD[OF body])
qed

lemma keeps_globals: "keeps_lines (printGlobals L kty kstrip a)"
  unfolding printGlobals_def Let_def by (rule keeps_seq) (simp add: keeps_lines)

lemma line_inv_new: "line_inv new_writer"
  by (simp add: line_inv_def new_writer_def)

lemma runOnFunction_lines:
  "runOnFunction lv minflvl a F st = Inr st' \<Longrightarrow> line_inv (snd st) \<Longrightarrow> line_inv (snd st')"
  by (cases st) (auto simp: runOnFunction_def Let_def and_then_Inr_iff split: if_splits intro: keepsD[OF keeps_function])

lemma write_functions_lines:
  assumes "write_functions lv minflvl a fs = Inr w"
  shows "line_inv w \<and> lastLinePos w = length (lineBuffer w) \<and> 0 < maxLineLength w"
proof -
  from assms obtain w0 fid w1 where w0: "printGlobals (lv_layout lv) (lv_kty lv) (lv_kstrip lv) a new_writer = Inr w0"
    and f: "fold_err (runOnFunction lv minflvl a) (filter (\<lambda>f. \<not> mf_isDeclaration f) fs) (0, w0) = Inr (fid, w1)"
    and eol: "printEOL w1 = Inr w"
    by (auto simp: write_functions_def and_then_Inr_iff)
  have "line_inv w0" using keeps_globals line_inv_new w0 unfolding keeps_lines_def by blast
  then have "line_inv (snd (fid, w1))"
    using fold_err_invariant[where P = "\<lambda>st. line_inv (snd st)", OF _ _ f] runOnFunction_lines by auto
  then have "line_inv w" using keeps_EOL eol unfolding keeps_lines_def by auto
  moreover have "lastLinePos w1 \<le> length (lineBuffer w1)"
    using \<open>line_inv (snd (fid, w1))\<close> by (simp add: line_inv_def)
  ultimately show ?thesis using eol by (auto simp: printEOL_def Let_def chars_def split: if_splits)
qed


text \<open>A module without types, functions and variables of its own.\<close>

definition tiny_analysis :: analysis where
  "tiny_analysis = \<lparr>an_kind = 0, an_copyright = [], an_logicalSignature = [], an_virusnames = ''Test'',
     startTID = 69, tid = 69, typeIDs = Map.empty, extraTypes = [], types = [], functionIDs = Map.empty,
     nextFid = 1, apiCalls = Map.empty, apis = [], maxApi = 0, globals = Map.empty, nextGlobal = 1,
     maxGlobal = 0, globalInits = [None]\<rparr>"

definition plain_llvm :: llvm_env where
  "plain_llvm = \<lparr>lv_layout = \<lparr>abi_align = \<lambda>_. 8, type_bits = \<lambda>_. 64\<rparr>, lv_kty = \<lambda>_. IntTy 32,
     lv_kstrip = \<lambda>c. c, lv_strip = \<lambda>v. v, lv_effects = \<lambda>_. True, lv_inbounds = \<lambda>_. True,
     lv_available = \<lambda>_. False, lv_CEMap = Map.empty\<rparr>"

definition tiny_text :: bytes where
  "tiny_text = chars ''Test'' @ [0x0A] @ chars ''Ted'' @ [0x0A] @ chars ''E``'' @ [0x0A] @ chars ''G`aa`@`'' @ [0x0A]"

lemma tiny_written:
  "write_functions plain_llvm 0 tiny_analysis [] = Inr \<lparr>lineBuffer = tiny_text, lastLinePos = 21, maxLineLength = 8\<rparr>"
  by code_simp


end
