(* ===== verification/BC_Header.thy ===== *)
theory BC_Header
  imports BC_Lines
begin

text \<open>
  The two ends of a bytecode file: the header that \<^verbatim>\<open>printModuleHeader\<close> writes first
  and the source text that \<^verbatim>\<open>finished\<close> embeds last. The header reads back, always fits
  into the 8192 characters its assertion asks for, and carries the format level that the
  functionality levels demand; the embedded source decodes to the source without the blanks
  at the beginning of its lines.
\<close>

section \<open>The source text\<close>

text \<open>
  How the embedded source is read: \<open>S\<close> and a line feed both end a line, every other
  character is the low nibble of a byte, followed by the high one.
\<close>

fun decode_source :: "bytes \<Rightarrow> bytes" where
  "decode_source [] = []"
| "decode_source (c # cs) = (if c = 0x53 \<or> c = 0x0A then 0x0A # decode_source cs
     else case cs of [] \<Rightarrow> [] | d # ds \<Rightarrow> ((c AND 0xf) OR push_bit 4 (d AND 0xf)) # decode_source ds)"

fun split_lines :: "bytes \<Rightarrow> bytes list" where
  "split_lines [] = [[]]"
| "split_lines (c # s) = (if c = 0x0A then [] # split_lines s
     else case split_lines s of [] \<Rightarrow> [[c]] | l # ls \<Rightarrow> (c # l) # ls)"

fun join_lines :: "bytes list \<Rightarrow> bytes" where
  "join_lines [] = []"
| "join_lines [l] = l"
| "join_lines (l # ls) = l @ 0x0A # join_lines ls"

lemma split_lines_not_Nil [simp]: "split_lines s \<noteq> []"
  by (cases s) (auto split: list.splits)

lemma join_split: "join_lines (split_lines s) = s"
proof (induction s)
  case (Cons c s)
  then show ?case by (cases "split_lines s"; cases "tl (split_lines s)") auto
qed simp

lemma nibble_not_end: "(0x60 :: uint8_t) OR (x AND 0xf) \<noteq> 0x53" "(0x60 :: uint8_t) OR (x AND 0xf) \<noteq> 0x0A"
proof -
  have "(0x53 :: uint8_t) AND 0xf0 \<noteq> 0x60" "(0x0A :: uint8_t) AND 0xf0 \<noteq> 0x60" by simp_all
  then show "(0x60 :: uint8_t) OR (x AND 0xf) \<noteq> 0x53" "(0x60 :: uint8_t) OR (x AND 0xf) \<noteq> 0x0A"
    using nibble_tag[of x] by metis+
qed

lemma decode_char_nibbles: "decode_source (concat (map char_nibbles line) @ rest) = line @ decode_source rest"
proof (induction line)
  case (Cons c line)
  have "(c AND 0xf) OR push_bit 4 (drop_bit 4 c AND 0xf) = c"
    using read_char_nibbles[of "[c]" "[]"] by (simp add: char_nibbles_def nibble_tag nibble_value)
  with Cons show ?case by (simp add: char_nibbles_def nibble_not_end nibble_value)
qed simp

lemma blank_is_line: "is_blank c \<Longrightarrow> is_line c"
  by (auto simp: is_blank_def is_line_def)

lemma take_drop_blank:
  "takeWhile is_line (dropWhile is_blank s) = dropWhile is_blank (takeWhile is_line s)"
  "dropWhile is_line (dropWhile is_blank s) = dropWhile is_line s"
  by (induction s) (auto simp: blank_is_line)

lemma split_lines_step:
  "split_lines (takeWhile (\<lambda>c. c \<noteq> 0) s) = takeWhile is_line s #
     (if dropWhile is_line s \<noteq> [] \<and> hd (dropWhile is_line s) \<noteq> 0
      then split_lines (takeWhile (\<lambda>c. c \<noteq> 0) (tl (dropWhile is_line s))) else [])"
proof (induction s)
  case (Cons c s)
  then show ?case by (cases "is_line c") (auto simp: is_line_def[of c])
qed simp

lemma line_end:
  fixes k :: nat
  shows "(if m \<and> k < 80 then A else (if 0 < k then B else []) @ (if m then C (if 0 < k then 0 else k) else []))
    = (if m then (if k < 80 then A else B @ C 0) else if 0 < k then B else [])"
  by auto


section \<open>The header\<close>

datatype hsort = HNumber | HData | HFixed

datatype hitem = HN uint64_t | HD bytes | HF uint32_t

fun read_hitem :: "hsort \<Rightarrow> bytes \<Rightarrow> (hitem \<times> bytes) option" where
  "read_hitem HNumber bs = map_option (\<lambda>(n, r). (HN n, r)) (readNumber bs)"
| "read_hitem HData bs = map_option (\<lambda>(s, r). (HD s, r)) (readConstData bs)"
| "read_hitem HFixed bs = map_option (\<lambda>(n, r). (HF n, r)) (readFixed 2 bs)"

text \<open>The items behind the six characters of the magic.\<close>

definition header_sorts :: "hsort list" where
  "header_sorts = [HNumber, HNumber, HData, HNumber, HNumber, HNumber, HNumber, HNumber, HData,
     HNumber, HNumber, HNumber, HFixed]"

definition c_string :: "bytes option \<Rightarrow> bytes" where
  "c_string s = take 64 (takeWhile (\<lambda>c. c \<noteq> 0) (case s of None \<Rightarrow> [] | Some x \<Rightarrow> x)) @ [0]"

lemma length_decimal: "n < 10 ^ Suc k \<Longrightarrow> length (decimal n) \<le> Suc k"
proof (induction k arbitrary: n)
  case 0
  then show ?case by (simp add: decimal.simps)
next
  case (Suc k)
  have "n div 10 < 10 ^ Suc k" using Suc.prems by (simp add: less_mult_imp_div_less mult.commute)
  from Suc.IH[OF this] show ?case by (simp add: decimal.simps[of n])
qed

lemma prints_hnumber: "prints_item read_hitem (printNumber n False) HNumber (Some (HN n))"
  by (auto simp: prints_item_def number.read_print)

lemma printString_c_string: "printString s 64 = printConstData (c_string s)"
  by (simp add: printString_def c_string_def split: option.splits)

lemma prints_hstring: "prints_item read_hitem (printString s 64) HData (Some (HD (c_string s)))"
  unfolding prints_item_def printString_c_string
proof (intro allI impI)
  fix bs assume bs: "printConstData (c_string s) = Inr bs"
  have "length (c_string s) \<le> 65" by (simp add: c_string_def)
  also have "(65 :: nat) < 2 ^ 64" by simp
  finally show "\<exists>x. Some (HD (c_string s)) = Some x \<and> (\<forall>rest. read_hitem HData (bs @ rest) = Some (x, rest))"
    using constdata.read_print[OF _ bs] by simp
qed

lemma prints_hfixed: "prints_item read_hitem (printFixedNumber n 2) HFixed (Some (HF n))"
  by (auto simp: prints_item_def fixednum.read_print)

lemma number_length: "printNumber n c = Inr bs \<Longrightarrow> length bs \<le> 17"
  using length_nibbles_16[of n] by (auto simp: printNumber_def Let_def)

lemma string_length: "printString s 64 = Inr bs \<Longrightarrow> length bs \<le> 148"
proof -
  assume ok: "printString s 64 = Inr bs"
  obtain ns where ns: "printNumber (of_nat (length (c_string s))) False = Inr ns" using printNumber_Inr by blast
  with ok have bs: "bs = 0x7c # ns @ concat (map char_nibbles (c_string s))"
    by (simp add: printString_c_string printConstData_def chars_def)
  have "length (concat (map char_nibbles x)) = 2 * length x" for x
    by (induction x) (simp_all add: char_nibbles_def)
  moreover have "length (c_string s) \<le> 65" by (simp add: c_string_def)
  ultimately show ?thesis using number_length[OF ns] by (simp add: bs)
qed

text \<open>Thirteen items of bounded length.\<close>

definition header_items :: "header_env \<Rightarrow> analysis \<Rightarrow> mfunction list \<Rightarrow> (out \<times> hsort \<times> hitem option) list" where
  "header_items h a fs = (let num = \<lambda>n. (printNumber n False, HNumber, Some (HN n));
       str = \<lambda>s. (printString s 64, HData, Some (HD (c_string s)))
     in [num (if checkFunctionalityLevel FUNC_LEVEL_096 (h_minfunc h) (h_maxfunc h) then of_nat BC_FORMAT_096
           else of_nat BC_FORMAT_LEVEL),
         num (h_now h), str (case h_signduser h of None \<Rightarrow> h_user h | Some u \<Rightarrow> Some u), num 0,
         num (of_nat (an_kind a)), num (ucast (h_minfunc h)), num (ucast (h_maxfunc h)), num 0,
         str (Some (h_version h)), num (of_nat (length (extraTypes a)) + of_nat (startTID a) - 64),
         num (of_nat (length (filter (\<lambda>f. \<not> mf_isDeclaration f) fs))), num 0x53e5493e9f3d1c30,
         (printFixedNumber 42 2, HFixed, Some (HF 42))])"

lemma header_items_print: "\<forall>(t, F, it)\<in>set (header_items h a fs). prints_item read_hitem t F it"
  unfolding header_items_def Let_def by (simp add: prints_hnumber prints_hstring prints_hfixed)

lemma short_items:
  assumes "\<forall>t\<in>set ts. \<exists>bs. t = Inr bs \<and> length bs \<le> 148"
  shows "\<exists>bs. outs ts = Inr bs \<and> length bs \<le> 148 * length ts"
  using assms
proof (induction ts)
  case (Cons t ts)
  then obtain b cs where "t = Inr b" "length b \<le> 148" "outs ts = Inr cs" "length cs \<le> 148 * length ts" by auto
  then show ?case by simp
qed simp

lemma header_items_short: "\<exists>bs. outs (map fst (header_items h a fs)) = Inr bs \<and> length bs \<le> 1924"
proof -
  have n: "\<exists>bs. printNumber n False = Inr bs \<and> length bs \<le> 148" for n
  proof -
    obtain bs where bs: "printNumber n False = Inr bs" using printNumber_Inr by blast
    then show ?thesis using number_length[OF bs] by auto
  qed
  have s: "\<exists>bs. printString x 64 = Inr bs \<and> length bs \<le> 148" for x
    using printConstData_Inr string_length unfolding printString_c_string by metis
  have f: "\<exists>bs. printFixedNumber 42 2 = Inr bs \<and> length bs \<le> 148"
    using printFixedNumber_Inr_iff[of 42 2] readFixedNumber_print[of 42 2] by fastforce
  have "\<forall>t\<in>set (map fst (header_items h a fs)). \<exists>bs. t = Inr bs \<and> length bs \<le> 148"
    unfolding header_items_def Let_def using n s f by simp
  from short_items[OF this] show ?thesis by (simp add: header_items_def Let_def)
qed

lemma printModuleHeader_text:
  "printModuleHeader h a fs maxLine = and_then (outs [Inr (chars ''ClamBC''), outs (map fst (header_items h a fs)),
     Inr (chars '':'' @ chars (decimal (max 4096 (unat maxLine))) @ chars [CHR 0x0A])])
     (\<lambda>bs. if length bs < 8192 then Inr bs else Inl (Failed ''OutReal too big''))"
proof -
  have "unat (if maxLine < 4096 then 4096 else maxLine) = max 4096 (unat maxLine)"
    by (simp add: word_less_nat_alt max_def)
  then show ?thesis
    using outs_append[of "map fst (header_items h a fs)" "[Inr (chars '':'' @ chars (decimal (max 4096 (unat maxLine))) @ chars [CHR 0x0A])]"]
    unfolding printModuleHeader_def Let_def header_items_def
    by (simp add: outs_Cons_Inr)
qed

text \<open>
  C19: the header. It is always written, within the 8192 characters that the assertion allows, and
  behind its magic it reads back as the format level, the time, the name of the maker cut at
  64 characters, the kind, the functionality levels, the version of the compiler, the numbers
  of types and functions and the two magic numbers, followed by the announced line length.
  The format level is the one of 0.96 exactly when the levels admit 0.96, the level 51.
\<close>

theorem header_reads_back:
  "\<exists>bs. printModuleHeader h a fs maxLine = Inr (chars ''ClamBC'' @ bs) \<and> length (chars ''ClamBC'' @ bs) < 8192
     \<and> read_items read_hitem header_sorts (bs @ rest) =
        Some ([HN (if (h_minfunc h = 0 \<or> h_minfunc h \<le> 51) \<and> (h_maxfunc h = 0 \<or> 51 \<le> h_maxfunc h) then 6 else 7),
               HN (h_now h), HD (c_string (case h_signduser h of None \<Rightarrow> h_user h | Some u \<Rightarrow> Some u)), HN 0,
               HN (of_nat (an_kind a)), HN (ucast (h_minfunc h)), HN (ucast (h_maxfunc h)), HN 0,
               HD (c_string (Some (h_version h))),
               HN (of_nat (length (extraTypes a)) + of_nat (startTID a) - 64),
               HN (of_nat (length (filter (\<lambda>f. \<not> mf_isDeclaration f) fs))), HN 0x53e5493e9f3d1c30, HF 42],
              chars '':'' @ chars (decimal (max 4096 (unat maxLine))) @ [0x0A] @ rest)"
proof -
  let ?tail = "chars '':'' @ chars (decimal (max 4096 (unat maxLine))) @ [0x0A]"
  obtain bs where bs: "outs (map fst (header_items h a fs)) = Inr bs" "length bs \<le> 1924"
    using header_items_short by blast
  have "max 4096 (unat maxLine) < 10 ^ Suc 9" using unsigned_less[of maxLine, where 'a = nat] by simp
  from length_decimal[OF this] have len: "length (chars ''ClamBC'' @ bs @ ?tail) < 8192"
    using bs(2) by (simp add: chars_def)
  have level: "checkFunctionalityLevel FUNC_LEVEL_096 mn mx \<longleftrightarrow> (mn = 0 \<or> mn \<le> 51) \<and> (mx = 0 \<or> 51 \<le> mx)" for mn mx
  proof -
    have "FUNC_LEVEL_096 = 51" by code_simp
    then show ?thesis by (auto simp: checkFunctionalityLevel_def not_less)
  qed
  have "printModuleHeader h a fs maxLine = Inr (chars ''ClamBC'' @ bs @ ?tail)"
    using len by (simp add: printModuleHeader_text bs(1)) (simp add: chars_def)
  moreover have "map (\<lambda>p. fst (snd p)) (header_items h a fs) = header_sorts"
    by (simp add: header_items_def Let_def header_sorts_def)
  then obtain xs where "those (map (\<lambda>p. snd (snd p)) (header_items h a fs)) = Some xs"
    "read_items read_hitem header_sorts (bs @ ?tail @ rest) = Some (xs, ?tail @ rest)"
    using read_items_printed[OF header_items_print bs(1), of "?tail @ rest"] by metis
  ultimately show ?thesis
    using len by (intro exI[of _ "bs @ ?tail"])
      (auto simp: header_items_def Let_def level BC_FORMAT_096_def BC_FORMAT_LEVEL_def)
qed

end
