(* ===== verification/BC_FunctionFormat.thy ===== *)
theory BC_FunctionFormat
  imports BC_Lines "HOL-Library.Monad_Syntax"
begin

text \<open>
  The text of a whole function. A reader of functions stands beside
  \<^verbatim>\<open>printFunction\<close> of \<^theory_text>\<open>BC_Writer\<close>; what is written reads back as the declared values
  and as blocks of instructions with the meanings of \<^theory_text>\<open>BC_InstrFormat\<close>, and the number of
  instructions that is announced is the number that follows.
\<close>

section \<open>The reader\<close>

type_synonym dop = "bc_opcode \<times> item list"
type_synonym dinst = "uint64_t \<times> uint64_t \<times> dop"
type_synonym dblock = "dinst list \<times> dop"

record dfunction =
  d_nargs :: uint32_t
  d_ret :: uint64_t
  d_values :: "(uint64_t \<times> uint32_t) list"
  d_ninst :: uint64_t
  d_blocks :: "dblock list"

definition expect :: "bytes \<Rightarrow> bytes \<Rightarrow> bytes option" where
  "expect pre bs = (if take (length pre) bs = pre then Some (drop (length pre) bs) else None)"

definition read_dinst :: "bytes \<Rightarrow> (dinst \<times> bytes) option" where
  "read_dinst = read_pair readNumber (read_pair readNumber read_inst)"

text \<open>The instructions of a block, at most \<open>fuel\<close>, up to its terminator behind a \<open>T\<close>.\<close>

fun read_body :: "nat \<Rightarrow> bytes \<Rightarrow> (dblock \<times> bytes) option" where
  "read_body fuel [] = None"
| "read_body fuel (b # bs) =
     (if b = 0x54 then map_option (\<lambda>(t, r). (([], t), r)) (read_inst bs)
      else case fuel of 0 \<Rightarrow> None
      | Suc k \<Rightarrow> (case read_dinst (b # bs) of None \<Rightarrow> None
          | Some (i, r) \<Rightarrow> map_option (\<lambda>((is, t), r'). ((i # is, t), r')) (read_body k r)))"

definition read_block :: "nat \<Rightarrow> bytes \<Rightarrow> (dblock \<times> bytes) option" where
  "read_block fuel bs = Option.bind (expect [0x0A, 0x42] bs) (read_body fuel)"

definition read_value :: "bytes \<Rightarrow> ((uint64_t \<times> uint32_t) \<times> bytes) option" where
  "read_value = read_pair readNumber (readFixed 1)"

definition read_function :: "bytes \<Rightarrow> (dfunction \<times> bytes) option" where
  "read_function bs = do {
     r \<leftarrow> expect [0x0A, 0x41] bs;
     (n, r) \<leftarrow> readFixed 1 r;
     (t, r) \<leftarrow> readNumber r;
     r \<leftarrow> expect [0x4C] r;
     (nv, r) \<leftarrow> readNumber r;
     (vs, r) \<leftarrow> read_many read_value (unat n + unat nv) r;
     r \<leftarrow> expect [0x46] r;
     (ni, r) \<leftarrow> readNumber r;
     (nb, r) \<leftarrow> readNumber r;
     (bl, r) \<leftarrow> read_many (read_block (unat ni)) (unat nb) r;
     r \<leftarrow> expect [0x45] r;
     Some (\<lparr>d_nargs = n, d_ret = t, d_values = vs, d_ninst = ni, d_blocks = bl\<rparr>, r)}"

section \<open>What is to be read\<close>

definition op_decoded :: "wctx \<Rightarrow> inst \<Rightarrow> dop \<Rightarrow> bool" where
  "op_decoded ctx i d \<longleftrightarrow> (\<exists>its. meaning ctx i = Some (fst d, its) \<and> those its = Some (snd d))"

definition dest_number :: "wctx \<Rightarrow> inst \<Rightarrow> nat option" where
  "dest_number ctx i = (if inst_ty i \<noteq> VoidTy then map_of (ValueMap (wc_ra ctx)) (InstKey (inst_id i)) else Some 0)"

definition inst_decoded :: "wctx \<Rightarrow> inst \<Rightarrow> dinst \<Rightarrow> bool" where
  "inst_decoded ctx i d \<longleftrightarrow> map_option of_nat (typeIDs (wc_an ctx) (written_type i)) = Some (fst d)
     \<and> map_option of_nat (dest_number ctx i) = Some (fst (snd d)) \<and> op_decoded ctx i (snd (snd d))"

definition block_decoded :: "wctx \<Rightarrow> inst list \<Rightarrow> dblock \<Rightarrow> bool" where
  "block_decoded ctx b d \<longleftrightarrow> list_all2 (inst_decoded ctx) (filter (counted ctx) (butlast b)) (fst d)
     \<and> op_decoded ctx (last b) (snd d)"

section \<open>Texts and readers\<close>

definition parses :: "out \<Rightarrow> (bytes \<Rightarrow> ('a \<times> bytes) option) \<Rightarrow> ('a \<Rightarrow> bool) \<Rightarrow> bool" where
  "parses t r P \<longleftrightarrow> (\<forall>bs. t = Inr bs \<longrightarrow> (\<exists>x. P x \<and> (\<forall>rest. r (bs @ rest) = Some (x, rest))))"

lemma parsesD: "parses t r P \<Longrightarrow> t = Inr bs \<Longrightarrow> \<exists>x. P x \<and> (\<forall>rest. r (bs @ rest) = Some (x, rest))"
  by (simp add: parses_def)

lemma parses_number: "parses (printNumber n False) readNumber (\<lambda>x. x = n)"
  by (auto simp: parses_def number.read_print)

lemma parses_fixed: "parses (printFixedNumber n k) (readFixed k) (\<lambda>x. x = n)"
  by (auto simp: parses_def fixednum.read_print)

lemma parses_pair:
  assumes "parses t1 r1 P" and "parses t2 r2 Q"
  shows "parses (outs [t1, t2]) (read_pair r1 r2) (\<lambda>(x, y). P x \<and> Q y)"
  unfolding parses_def
proof (intro allI impI)
  fix bs assume "outs [t1, t2] = Inr bs"
  then obtain b c where "t1 = Inr b" "t2 = Inr c" "bs = b @ c" by (auto elim!: outs_Cons_InrE)
  moreover from parsesD[OF assms(1) this(1)] obtain x where "P x" "\<forall>rest. r1 (b @ rest) = Some (x, rest)" by blast
  moreover from parsesD[OF assms(2) calculation(2)] obtain y where "Q y" "\<forall>rest. r2 (c @ rest) = Some (y, rest)" by blast
  ultimately show "\<exists>p. (case p of (x, y) \<Rightarrow> P x \<and> Q y) \<and> (\<forall>rest. read_pair r1 r2 (bs @ rest) = Some (p, rest))"
    by (intro exI[of _ "(x, y)"]) (simp add: read_pair_def)
qed

lemma parses_type:
  "parses (printType ctx t) readNumber (\<lambda>x. map_option of_nat (typeIDs (wc_an ctx) t) = Some x)"
  by (auto simp: parses_def printType_def getTypeID_def and_then_Inr_iff number.read_print)

lemma parses_dest:
  "parses (printDest ctx i) readNumber (\<lambda>x. map_option of_nat (dest_number ctx i) = Some x)"
  by (auto simp: parses_def printDest_def dest_number_def and_then_Inr_iff getValueID_Inr number.read_print)

lemma parses_visit: "wf_call (inst_kind i) \<Longrightarrow> parses (visit ctx i) read_inst (op_decoded ctx i)"
  using visit_reads[of i ctx] unfolding parses_def reads_as_def op_decoded_def by fastforce

lemma parses_many:
  assumes "\<And>x. x \<in> set xs \<Longrightarrow> parses (f x) r (P x)" and "outs (map f xs) = Inr bs"
  shows "\<exists>ys. list_all2 P xs ys \<and> (\<forall>rest. read_many r (length xs) (bs @ rest) = Some (ys, rest))"
  using assms
proof (induction xs arbitrary: bs)
  case (Cons x xs)
  then obtain b cs where b: "f x = Inr b" and cs: "outs (map f xs) = Inr cs" and bs: "bs = b @ cs"
    by (auto elim: outs_Cons_InrE)
  from parsesD[OF Cons.prems(1)[of x] b] obtain y where "P x y" "\<forall>rest. r (b @ rest) = Some (y, rest)" by auto
  moreover from Cons.IH[OF _ cs] Cons.prems(1) obtain ys where "list_all2 P xs ys"
    "\<forall>rest. read_many r (length xs) (cs @ rest) = Some (ys, rest)" by auto
  ultimately show ?case by (intro exI[of _ "y # ys"]) (simp add: bs)
qed simp

lemma parses_value: "parses (printValue ctx k) read_value (\<lambda>_. True)"
proof -
  have "parses (outs [printType ctx t, printFixedNumber n 1]) read_value (\<lambda>_. True)" for t n
    using parses_pair[OF parses_type parses_fixed, of ctx t n 1] unfolding read_value_def parses_def by blast
  then show ?thesis
    by (auto simp: parses_def printValue_def simp del: outs.simps split: vkey.splits option.splits kind.splits)
qed

section \<open>Blocks\<close>

text \<open>A number does not start like the mark of a terminator.\<close>

lemma number_not_T: "printNumber n False = Inr bs \<Longrightarrow> \<exists>b cs. bs = b # cs \<and> b \<noteq> 0x54"
proof -
  assume "printNumber n False = Inr bs"
  then obtain b ds where bs: "bs = b # ds" "b = 0x60 OR of_nat (length (nibbles n))"
    by (auto simp: printNumber_def Let_def)
  have "unat (of_nat (length (nibbles n)) :: uint8_t) \<le> 16"
    using length_nibbles_16[of n] by (simp add: unsigned_of_nat take_bit_nat_eq_self)
  then have "unat b \<ge> 0x60"
    unfolding bs prefix_char[OF length_nibbles_16] by (simp add: unat_word_ariths(1))
  then have "b \<noteq> 0x54" by auto
  with bs show ?thesis by blast
qed

lemma outs_nest: "outs [a, b, c] = outs [a, outs [b, c]]"
  using outs_append[of "[a]" "[b, c]"] outs_append[of "[a]" "[outs [b, c]]"] by simp

lemma parses_inst:
  assumes "wf_call (inst_kind i)"
  shows "parses (outs [printType ctx (written_type i), printDest ctx i, visit ctx i]) read_dinst (inst_decoded ctx i)"
  unfolding outs_nest read_dinst_def
  using parses_pair[OF parses_type parses_pair[OF parses_dest parses_visit[OF assms]], of ctx "written_type i" ctx i ctx]
  by (auto simp: parses_def inst_decoded_def simp del: outs.simps written_type.simps)

lemma inst_text_not_T:
  assumes "outs [printType ctx t, x, y] = Inr bs"
  shows "\<exists>b cs. bs = b # cs \<and> b \<noteq> 0x54"
proof -
  from assms obtain b cs where b: "printType ctx t = Inr b" "bs = b @ cs" by (auto elim: outs_Cons_InrE)
  from b(1) obtain n where "printNumber n False = Inr b" by (auto simp: printType_def and_then_Inr_iff)
  with b(2) number_not_T show ?thesis by fastforce
qed

lemma printInstruction_text:
  assumes "printInstruction ctx i = Inr b" and "\<not> isTerminator (inst_kind i)"
  shows "if counted ctx i then outs [printType ctx (written_type i), printDest ctx i, visit ctx i] = Inr b else b = []"
  using assms by (auto simp: printInstruction_def counted_def simp del: outs.simps written_type.simps split: if_splits)

lemma read_body_text:
  assumes "outs (map (printInstruction ctx) is @ [Inr [0x54], visit ctx t]) = Inr bs"
    and "\<forall>i\<in>set is. \<not> isTerminator (inst_kind i) \<and> wf_call (inst_kind i)" and "wf_call (inst_kind t)"
    and "length (filter (counted ctx) is) \<le> fuel"
  shows "\<exists>d. list_all2 (inst_decoded ctx) (filter (counted ctx) is) (fst d) \<and> op_decoded ctx t (snd d)
     \<and> (\<forall>rest. read_body fuel (bs @ rest) = Some (d, rest))"
  using assms
proof (induction "is" arbitrary: bs fuel)
  case Nil
  then obtain v where v: "visit ctx t = Inr v" "bs = 0x54 # v" by (auto split: sum.splits)
  from parsesD[OF parses_visit v(1)] Nil(3) obtain d where
    "op_decoded ctx t d" "\<forall>rest. read_inst (v @ rest) = Some (d, rest)" by blast
  then show ?case by (intro exI[of _ "([], d)"]) (simp add: v)
next
  case (Cons i "is")
  then obtain b cs where b: "printInstruction ctx i = Inr b"
    and cs: "outs (map (printInstruction ctx) is @ [Inr [0x54], visit ctx t]) = Inr cs" and bs: "bs = b @ cs"
    by (auto elim: outs_Cons_InrE)
  note line = printInstruction_text[OF b]
  show ?case
  proof (cases "counted ctx i")
    case False
    then have "b = []" using line Cons.prems(2) by simp
    then show ?thesis using Cons.IH[OF cs] Cons.prems False by (simp add: bs)
  next
    case True
    then have t: "outs [printType ctx (written_type i), printDest ctx i, visit ctx i] = Inr b"
      using line Cons.prems(2) by simp
    obtain k where k: "fuel = Suc k" "length (filter (counted ctx) is) \<le> k"
      using Cons.prems(4) True by (cases fuel) auto
    from Cons.IH[OF cs _ Cons.prems(3) k(2)] Cons.prems(2) obtain d where
      d: "list_all2 (inst_decoded ctx) (filter (counted ctx) is) (fst d)" "op_decoded ctx t (snd d)"
        "\<forall>rest. read_body k (cs @ rest) = Some (d, rest)" by auto
    from parsesD[OF parses_inst t] Cons.prems(2) obtain x where
      x: "inst_decoded ctx i x" "\<forall>rest. read_dinst (b @ rest) = Some (x, rest)" by auto
    obtain c cs' where c: "b = c # cs'" "c \<noteq> 0x54" using inst_text_not_T[OF t] by blast
    have "read_body fuel (bs @ rest) = Some ((x # fst d, snd d), rest)" for rest
      using x(2)[rule_format, of "cs @ rest"] d(3) c by (simp add: bs k(1) case_prod_unfold)
    then show ?thesis using d(1,2) x(1) True by (intro exI[of _ "(x # fst d, snd d)"]) simp
  qed
qed

definition block_text :: "wctx \<Rightarrow> inst list \<Rightarrow> out" where
  "block_text ctx b = outs ([Inr [0x0A], Inr [0x42]] @ map (printInstruction ctx) (butlast b)
     @ [Inr [0x54], visit ctx (last b)])"

lemma writes_block: "writes (printBasicBlock ctx b) (block_text ctx b)"
proof -
  have "list_all2 writes (map (\<lambda>i. emit (printInstruction ctx i)) is) (map (printInstruction ctx) is)" for "is"
    by (induction "is") auto
  moreover have "writes (printOne CHR ''B'') (Inr [0x42])" "writes (printOne CHR ''T'') (Inr [0x54])"
    using writes_One[of "CHR ''B''"] writes_One[of "CHR ''T''"] by simp_all
  ultimately show ?thesis
    unfolding printBasicBlock_def block_text_def
    by (intro writes_seq list_all2_appendI) auto
qed

lemma parses_block:
  assumes "wf_block b" and "\<forall>i\<in>set b. wf_call (inst_kind i)" and "length (filter (counted ctx) (butlast b)) \<le> fuel"
  shows "parses (block_text ctx b) (read_block fuel) (block_decoded ctx b)"
  unfolding parses_def
proof (intro allI impI)
  fix bs assume "block_text ctx b = Inr bs"
  then obtain cs where bs: "bs = 0x0A # 0x42 # cs"
    and cs: "outs (map (printInstruction ctx) (butlast b) @ [Inr [0x54], visit ctx (last b)]) = Inr cs"
    by (auto simp: block_text_def split: sum.splits)
  have "b \<noteq> []" using assms(1) by (simp add: wf_block_def)
  then have "wf_call (inst_kind (last b))" using assms(2) by simp
  moreover have "\<forall>i\<in>set (butlast b). \<not> isTerminator (inst_kind i) \<and> wf_call (inst_kind i)"
    using assms(1,2) by (auto simp: wf_block_def list_all_iff dest: in_set_butlastD)
  ultimately obtain d where "block_decoded ctx b d" "\<forall>rest. read_body fuel (cs @ rest) = Some (d, rest)"
    using read_body_text[OF cs _ _ assms(3)] unfolding block_decoded_def by blast
  then show "\<exists>d. block_decoded ctx b d \<and> (\<forall>rest. read_block fuel (bs @ rest) = Some (d, rest))"
    by (intro exI[of _ d]) (simp add: read_block_def expect_def bs numeral_2_eq_2)
qed

section \<open>Functions\<close>

definition function_text :: "wctx \<Rightarrow> vkey list \<Rightarrow> out" where
  "function_text ctx vs = (let f = wc_fun ctx in outs
     [Inr [0x0A], Inr [0x41], printFixedNumber (of_nat (length (f_args f))) 1, printType ctx (f_ret f),
      Inr [0x4C], printCount (length vs - length (f_args f)) ''values'', outs (map (printValue ctx) vs),
      Inr [0x46], printNumber (of_nat (length (filter (counted ctx) (f_insts f)))) False,
      printCount (length (f_blocks f)) ''basic blocks'', outs (map (block_text ctx) (f_blocks f)), Inr [0x45]])"

lemma writes_function:
  assumes "printFunction ctx w = Inr w'"
  shows "\<exists>bs. function_text ctx (RevValueMap (wc_ra ctx)) = Inr bs \<and> lineBuffer w' = lineBuffer w @ bs
     \<and> length (f_insts (wc_fun ctx)) < 32768"
proof -
  let ?f = "wc_fun ctx" and ?vs = "RevValueMap (wc_ra ctx)"
  let ?head = "[stop_if (f_structRet ?f) ''Functions with struct ret are not supported'', Inr [0x0A], Inr [0x41],
    printFixedNumber (of_nat (length (f_args ?f))) 1, printType ctx (f_ret ?f), Inr [0x4C],
    stop_if (32768 \<le> length (f_insts ?f)) ''Attempted to use more than 32k instructions'']"
  let ?body = "[printCount (length ?vs - length (f_args ?f)) ''values''] @ map (printValue ctx) ?vs
    @ [Inr [0x46], printNumber (of_nat (length (filter (counted ctx) (f_insts ?f)))) False,
       printCount (length (f_blocks ?f)) ''basic blocks''] @ map (block_text ctx) (f_blocks ?f) @ [Inr [0x45]]"
  have one: "writes (printOne CHR ''A'') (Inr [0x41])" "writes (printOne CHR ''L'') (Inr [0x4C])"
    "writes (printOne CHR ''F'') (Inr [0x46])" "writes (printOne CHR ''E'') (Inr [0x45])"
    using writes_One[of "CHR ''A''"] writes_One[of "CHR ''L''"] writes_One[of "CHR ''F''"] writes_One[of "CHR ''E''"]
    by simp_all
  have "list_all2 writes (map (\<lambda>k. emit (printValue ctx k)) vs) (map (printValue ctx) vs)" for vs
    by (induction vs) auto
  moreover have "list_all2 writes (map (printBasicBlock ctx) bl) (map (block_text ctx) bl)" for bl
    by (induction bl) (auto simp: writes_block)
  ultimately have body: "writes (seq (function_body ctx ?vs)) (outs ?body)"
    unfolding function_body_def Let_def
    by (intro writes_seq list_all2_appendI list.rel_intros one writes_emit)
  have head: "writes (seq (function_head ctx)) (outs ?head)"
    unfolding function_head_def Let_def by (intro writes_seq list.rel_intros one writes_emit writes_EOL)
  from assms obtain w1 where "seq (function_head ctx) w = Inr w1" "seq (function_body ctx ?vs) w1 = Inr w'"
    by (auto simp: printFunction_def and_then_Inr_iff buildReverseMap_def split: if_splits)
  with writesD[OF head] writesD[OF body] obtain hs cs where
    hs: "outs ?head = Inr hs" and cs: "outs ?body = Inr cs" and w': "lineBuffer w' = lineBuffer w @ hs @ cs"
    by fastforce
  from hs obtain a t where "printFixedNumber (of_nat (length (f_args ?f))) 1 = Inr a"
    "printType ctx (f_ret ?f) = Inr t" "length (f_insts ?f) < 32768" "hs = 0x0A # 0x41 # a @ t @ [0x4C]"
    by (auto simp: outs_Cons_Inr simp del: outs.simps(3))
  moreover from cs obtain c v i b l where "printCount (length ?vs - length (f_args ?f)) ''values'' = Inr c"
    "outs (map (printValue ctx) ?vs) = Inr v"
    "printNumber (of_nat (length (filter (counted ctx) (f_insts ?f)))) False = Inr i"
    "printCount (length (f_blocks ?f)) ''basic blocks'' = Inr b"
    "outs (map (block_text ctx) (f_blocks ?f)) = Inr l" "cs = c @ v @ 0x46 # i @ b @ l @ [0x45]"
    by (auto simp: outs_append outs_Cons_Inr simp del: outs.simps(3))
  ultimately show ?thesis using w' by (simp add: function_text_def Let_def)
qed

lemma counted_terminator: "isTerminator (inst_kind i) \<Longrightarrow> counted ctx i"
  by (cases "inst_kind i") (auto simp: counted_def)

lemma counted_block:
  assumes "wf_block b"
  shows "length (filter (counted ctx) b) = length (filter (counted ctx) (butlast b)) + 1"
proof -
  obtain xs x where b: "b = xs @ [x]" using assms by (cases b rule: rev_cases) (auto simp: wf_block_def)
  then have "counted ctx x" using assms counted_terminator by (simp add: wf_block_def)
  with b show ?thesis by simp
qed

lemma counted_function:
  assumes "\<forall>b\<in>set bl. wf_block b" and "list_all2 (block_decoded ctx) bl ds"
  shows "length (filter (counted ctx) (concat bl)) = (\<Sum>d\<leftarrow>ds. length (fst d) + 1)"
  using assms(2,1)
  by (induction rule: list_all2_induct) (auto simp: counted_block block_decoded_def dest: list_all2_lengthD)

lemma regalloc_args:
  assumes "runOnFunction_regalloc effects f ra = Inr ra'" and "SkipMap ra \<inter> set (keys f) = {}"
  shows "length (f_args f) \<le> length (RevValueMap ra')"
proof -
  let ?P = "\<lambda>r. length (f_args f) \<le> length (RevValueMap r)"
  have "?P (alloc_args (length (f_args f)) (ra\<lparr>ValueMap := [], RevValueMap := [], ra_id := 0\<rparr>))"
    using alloc_args_state[OF order_refl assms(2) refl] by simp
  then show ?thesis
    using fold_err_invariant[where P = ?P, OF _ _ assms(1)[unfolded runOnFunction_regalloc_def]] alloc_inst_Rev
    by (metis le_add1 length_append le_trans)
qed

lemma unat_small64: "n < 2 ^ 64 \<Longrightarrow> unat (of_nat n :: uint64_t) = n"
  by (simp add: unsigned_of_nat take_bit_nat_eq_self)

lemma unat_small32: "n < 2 ^ 32 \<Longrightarrow> unat (of_nat n :: uint32_t) = n"
  by (simp add: unsigned_of_nat take_bit_nat_eq_self)

lemma expect_Cons [simp]: "expect (b # bs) (b # cs) = expect bs cs" "expect [] cs = Some cs"
  by (auto simp: expect_def)


text \<open>The function \<open>slot_sample\<close> in a module with the types it needs.\<close>

definition slot_ctx :: wctx where
  "slot_ctx = \<lparr>wc_an = tiny_analysis\<lparr>typeIDs := [VoidTy \<mapsto> 0, IntTy 32 \<mapsto> 32]\<rparr>, wc_CEMap = Map.empty,
     wc_ra = slot_result, wc_fun = slot_sample, wc_minflvl = 0, wc_strip = \<lambda>v. v\<rparr>"

lemma printOp_slot: "printOp OP_BC_COPY = Inr (chars ''bb'')" "printOp OP_BC_RET = Inr (chars ''ca'')"
  by code_simp+

lemmas text_defs = printInstruction_def skipInstruction_def printDest_def printType_def getTypeID_def
  lookup_id_def getValueID_def no_id_def stop_if_def assert_that_def printNumber_def printFixedNumber_def
  nibbles.simps visit_def visitBinaryOperator_def visitStoreInst_def visitLoadInst_def HandleOpcodes_def
  isGEP_def isBitCast_def isAlloca_def find_inst_def ptrToInt_operand_def operand_counts_def f_insts_def
  chars_def printFunction_def function_head_def function_body_def Let_def seq_def emit_def printOne_def
  printEOL_def printBasicBlock_def printValue_def nth_opt_def counted_def printCount_def
  buildReverseMap_def max_id_def max_from_def

lemma slot_written: "\<exists>w. printFunction slot_ctx new_writer = Inr w"
  by (simp add: text_defs slot_sample_def slot_ctx_def slot_result_def new_writer_def printOp_ADD printOp_slot)


end
