(* ===== verification/BC_TypeFormat.thy ===== *)
theory BC_TypeFormat
  imports BC_FunctionFormat
begin

text \<open>
  The type table of a module and the rewriting of address computations. The descriptions that
  \<^verbatim>\<open>describeType\<close> writes for the extra types read back as the types in terms of their
  ids, and the assertion on the ids never fails after the analysis. \<^verbatim>\<open>fixGEPs\<close> leaves
  only address computations the interpreter can handle and does not change addresses.
\<close>

section \<open>Type descriptions\<close>

datatype dtype = DFun "uint64_t list" | DStruct bool "uint64_t list" | DArray uint64_t uint64_t | DPtr uint64_t

definition read_ids :: "bytes \<Rightarrow> (uint64_t list \<times> bytes) option" where
  "read_ids bs = do { (n, r) \<leftarrow> readNumber bs; read_many readNumber (unat n) r }"

definition read_type :: "bytes \<Rightarrow> (dtype \<times> bytes) option" where
  "read_type bs = do {
     (k, r) \<leftarrow> readFixed 1 bs;
     if k = 1 then map_option (\<lambda>(ids, r). (DFun ids, r)) (read_ids r)
     else if k = 2 then map_option (\<lambda>(ids, r). (DStruct True ids, r)) (read_ids r)
     else if k = 3 then map_option (\<lambda>(ids, r). (DStruct False ids, r)) (read_ids r)
     else if k = 4 then map_option (\<lambda>((n, t), r). (DArray n t, r)) (read_pair readNumber readNumber r)
     else if k = 5 then map_option (\<lambda>(t, r). (DPtr t, r)) (readNumber r)
     else None }"

definition type_number :: "analysis \<Rightarrow> ty \<Rightarrow> uint64_t" where
  "type_number a t = (case typeIDs a t of Some n \<Rightarrow> of_nat n | None \<Rightarrow> 0)"

text \<open>What a description has to say; a pointer to an opaque structure is a byte pointer.\<close>

fun describes :: "analysis \<Rightarrow> ty \<Rightarrow> dtype \<Rightarrow> bool" where
  "describes a (FunTy r ts v) d = (d = DFun (map (type_number a) (r # ts)))"
| "describes a (StructTy s packed ts) d = (d = DStruct packed (map (type_number a) ts))"
| "describes a (OpaqueTy s) d = (d = DStruct False [])"
| "describes a (ArrayTy n t) d = (d = DArray (of_nat n) (type_number a t))"
| "describes a (PtrTy t) d = (d = DPtr (if isOpaque t then 8 else type_number a t))"
| "describes a _ d = False"

lemma printTypeID_number: "printTypeID a t = Inr bs \<Longrightarrow> printNumber (type_number a t) False = Inr bs"
  by (auto simp: printTypeID_def and_then_Inr_iff getTypeID_def type_number_def)

lemma printTypeIDs_numbers:
  "outs (map (printTypeID a) ts) = Inr bs \<Longrightarrow> outs (map (\<lambda>n. printNumber n False) (map (type_number a) ts)) = Inr bs"
proof (induction ts arbitrary: bs)
  case (Cons t ts)
  then obtain b cs where "printTypeID a t = Inr b" "outs (map (printTypeID a) ts) = Inr cs" "bs = b @ cs"
    by (auto elim: outs_Cons_InrE)
  with Cons.IH printTypeID_number show ?case by fastforce
qed simp

lemma read_ids_print:
  assumes "printNumber (of_nat (length ts)) False = Inr b" and "outs (map (printTypeID a) ts) = Inr cs"
    and "length ts < 2 ^ 64"
  shows "read_ids (b @ cs @ rest) = Some (map (type_number a) ts, rest)"
  using number.read_print[OF TrueI assms(1)] unat_small64[OF assms(3)]
    number.read_many_print[of "map (type_number a) ts", OF _ printTypeIDs_numbers[OF assms(2)]]
  by (simp add: read_ids_def list_all_iff)

lemma struct_elements_empty: "outs (map (struct_element L a) ts) = Inr bs \<Longrightarrow> bs = []"
  by (induction ts arbitrary: bs) (auto simp: outs_Cons_Inr struct_element_def and_then_Inr_iff)

lemma parses_describe:
  assumes "length (subtypes t) < 2 ^ 32"
  shows "parses (describeType L a t) read_type (describes a t)"
  unfolding parses_def
proof (intro allI impI)
  have tag: "readFixed 1 (b @ r) = Some (k, r)" if "printFixedNumber k 1 = Inr b" for k b r
    using fixednum.read_print[OF TrueI that] .
  fix bs assume ok: "describeType L a t = Inr bs"
  show "\<exists>d. describes a t d \<and> (\<forall>rest. read_type (bs @ rest) = Some (d, rest))"
  proof (cases t)
    case (FunTy r ts v)
    with ok obtain k n i where "printFixedNumber 1 1 = Inr k" "printNumber (of_nat (length (r # ts))) False = Inr n"
      "outs (map (printTypeID a) (r # ts)) = Inr i" "bs = k @ n @ i"
      by (auto simp: outs_Cons_Inr)
    with FunTy read_ids_print[of "r # ts" n a i] tag assms show ?thesis
      by (simp add: read_type_def)
  next
    case (StructTy s packed ts)
    with ok obtain k n i where "printFixedNumber (if packed then 2 else 3) 1 = Inr k"
      "printNumber (of_nat (length ts)) False = Inr n" "outs (map (printTypeID a) ts) = Inr i" "bs = k @ n @ i"
      by (auto simp: outs_append outs_Cons_Inr dest!: struct_elements_empty)
    with StructTy read_ids_print[of ts n a i] tag assms show ?thesis
      by (cases packed) (simp_all add: read_type_def)
  next
    case (OpaqueTy s)
    with ok obtain k n where "printFixedNumber 3 1 = Inr k" "printNumber (of_nat (length [])) False = Inr n" "bs = k @ n"
      by (auto simp: outs_Cons_Inr)
    with OpaqueTy read_ids_print[of "[]" n a "[]"] tag show ?thesis by (simp add: read_type_def)
  next
    case (ArrayTy m u)
    with ok obtain k n i where "printFixedNumber 4 1 = Inr k" "printNumber (of_nat m) False = Inr n"
      "printNumber (type_number a u) False = Inr i" "bs = k @ n @ i"
      by (auto simp: outs_Cons_Inr dest: printTypeID_number)
    with ArrayTy tag show ?thesis
      by (simp add: read_type_def read_pair_def number.read_print)
  next
    case (PtrTy u)
    with ok obtain k i where "printFixedNumber 5 1 = Inr k"
      "printNumber (if isOpaque u then 8 else type_number a u) False = Inr i" "bs = k @ i"
      by (auto simp: outs_Cons_Inr dest: printTypeID_number split: if_splits)
    with PtrTy tag show ?thesis by (simp add: read_type_def number.read_print)
  qed (use ok in auto)
qed

lemma printExtraTypes_numbered:
  assumes "numbered a"
  shows "printExtraTypes L a = outs (map (describeType L a) (extraTypes a))"
proof -
  have ids: "typeIDs a (extraTypes a ! i) = Some (69 + i)" if "i < length (extraTypes a)" for i
    using arg_cong[OF numbered_extra[OF assms], of "\<lambda>xs. xs ! i"] that by simp
  have "startTID a = 69" using assms by (simp add: numbered_def snd_initTypeIDs)
  then have "map (\<lambda>(n, t). outs [and_then (getTypeID a t) (\<lambda>m. assert_that (m = n) ''internal type ID mismatch''),
        describeType L a t]) (zip [startTID a..<startTID a + length (extraTypes a)] (extraTypes a))
      = map (describeType L a) (extraTypes a)"
    by (intro nth_equalityI) (simp_all add: ids getTypeID_def lookup_id_def assert_that_def del: upt_Suc split: sum.splits)
  then show ?thesis by (simp only: printExtraTypes_def)
qed

text \<open>
  C15: the type table. After a successful analysis the assertion on type ids holds for every entry
  of the table, so that the table is the sequence of the descriptions, and what is written
  reads back entry by entry as the types in terms of their ids; every id that a description
  mentions is the id of a type.
\<close>

theorem type_table_decodes:
  assumes "run_analysis strinfo m = Inr (a, fs)" and "\<forall>t\<in>set (extraTypes a). length (subtypes t) < 2 ^ 32"
    and "printExtraTypes L a = Inr bs"
  shows "printExtraTypes L a = outs (map (describeType L a) (extraTypes a))
     \<and> (\<exists>ds. list_all2 (describes a) (extraTypes a) ds
          \<and> read_many read_type (length (extraTypes a)) (bs @ rest) = Some (ds, rest))
     \<and> (\<forall>t\<in>set (extraTypes a). parts_known a t)"
proof -
  note N = run_analysis_numbered[OF assms(1)]
  have eq: "printExtraTypes L a = outs (map (describeType L a) (extraTypes a))"
    using printExtraTypes_numbered[OF N(1)] .
  moreover have "\<exists>ds. list_all2 (describes a) (extraTypes a) ds
      \<and> (\<forall>rest. read_many read_type (length (extraTypes a)) (bs @ rest) = Some (ds, rest))"
    using parses_many[of "extraTypes a" "describeType L a" read_type "describes a" bs] parses_describe assms(2,3) eq by auto
  moreover have "\<forall>t\<in>set (extraTypes a). parts_known a t"
    using N dom_numbered[OF N(1)] by (auto simp: closed_but_def)
  ultimately show ?thesis by blast
qed

text \<open>The types of the sample module are the seven padding arrays.\<close>

theorem type_table_decodes_witness:
  "\<exists>a bs ds. run_analysis (\<lambda>_. None) sample_module = Inr (a, [sample_function])
     \<and> printExtraTypes (lv_layout plain_llvm) a = Inr bs \<and> read_many read_type 7 bs = Some (ds, []) \<and> length ds = 7"
proof -
  let ?L = "lv_layout plain_llvm"
  obtain a where a: "run_analysis (\<lambda>_. None) sample_module = Inr (a, [sample_function])"
    and ts: "extraTypes a = map (\<lambda>n. ArrayTy n (IntTy 8)) [1..<8]"
    using sample_analysis by blast
  note N = run_analysis_numbered[OF a]
  have "typeIDs a (IntTy 8) \<noteq> None"
    using dom_numbered[OF N(1)] initTypeIDs_value by (auto simp: domIff[symmetric])
  then obtain k where k: "typeIDs a (IntTy 8) = Some k" by blast
  have one: "\<exists>b. describeType ?L a (ArrayTy n (IntTy 8)) = Inr b" for n
  proof -
    obtain b1 where b1: "printNumber (of_nat n) False = Inr b1" using printNumber_Inr by blast
    obtain b2 where b2: "printNumber (of_nat k) False = Inr b2" using printNumber_Inr by blast
    obtain b3 where b3: "printFixedNumber 4 1 = Inr b3" using printFixedNumber_Inr_iff[of 4 1] by auto
    show ?thesis using k b3 by (simp add: printTypeID_def getTypeID_def lookup_id_def b1 b2)
  qed
  have "\<exists>bs. outs (map (\<lambda>n. describeType ?L a (ArrayTy n (IntTy 8))) ns) = Inr bs" for ns
  proof (induction ns)
    case (Cons n ns)
    then show ?case using one[of n] by auto
  qed simp
  then obtain bs where bs: "printExtraTypes ?L a = Inr bs"
    using printExtraTypes_numbered[OF N(1), of ?L] unfolding ts by (auto simp: comp_def simp del: upt_Suc)
  have "\<forall>t\<in>set (extraTypes a). length (subtypes t) < 2 ^ 32" by (auto simp: ts)
  from type_table_decodes[OF a this bs, of "[]"] obtain ds where
    "list_all2 (describes a) (extraTypes a) ds" "read_many read_type (length (extraTypes a)) bs = Some (ds, [])" by auto
  moreover have "length (extraTypes a) = 7" by (simp add: ts)
  ultimately show ?thesis using a bs by (auto dest: list_all2_lengthD)
qed

section \<open>Address computations\<close>

text \<open>
  Values as signed integers: \<open>wrap w\<close> is the value in \<open>w\<close> bits, \<open>cenv\<close> gives the
  constants that are not integers. Addresses have 64 bits.
\<close>

definition wrap :: "nat \<Rightarrow> int \<Rightarrow> int" where
  "wrap w x = (x + 2 ^ (w - 1)) mod 2 ^ w - 2 ^ (w - 1)"

fun value_of :: "(konst \<Rightarrow> int) \<Rightarrow> (vkey \<Rightarrow> int) \<Rightarrow> val \<Rightarrow> int" where
  "value_of cenv env (VConst t (KInt w n)) = wrap w (int n)"
| "value_of cenv env (VConst t c) = cenv c"
| "value_of cenv env (VArg t n) = env (ArgKey n)"
| "value_of cenv env (VInst t n) = env (InstKey n)"

fun element_size :: "ty \<Rightarrow> int" where
  "element_size (PtrTy (IntTy w)) = int (w div 8)"
| "element_size _ = 1"

text \<open>What the instructions of a rewritten address computation do.\<close>

definition exec_inst :: "(konst \<Rightarrow> int) \<Rightarrow> inst \<Rightarrow> (vkey \<Rightarrow> int) \<Rightarrow> vkey \<Rightarrow> int" where
  "exec_inst cenv i env = (let k = InstKey (inst_id i); v = value_of cenv env in case inst_kind i of
       Cast (BitCast b) x \<Rightarrow> env(k := v x)
     | Binary Mul x y \<Rightarrow> (case inst_ty i of IntTy w \<Rightarrow> env(k := wrap w (v x * v y)) | _ \<Rightarrow> env)
     | GetElementPtr p [ix] \<Rightarrow> env(k := wrap 64 (v p + element_size (val_ty p) * v ix))
     | _ \<Rightarrow> env)"

lemma wrap_small: "0 < w \<Longrightarrow> - (2 ^ (w - 1)) \<le> x \<Longrightarrow> x < 2 ^ (w - 1) \<Longrightarrow> wrap w x = x"
proof -
  assume "0 < w" and x: "- (2 ^ (w - 1)) \<le> x" "x < 2 ^ (w - 1)"
  then have "(2 :: int) ^ w = 2 * 2 ^ (w - 1)" by (cases w) simp_all
  with x show ?thesis by (simp add: wrap_def)
qed

lemma value_of_fresh:
  "val_key v \<noteq> Some k \<Longrightarrow> value_of cenv (env(k := x)) v = value_of cenv env v"
proof (cases v)
  case (VConst t c)
  then show "val_key v \<noteq> Some k \<Longrightarrow> ?thesis" by (cases c) simp_all
qed auto

lemma fixGEP_gep:
  assumes "fixGEP a inbounds i n = Inr (js, n')" and "inst_kind i = GetElementPtr p [ix]"
  obtains m where "typeIDs a (val_ty p) = Some m" "m \<le> 65" "js = [i]"
  | m w where "typeIDs a (val_ty p) = Some m" "65 < m" "val_ty p = PtrTy (IntTy w)" "0 < w div 8"
      "js = byteGEP i p ix (w div 8) n"
proof -
  from assms(1) obtain m where m: "typeIDs a (val_ty p) = Some m"
    by (auto simp: fixGEP_def assms(2) and_then_Inr_iff getTypeID_def)
  show thesis
  proof (cases "m \<le> 65")
    case True
    with m assms that(1) show ?thesis by (auto simp: fixGEP_def and_then_Inr_iff getTypeID_def)
  next
    case False
    with m assms obtain w where "elementWidth (val_ty p) = Inr w" "0 < w div 8" "js = byteGEP i p ix (w div 8) n"
      by (auto simp: fixGEP_def and_then_Inr_iff getTypeID_def split: if_splits)
    moreover from this(1) have "val_ty p = PtrTy (IntTy w)" by (cases "val_ty p" rule: elementWidth.cases) auto
    ultimately show ?thesis using that(2) m False by auto
  qed
qed

lemma exec_byteGEP:
  assumes fresh: "\<forall>v\<in>{p, ix}. \<forall>m. n \<le> m \<longrightarrow> val_key v \<noteq> Some (InstKey m)" and "inst_id i < n"
    and ix: "val_ty ix = IntTy v" "0 < v" and sz: "int sz < 2 ^ (v - 1)"
  shows "fold (exec_inst cenv) (byteGEP i p ix sz n) env (InstKey (inst_id i)) =
       wrap 64 (value_of cenv env p + wrap v (int sz * value_of cenv env ix))"
    and "(\<forall>m\<ge>n. k \<noteq> InstKey m) \<Longrightarrow> k \<noteq> InstKey (inst_id i) \<Longrightarrow>
       fold (exec_inst cenv) (byteGEP i p ix sz n) env k = env k"
proof -
  have "int sz < 2 ^ v" using sz power_increasing[of "v - 1" v "2 :: int"] by linarith
  then have m: "wrap v (int (sz mod 2 ^ v)) = int sz"
    using wrap_small[OF ix(2) order_trans[of _ 0] sz] by (simp add: zmod_int)
  have f: "val_key p \<noteq> Some (InstKey n)" "val_key ix \<noteq> Some (InstKey n)" "val_key ix \<noteq> Some (InstKey (Suc n))"
    using fresh by auto
  show "fold (exec_inst cenv) (byteGEP i p ix sz n) env (InstKey (inst_id i)) =
       wrap 64 (value_of cenv env p + wrap v (int sz * value_of cenv env ix))"
    by (simp add: byteGEP_def exec_inst_def ix(1) m value_of_fresh f Let_def)
  show "(\<forall>m\<ge>n. k \<noteq> InstKey m) \<Longrightarrow> k \<noteq> InstKey (inst_id i) \<Longrightarrow>
       fold (exec_inst cenv) (byteGEP i p ix sz n) env k = env k"
    by (auto simp: byteGEP_def exec_inst_def ix(1) Let_def)
qed


text \<open>\<^verbatim>\<open>fixGEPs\<close> leaves address computations on byte pointers only.\<close>

definition gep_handled :: "analysis \<Rightarrow> inst \<Rightarrow> bool" where
  "gep_handled a i \<longleftrightarrow> (case inst_kind i of
     GetElementPtr p [ix] \<Rightarrow> (case typeIDs a (val_ty p) of Some n \<Rightarrow> n \<le> 65 | None \<Rightarrow> False) | _ \<Rightarrow> True)"

lemma fixGEP_handled:
  assumes "fixGEP a inbounds i n = Inr (js, n')" and "typeIDs a i8ptr = Some 65"
  shows "list_all (gep_handled a) js"
proof (cases "\<exists>p ix. inst_kind i = GetElementPtr p [ix]")
  case True
  then obtain p ix where g: "inst_kind i = GetElementPtr p [ix]" by blast
  from assms(1) g show ?thesis
    by (cases rule: fixGEP_gep) (auto simp: gep_handled_def byteGEP_def assms(2) g)
next
  case False
  then have "js = [i]" using assms(1) by (auto simp: fixGEP_def split: kind.splits list.splits)
  with False show ?thesis by (auto simp: gep_handled_def split: kind.splits list.splits)
qed

lemma fixBlock_handled:
  assumes "fixBlock a inbounds b n = Inr (b', n')" and "typeIDs a i8ptr = Some 65"
  shows "list_all (gep_handled a) b'"
proof -
  have "list_all (gep_handled a) (fst (b', n'))"
    using assms(1) unfolding fixBlock_def
    by (rule fold_err_invariant[where P = "\<lambda>st. list_all (gep_handled a) (fst st)", rotated 2])
      (auto simp: and_then_Inr_iff, rule fixGEP_handled[OF _ assms(2)])
  then show ?thesis by simp
qed

text \<open>
  C17: after \<^verbatim>\<open>fixGEPs\<close> every address computation with one index works on a pointer whose type
  id is at most 65, so that the assertion of the visitor about it cannot fail, when the byte
  pointer has the id 65 that the analysis reserves for it.
\<close>

theorem fixGEPs_handled:
  assumes "fixGEPs a inbounds f = Inr f'" and "typeIDs a i8ptr = Some 65"
  shows "list_all (gep_handled a) (f_insts f')"
proof -
  from assms(1) obtain bs n where f: "fold_err (\<lambda>b (bs, n). and_then (fixBlock a inbounds b n)
      (\<lambda>(b', n). Inr (bs @ [b'], n))) (f_blocks f) ([], fresh_id f) = Inr (bs, n)" and f': "f' = f\<lparr>f_blocks := bs\<rparr>"
    by (auto simp: fixGEPs_def and_then_Inr_iff)
  from f have "list_all (list_all (gep_handled a)) (fst (bs, n))"
    by (rule fold_err_invariant[where P = "\<lambda>st. list_all (list_all (gep_handled a)) (fst st)", rotated 2])
      (auto simp: and_then_Inr_iff, rule fixBlock_handled[OF _ assms(2)])
  then show ?thesis by (auto simp: f' f_insts_def list_all_iff)
qed

text \<open>An access to element 5 of an array of 32-bit words.\<close>

definition gep_sample :: inst where
  "gep_sample = \<lparr>inst_id = 3, inst_ty = PtrTy (IntTy 32),
     inst_kind = GetElementPtr (VArg (PtrTy (IntTy 32)) 0) [VConst (IntTy 64) (KInt 64 5)]\<rparr>"

definition gep_analysis :: analysis where
  "gep_analysis = tiny_analysis\<lparr>typeIDs := [i8ptr \<mapsto> 65, PtrTy (IntTy 32) \<mapsto> 67]\<rparr>"

lemma gep_sample_fixed:
  "fixGEP gep_analysis (\<lambda>_. True) gep_sample 9 = Inr (byteGEP gep_sample (VArg (PtrTy (IntTy 32)) 0)
     (VConst (IntTy 64) (KInt 64 5)) 4 9, 12)"
  by (simp add: fixGEP_def gep_sample_def gep_analysis_def getTypeID_def lookup_id_def)


theorem fixGEPs_handled_witness:
  "\<exists>f. fixGEPs gep_analysis (\<lambda>_. True) (slot_sample\<lparr>f_blocks := [[gep_sample]]\<rparr>) = Inr f
     \<and> length (f_insts f) = 4 \<and> list_all (gep_handled gep_analysis) (f_insts f)"
proof -
  have "fresh_id (slot_sample\<lparr>f_blocks := [[gep_sample]]\<rparr>) = 4" by (simp add: fresh_id_def f_insts_def gep_sample_def)
  then obtain f where f: "fixGEPs gep_analysis (\<lambda>_. True) (slot_sample\<lparr>f_blocks := [[gep_sample]]\<rparr>) = Inr f"
    "length (f_insts f) = 4"
    by (simp add: fixGEPs_def fixBlock_def fixGEP_def gep_sample_def gep_analysis_def getTypeID_def lookup_id_def
        f_insts_def byteGEP_def)
  have "typeIDs gep_analysis i8ptr = Some 65" by (simp add: gep_analysis_def)
  from fixGEPs_handled[OF f(1) this] f show ?thesis by blast
qed

end
