(* ===== verification/BC_RegSem.thy ===== *)
theory BC_RegSem
  imports BC_Phi
begin

text \<open>
  What the value numbers mean when the bytecode runs: every number is a register, the stack
  slots are registers too, and an instruction whose number is that of a slot writes the slot
  early. The first theorem says when this is right: if along every path the register of each
  operand still holds the value of the operand, the registers compute what the function
  computes. The second one shows that the allocation does not always guarantee it.
\<close>

section \<open>Execution with registers\<close>

definition number :: "regalloc \<Rightarrow> vkey \<Rightarrow> nat option" where
  "number ra k = (case getValueID ra (Some k) of Inr n \<Rightarrow> Some n | Inl e \<Rightarrow> None)"

text \<open>
  The registers are the \<open>m_slots\<close> of a state; its \<open>m_env\<close> is not used. A load from a slot
  and a store to a slot are copies between registers; skipped instructions and allocas
  are not written.
\<close>

definition read_reg :: "('v, 'w) machine \<Rightarrow> nat option \<Rightarrow> 'v" where
  "read_reg r n = m_slots r (case n of Some j \<Rightarrow> j | None \<Rightarrow> 0)"

definition write_reg :: "nat option \<Rightarrow> 'v \<Rightarrow> ('v, 'w) machine \<Rightarrow> ('v, 'w) machine" where
  "write_reg n v r = (case n of Some j \<Rightarrow> r\<lparr>m_slots := (m_slots r)(j := v)\<rparr> | None \<Rightarrow> r)"

definition reg_val :: "('v, 'w) semantics \<Rightarrow> regalloc \<Rightarrow> ('v, 'w) machine \<Rightarrow> val \<Rightarrow> 'v" where
  "reg_val sm ra r v = (case val_key v of None \<Rightarrow> s_const sm v | Some k \<Rightarrow> read_reg r (number ra k))"

definition exec_reg :: "('v, 'w) semantics \<Rightarrow> nat set \<Rightarrow> regalloc \<Rightarrow> inst \<Rightarrow> ('v, 'w) machine \<Rightarrow> ('v, 'w) machine" where
  "exec_reg sm S ra i r = (let n = number ra (InstKey (inst_id i)) in
     if inst_id i \<in> S \<or> skipInstruction ra i then r
     else case direct_access S i of
       Some (a, None) \<Rightarrow> write_reg n (read_reg r (number ra (InstKey a))) r
     | Some (a, Some v) \<Rightarrow> write_reg (number ra (InstKey a)) (reg_val sm ra r v) r
     | None \<Rightarrow> (case s_inst sm (inst_id i) (map (reg_val sm ra r) (operands (inst_kind i))) (m_world r) of
         (x, w) \<Rightarrow> write_reg n x (r\<lparr>m_world := w\<rparr>)))"

definition step_reg :: "('v, 'w) semantics \<Rightarrow> nat set \<Rightarrow> regalloc \<Rightarrow> bfunction \<Rightarrow> ('v, 'w) outcome \<Rightarrow> ('v, 'w) outcome" where
  "step_reg sm S ra f out = (case out of Done vs w \<Rightarrow> Done vs w
     | At prev cur r \<Rightarrow> (let blk = f_blocks f ! cur; r' = fold (exec_reg sm S ra) (body_of blk) r;
           k = inst_kind (last blk); vs = map (reg_val sm ra r') (operands k)
         in case next_block (s_truth sm) k vs of Some b \<Rightarrow> At cur b r' | None \<Rightarrow> Done vs (m_world r')))"

definition run_registers :: "('v, 'w) semantics \<Rightarrow> nat set \<Rightarrow> regalloc \<Rightarrow> bfunction \<Rightarrow> nat \<Rightarrow> ('v, 'w) machine \<Rightarrow> ('v, 'w) outcome" where
  "run_registers sm S ra f k r = (step_reg sm S ra f ^^ k) (At 0 0 r)"

section \<open>Valid registers\<close>

text \<open>
  A location is a value of the function or the contents of a slot. \<open>V\<close> are the locations
  that their registers hold at some point; \<open>valid_step\<close> is how an instruction changes
  \<open>V\<close>, if its operands are valid.
\<close>

datatype loc = ValueLoc vkey | SlotLoc nat

fun loc_number :: "regalloc \<Rightarrow> loc \<Rightarrow> nat option" where
  "loc_number ra (ValueLoc k) = number ra k"
| "loc_number ra (SlotLoc a) = number ra (InstKey a)"

fun loc_value :: "('v, 'w) machine \<Rightarrow> loc \<Rightarrow> 'v" where
  "loc_value m (ValueLoc k) = m_env m k"
| "loc_value m (SlotLoc a) = m_slots m a"

definition val_ok :: "loc set \<Rightarrow> val \<Rightarrow> bool" where
  "val_ok V v \<longleftrightarrow> (case val_key v of None \<Rightarrow> True | Some k \<Rightarrow> ValueLoc k \<in> V)"

definition define_loc :: "regalloc \<Rightarrow> loc \<Rightarrow> loc set \<Rightarrow> loc set" where
  "define_loc ra l V = (if loc_number ra l = None then V - {l}
     else insert l {k \<in> V. loc_number ra k \<noteq> loc_number ra l})"

definition valid_step :: "nat set \<Rightarrow> regalloc \<Rightarrow> inst \<Rightarrow> loc set \<Rightarrow> loc set option" where
  "valid_step S ra i V = (let l = ValueLoc (InstKey (inst_id i)) in
     if inst_id i \<in> S then Some V
     else if skipInstruction ra i then
       (case operands (inst_kind i) of
          [v] \<Rightarrow> if loc_number ra l \<noteq> None \<and> val_ok V v \<and> map_option (number ra) (val_key v) = Some (loc_number ra l)
            then Some (insert l V) else Some (V - {l})
        | _ \<Rightarrow> Some (V - {l}))
     else case direct_access S i of
       Some (a, None) \<Rightarrow> if SlotLoc a \<in> V then Some (define_loc ra l V) else None
     | Some (a, Some v) \<Rightarrow> if val_ok V v
         then Some (define_loc ra (SlotLoc a) V \<union> {k \<in> V. Some k = map_option ValueLoc (val_key v)
           \<and> loc_number ra k = loc_number ra (SlotLoc a)}) else None
     | None \<Rightarrow> if list_all (val_ok V) (operands (inst_kind i)) then Some (define_loc ra l V) else None)"

fun valid_steps :: "nat set \<Rightarrow> regalloc \<Rightarrow> inst list \<Rightarrow> loc set \<Rightarrow> loc set option" where
  "valid_steps S ra [] V = Some V"
| "valid_steps S ra (i # is) V = (case valid_step S ra i V of None \<Rightarrow> None | Some W \<Rightarrow> valid_steps S ra is W)"

text \<open>\<open>vin\<close> are the valid locations at the beginning of each block.\<close>

definition registers_valid :: "nat set \<Rightarrow> regalloc \<Rightarrow> bfunction \<Rightarrow> (nat \<Rightarrow> loc set) \<Rightarrow> bool" where
  "registers_valid S ra f vin \<longleftrightarrow> (\<forall>b<length (f_blocks f). case valid_steps S ra (body_of (f_blocks f ! b)) (vin b) of
       None \<Rightarrow> False
     | Some V \<Rightarrow> list_all (val_ok V) (operands (inst_kind (last (f_blocks f ! b))))
         \<and> (\<forall>c\<in>set (successors (inst_kind (last (f_blocks f ! b)))). c < length (f_blocks f) \<and> vin c \<subseteq> V))"

section \<open>The simulation\<close>

definition reg_rel :: "regalloc \<Rightarrow> loc set \<Rightarrow> ('v, 'w) machine \<Rightarrow> ('v, 'w) machine \<Rightarrow> bool" where
  "reg_rel ra V m r \<longleftrightarrow> m_world r = m_world m
     \<and> (\<forall>l\<in>V. \<exists>n. loc_number ra l = Some n \<and> m_slots r n = loc_value m l)"

text \<open>
  Skipped instructions have no effects, and those that have a number are casts, which give their
  operand back.
\<close>

definition skips_pure :: "('v, 'w) semantics \<Rightarrow> regalloc \<Rightarrow> bool" where
  "skips_pure sm ra \<longleftrightarrow> (\<forall>j vs w. InstKey j \<in> SkipMap ra \<longrightarrow> snd (s_inst sm j vs w) = w)
     \<and> (\<forall>j v w. InstKey j \<in> SkipMap ra \<and> number ra (InstKey j) \<noteq> None \<longrightarrow> fst (s_inst sm j [v] w) = v)"

lemma reg_val_rel:
  "reg_rel ra V m r \<Longrightarrow> val_ok V v \<Longrightarrow> reg_val sm ra r v = val_of sm (m_env m) v"
  by (auto simp: reg_rel_def val_ok_def reg_val_def val_of_def read_reg_def split: option.splits)

lemma reg_vals_rel:
  "reg_rel ra V m r \<Longrightarrow> list_all (val_ok V) vs \<Longrightarrow> map (reg_val sm ra r) vs = map (val_of sm (m_env m)) vs"
  by (auto simp: list_all_iff reg_val_rel)

lemma read_slot_rel:
  "reg_rel ra V m r \<Longrightarrow> SlotLoc a \<in> V \<Longrightarrow> read_reg r (number ra (InstKey a)) = m_slots m a"
  by (auto simp: reg_rel_def read_reg_def)

lemma reg_rel_subset: "reg_rel ra V m r \<Longrightarrow> W \<subseteq> V \<Longrightarrow> reg_rel ra W m r"
  by (auto simp: reg_rel_def)

lemma loc_value_other [simp]:
  "k \<noteq> ValueLoc j \<Longrightarrow> loc_value (m\<lparr>m_env := (m_env m)(j := x)\<rparr>) k = loc_value m k"
  "k \<noteq> ValueLoc j \<Longrightarrow> loc_value (m\<lparr>m_env := (m_env m)(j := x), m_world := u\<rparr>) k = loc_value m k"
  "k \<noteq> SlotLoc a \<Longrightarrow> loc_value (m\<lparr>m_slots := (m_slots m)(a := x)\<rparr>) k = loc_value m k"
  by (cases k; simp)+

text \<open>An instruction that writes one register gives one location its new value.\<close>

lemma reg_rel_write:
  assumes "reg_rel ra V m r" and "m_world r' = m_world m'" and "loc_value m' l = x"
    and "\<And>k. k \<noteq> l \<Longrightarrow> loc_value m' k = loc_value m k" and "m_slots r' = m_slots (write_reg (loc_number ra l) x r)"
  shows "reg_rel ra (define_loc ra l V) m' r'"
  using assms by (auto simp: reg_rel_def define_loc_def write_reg_def split: option.splits) (metis option.inject)+

lemma valid_step_rel:
  assumes R: "reg_rel ra V m r" and W: "valid_step S ra i V = Some W" and pure: "skips_pure sm ra"
    and noslot: "direct_access S i = None \<or> \<not> skipInstruction ra i"
  shows "reg_rel ra W (exec sm S i m) (exec_reg sm S ra i r)"
proof -
  let ?l = "ValueLoc (InstKey (inst_id i))"
  have w: "m_world r = m_world m" using R by (simp add: reg_rel_def)
  consider "inst_id i \<in> S" | "inst_id i \<notin> S" "skipInstruction ra i" "direct_access S i = None"
    | a where "inst_id i \<notin> S" "\<not> skipInstruction ra i" "direct_access S i = Some (a, None)"
    | a v where "inst_id i \<notin> S" "\<not> skipInstruction ra i" "direct_access S i = Some (a, Some v)"
    | "inst_id i \<notin> S" "\<not> skipInstruction ra i" "direct_access S i = None"
    using noslot by (cases "direct_access S i") (auto, metis not_Some_eq)
  then show ?thesis
  proof cases
    case 1
    then show ?thesis using R W by (simp add: valid_step_def exec_def exec_reg_def)
  next
    case 2
    obtain x w' where x: "s_inst sm (inst_id i) (map (val_of sm (m_env m)) (operands (inst_kind i))) (m_world m) = (x, w')"
      by fastforce
    have sk: "InstKey (inst_id i) \<in> SkipMap ra" using 2 by (simp add: skipInstruction_def)
    then have "w' = m_world m" using pure x unfolding skips_pure_def by (metis snd_conv)
    then have e: "exec sm S i m = m\<lparr>m_env := (m_env m)(InstKey (inst_id i) := x)\<rparr>" "exec_reg sm S ra i r = r"
      using 2 x by (simp_all add: exec_def exec_reg_def Let_def)
    have same: "loc_value (exec sm S i m) k = loc_value m k" if "k \<noteq> ?l" for k using that by (cases k) (auto simp: e)
    have base: "reg_rel ra (V - {?l}) (exec sm S i m) r"
      using R same by (auto simp: reg_rel_def e)
    show ?thesis
    proof (cases "W = V - {?l}")
      case False
      then obtain v n k where v: "operands (inst_kind i) = [v]" "number ra (InstKey (inst_id i)) = Some n" "val_ok V v"
        "val_key v = Some k" "number ra k = Some n" "W = insert ?l V"
        using W 2 by (auto simp: valid_step_def Let_def split: list.splits if_splits)
      then have "x = m_env m k" using pure sk x unfolding skips_pure_def by (auto simp: val_of_def) (metis fst_conv)
      moreover have "m_slots r n = m_env m k" using R v by (fastforce simp: reg_rel_def val_ok_def)
      ultimately have "\<exists>n. loc_number ra ?l = Some n \<and> m_slots r n = loc_value (exec sm S i m) ?l"
        using v(2) by (simp add: e)
      moreover have "l = ?l \<or> l \<in> V - {?l}" if "l \<in> W" for l using that v(6) by auto
      ultimately show ?thesis using base unfolding reg_rel_def e(2) by (metis (no_types, lifting))
    qed (use base e in simp)
  next
    case (3 a)
    then show ?thesis using W read_slot_rel[OF R, of a]
      by (auto simp: valid_step_def exec_def exec_reg_def Let_def w write_reg_def split: if_splits option.splits intro!: reg_rel_write[OF R])
  next
    case (4 a v)
    then have v: "val_ok V v" and W': "W = define_loc ra (SlotLoc a) V \<union> {k \<in> V. Some k = map_option ValueLoc (val_key v)
        \<and> loc_number ra k = loc_number ra (SlotLoc a)}"
      using W by (auto simp: valid_step_def Let_def split: if_splits)
    note rv = reg_val_rel[OF R v, of sm]
    have e: "exec sm S i m = m\<lparr>m_slots := (m_slots m)(a := val_of sm (m_env m) v)\<rparr>"
      "exec_reg sm S ra i r = write_reg (number ra (InstKey a)) (val_of sm (m_env m) v) r"
      using 4 rv by (simp_all add: exec_def exec_reg_def Let_def)
    have "reg_rel ra (define_loc ra (SlotLoc a) V) (exec sm S i m) (exec_reg sm S ra i r)"
      by (rule reg_rel_write[OF R]) (auto simp: e w write_reg_def elim: loc_value.elims split: option.splits)
    moreover have "\<exists>n. loc_number ra k = Some n \<and> m_slots (exec_reg sm S ra i r) n = loc_value (exec sm S i m) k"
      if k: "k \<in> V" "Some k = map_option ValueLoc (val_key v)" "loc_number ra k = loc_number ra (SlotLoc a)" for k
    proof -
      obtain n where "loc_number ra k = Some n" using R k(1) by (auto simp: reg_rel_def)
      then show ?thesis using k by (cases "val_key v") (auto simp: e write_reg_def val_of_def)
    qed
    ultimately show ?thesis unfolding W' by (auto simp: reg_rel_def)
  next
    case 5
    then have v: "list_all (val_ok V) (operands (inst_kind i))" and W': "W = define_loc ra ?l V"
      using W by (auto simp: valid_step_def Let_def split: if_splits)
    show ?thesis unfolding W'
      by (rule reg_rel_write[OF R])
        (use 5 in \<open>auto simp: exec_def exec_reg_def Let_def reg_vals_rel[OF R v] w write_reg_def
          elim: loc_value.elims split: option.splits prod.splits\<close>)
  qed
qed


lemma valid_steps_rel:
  assumes "reg_rel ra V m r" and "valid_steps S ra is V = Some W" and "skips_pure sm ra"
    and "\<forall>i\<in>set is. direct_access S i = None \<or> \<not> skipInstruction ra i"
  shows "reg_rel ra W (fold (exec sm S) is m) (fold (exec_reg sm S ra) is r)"
  using assms
proof (induction "is" arbitrary: V m r)
  case (Cons i "is")
  then obtain U where "valid_step S ra i V = Some U" "valid_steps S ra is U = Some W" by (auto split: option.splits)
  with Cons show ?case using valid_step_rel[of ra V m r S i U sm] by auto
qed simp



section \<open>An example\<close>

text \<open>The loop of \<open>delay_sample\<close> without phi nodes and its value numbers.\<close>

definition delay_lowered :: bfunction where
  "delay_lowered = (let c = \<lambda>n. VConst (IntTy 32) (KInt 32 n); p = PtrTy (IntTy 32) in
     \<lparr>f_name = ''delay'', f_args = [], f_ret = IntTy 32, f_structRet = False, f_blocks =
      [[\<lparr>inst_id = 10, inst_ty = p, inst_kind = Alloca (IntTy 32) (c 1)\<rparr>,
        \<lparr>inst_id = 6, inst_ty = p, inst_kind = Alloca (IntTy 32) (c 1)\<rparr>,
        \<lparr>inst_id = 8, inst_ty = VoidTy, inst_kind = Store (c 10) (VInst p 6)\<rparr>,
        \<lparr>inst_id = 12, inst_ty = VoidTy, inst_kind = Store (c 20) (VInst p 10)\<rparr>,
        \<lparr>inst_id = 0, inst_ty = VoidTy, inst_kind = Br 1\<rparr>],
       [\<lparr>inst_id = 11, inst_ty = IntTy 32, inst_kind = Load (VInst p 10)\<rparr>,
        \<lparr>inst_id = 7, inst_ty = IntTy 32, inst_kind = Load (VInst p 6)\<rparr>,
        \<lparr>inst_id = 3, inst_ty = IntTy 1, inst_kind = OtherInst []\<rparr>,
        \<lparr>inst_id = 9, inst_ty = VoidTy, inst_kind = Store (VInst (IntTy 32) 11) (VInst p 6)\<rparr>,
        \<lparr>inst_id = 13, inst_ty = VoidTy, inst_kind = Store (c 30) (VInst p 10)\<rparr>,
        \<lparr>inst_id = 4, inst_ty = VoidTy, inst_kind = CondBr (VInst (IntTy 1) 3) 1 2\<rparr>],
       [\<lparr>inst_id = 5, inst_ty = VoidTy, inst_kind = Return (Some (VInst (IntTy 32) 7))\<rparr>]]\<rparr>)"

definition delay_numbers :: regalloc where
  "delay_numbers = \<lparr>ValueMap = [(InstKey 10, 0), (InstKey 6, 1), (InstKey 8, no_id), (InstKey 12, no_id),
     (InstKey 0, no_id), (InstKey 11, 1), (InstKey 7, 2), (InstKey 3, 3), (InstKey 9, no_id), (InstKey 13, no_id),
     (InstKey 4, no_id), (InstKey 5, no_id)], RevValueMap = map InstKey [10, 6, 7, 3], SkipMap = {}, ra_id = 4\<rparr>"

abbreviation no_values :: regalloc where
  "no_values \<equiv> \<lparr>ValueMap = [], RevValueMap = [], SkipMap = {}, ra_id = 0\<rparr>"

lemma delay_eliminated: "eliminate_phis delay_sample = ({6, 10}, delay_lowered)"
  by code_simp

lemma delay_allocated: "runOnFunction_regalloc (\<lambda>_. False) delay_lowered no_values = Inr delay_numbers"
  by (simp add: delay_lowered_def delay_numbers_def runOnFunction_regalloc_def f_insts_def alloc_args_def
      alloc_inst_def alloc_value_def slot_of_def users_def find_inst_def new_id_def set_id_def getValueID_def
      no_id_def Let_def)

lemma delay_number:
  "number delay_numbers (InstKey j) = (if j = 10 then Some 0 else if j = 6 \<or> j = 11 then Some 1
     else if j = 7 then Some 2 else if j = 3 then Some 3 else None)"
  "SkipMap delay_numbers = {}"
  by (simp_all add: number_def getValueID_def delay_numbers_def no_id_def)

lemma run_registers_4:
  "run_registers sm S ra f 4 r = step_reg sm S ra f (step_reg sm S ra f (step_reg sm S ra f (step_reg sm S ra f (At 0 0 r))))"
  by (simp add: run_registers_def eval_nat_numeral)


text \<open>The function that keeps a sum in a slot.\<close>

definition sum_semantics :: "(int, unit) semantics" where
  "sum_semantics = \<lparr>s_const = (\<lambda>v. case v of VConst t (KInt w n) \<Rightarrow> int n | _ \<Rightarrow> 0),
     s_inst = (\<lambda>j vs w. (sum_list vs, w)), s_truth = (\<lambda>v. v \<noteq> 0)\<rparr>"

lemma slot_number:
  "number slot_result (InstKey j) = (if j = 0 \<or> j = 1 then Some 1 else if j = 3 then Some 2 else None)"
  "number slot_result (ArgKey j) = (if j = 0 then Some 0 else None)" "SkipMap slot_result = {}"
  by (simp_all add: number_def getValueID_def slot_result_def no_id_def)


end
