(* ===== verification/BC_LogicNode.thy ===== *)
theory BC_LogicNode
  imports BC_Prelude
begin

text \<open>
  Logical expressions of \<^verbatim>\<open>libclambcc/ClamBCLogicalCompiler.cpp\<close>: the uniqued nodes, the
  functions that build them with their simplifications, and what a node means for given
  match counts. Nodes are uniqued by a folding set over kind, numbers and children, so equal
  pointers are equal trees and the model compares trees.
\<close>

section \<open>Nodes\<close>

datatype LogicalKind = LOG_SUBSIGNATURE | LOG_AND | LOG_OR | LOG_EQ | LOG_GT | LOG_LT
  | LOG_ADDBOTH | LOG_NOT | LOG_TRUE | LOG_FALSE | LOG_ADD | LOG_ADDSUM | LOG_ADDUNIQ

text \<open>The enumeration is ordered by its numbers, which \<^verbatim>\<open>compare_lt\<close> uses.\<close>

fun kind_number :: "LogicalKind \<Rightarrow> nat" where
  "kind_number LOG_SUBSIGNATURE = 0" | "kind_number LOG_AND = 1" | "kind_number LOG_OR = 2"
| "kind_number LOG_EQ = 3" | "kind_number LOG_GT = 4" | "kind_number LOG_LT = 5"
| "kind_number LOG_ADDBOTH = 6" | "kind_number LOG_NOT = 7" | "kind_number LOG_TRUE = 8"
| "kind_number LOG_FALSE = 9" | "kind_number LOG_ADD = 10" | "kind_number LOG_ADDSUM = 11"
| "kind_number LOG_ADDUNIQ = 12"

lemma kind_number_inject [simp]: "kind_number j = kind_number k \<longleftrightarrow> j = k"
  by (cases j; cases k) simp_all

instantiation LogicalKind :: linorder
begin

definition less_eq_LogicalKind :: "LogicalKind \<Rightarrow> LogicalKind \<Rightarrow> bool" where
  "less_eq_LogicalKind j k \<longleftrightarrow> kind_number j \<le> kind_number k"

definition less_LogicalKind :: "LogicalKind \<Rightarrow> LogicalKind \<Rightarrow> bool" where
  "less_LogicalKind j k \<longleftrightarrow> kind_number j < kind_number k"

instance
  by standard (auto simp: less_eq_LogicalKind_def less_LogicalKind_def)

end

datatype LogicalNode = LogicalNode (kind: LogicalKind) (op0: uint32_t) (op1: uint32_t)
  (children: "LogicalNode list")

text \<open>The constructor of the class: a missing number is \<^verbatim>\<open>~0u\<close>.\<close>

abbreviation no_op :: uint32_t where
  "no_op \<equiv> - 1"

definition getTrue :: LogicalNode where
  "getTrue = LogicalNode LOG_TRUE no_op no_op []"

definition getFalse :: LogicalNode where
  "getFalse = LogicalNode LOG_FALSE no_op no_op []"

definition getSubSig :: "uint32_t \<Rightarrow> LogicalNode" where
  "getSubSig subsigid = LogicalNode LOG_SUBSIGNATURE subsigid no_op []"

text \<open>The assertion of \<^verbatim>\<open>getNode\<close>: only the leaves have no children.\<close>

fun node_ok :: "LogicalNode \<Rightarrow> bool" where
  "node_ok (LogicalNode k a b ns) \<longleftrightarrow>
     (ns \<noteq> [] \<or> k = LOG_SUBSIGNATURE \<or> k = LOG_TRUE \<or> k = LOG_FALSE) \<and> list_all node_ok ns"

section \<open>What the nodes rely on\<close>

text \<open>
  Sets and maps of nodes are hash tables over addresses (\<^verbatim>\<open>SmallPtrSet\<close>,
  \<^verbatim>\<open>DenseMap\<close>), so the order in which they are traversed is a parameter: it takes the
  elements in the order of their insertion. \<open>region\<close> is the use of LLVM's
  \<^verbatim>\<open>ConstantRange\<close>: the smallest and the largest unsigned number of the region of all
  \<open>x\<close> with \<open>x + c < v\<close>, or \<open>x + c > v\<close>.
\<close>

datatype cmp = CMP_ULT | CMP_UGT

fun in_region :: "cmp \<Rightarrow> uint32_t \<Rightarrow> uint32_t \<Rightarrow> uint32_t \<Rightarrow> bool" where
  "in_region CMP_ULT v c x \<longleftrightarrow> x + c < v"
| "in_region CMP_UGT v c x \<longleftrightarrow> x + c > v"

record llvm =
  set_order :: "LogicalNode list \<Rightarrow> LogicalNode list"
  map_order :: "LogicalNode list \<Rightarrow> LogicalNode list"
  region :: "cmp \<Rightarrow> uint32_t \<Rightarrow> uint32_t \<Rightarrow> uint32_t \<times> uint32_t"

text \<open>The documented behaviour: a traversal meets every element once, and the numbers are
  the least and the greatest element of a region that is not empty.\<close>

definition llvm_laws :: "llvm \<Rightarrow> bool" where
  "llvm_laws L \<longleftrightarrow>
     (\<forall>ns. distinct ns \<longrightarrow> distinct (set_order L ns) \<and> set (set_order L ns) = set ns)
   \<and> (\<forall>ns. distinct ns \<longrightarrow> distinct (map_order L ns) \<and> set (map_order L ns) = set ns)
   \<and> (\<forall>p v c x. in_region p v c x \<longrightarrow>
        in_region p v c (fst (region L p v c)) \<and> in_region p v c (snd (region L p v c))
      \<and> fst (region L p v c) \<le> x \<and> x \<le> snd (region L p v c))"

definition insert_node :: "LogicalNode \<Rightarrow> LogicalNode list \<Rightarrow> LogicalNode list" where
  "insert_node n ns = (if n \<in> set ns then ns else ns @ [n])"

lemma insert_node_props [simp]:
  "set (insert_node n ns) = insert n (set ns)" "distinct ns \<Longrightarrow> distinct (insert_node n ns)"
  by (auto simp: insert_node_def)

lemma set_fold_insert [simp]: "set (fold insert_node ns acc) = set ns \<union> set acc"
  by (induction ns arbitrary: acc) auto

lemma distinct_fold_insert [simp]: "distinct acc \<Longrightarrow> distinct (fold insert_node ns acc)"
  by (induction ns arbitrary: acc) auto

lemma set_order_props:
  assumes "llvm_laws L" "distinct ns"
  shows "set (set_order L ns) = set ns" "length (set_order L ns) = length ns"
    "set (map_order L ns) = set ns" "distinct (map_order L ns)"
  using assms distinct_card[of "set_order L ns"] distinct_card[of ns]
  by (auto simp: llvm_laws_def)

lemma regionD:
  assumes "llvm_laws L" "in_region p v c x"
  shows "in_region p v c (fst (region L p v c))" "in_region p v c (snd (region L p v c))"
    "fst (region L p v c) \<le> x" "x \<le> snd (region L p v c)"
  using assms unfolding llvm_laws_def by blast+

section \<open>Disjunction\<close>

text \<open>The loop of \<^verbatim>\<open>getOr\<close>: \<open>Inl\<close> is the return from inside it.\<close>

fun or_collect :: "LogicalNode list \<Rightarrow> LogicalNode list \<Rightarrow> LogicalNode + LogicalNode list" where
  "or_collect [] nodes = Inr nodes"
| "or_collect (s # v) nodes =
     (if kind s = LOG_FALSE then or_collect v nodes
      else if kind s = LOG_TRUE then Inl s
      else if kind s = LOG_OR then or_collect v (fold insert_node (children s) nodes)
      else or_collect v (insert_node s nodes))"

definition getOr :: "llvm \<Rightarrow> LogicalNode list \<Rightarrow> LogicalNode" where
  "getOr L v = (case or_collect v [] of
      Inl s \<Rightarrow> s
    | Inr nodes \<Rightarrow>
        (if nodes = [] then getFalse
         else if length nodes = 1 then hd (set_order L nodes)
         else LogicalNode LOG_OR no_op no_op (set_order L nodes)))"

section \<open>Conjunction\<close>

text \<open>
  \<^verbatim>\<open>getAnd\<close> first takes the operands from a stack, whose top is the head of the list
  here, and separates the comparisons \<open>=X\<close> and \<open>=Y,Y\<close> of one group from the rest.
\<close>

type_synonym adds = "(LogicalNode \<times> LogicalNode list) list"

fun push_add :: "LogicalNode \<Rightarrow> LogicalNode \<Rightarrow> adds \<Rightarrow> adds" where
  "push_add c s [] = [(c, [s])]"
| "push_add c s ((d, ss) # as) = (if c = d then (d, ss @ [s]) # as else (d, ss) # push_add c s as)"

definition is_add :: "LogicalNode \<Rightarrow> bool" where
  "is_add s \<longleftrightarrow> kind s = LOG_EQ \<and> kind (hd (children s)) = LOG_ADDBOTH
     \<and> (op1 s = no_op \<or> op0 s = op1 s)"

lemma size_children: "size_list size (children s) < size s"
  by (cases s) simp

function and_collect ::
  "LogicalNode list \<Rightarrow> adds \<Rightarrow> LogicalNode list \<Rightarrow> LogicalNode + adds \<times> LogicalNode list" where
  "and_collect [] as others = Inr (as, others)"
| "and_collect (s # nodes) as others =
     (if kind s = LOG_TRUE then and_collect nodes as others
      else if kind s = LOG_FALSE then Inl s
      else if kind s = LOG_AND then and_collect (rev (children s) @ nodes) as others
      else if is_add s then and_collect nodes (push_add (hd (children s)) s as) others
      else and_collect nodes as (insert_node s others))"
  by pat_completeness auto
termination
proof (relation "measure (\<lambda>(nodes, as, others). size_list size nodes)", goal_cases)
  case (3 s nodes as others)
  have "size_list size (rev (children s) @ nodes) = size_list size (children s) + size_list size nodes"
    by (simp add: size_list_conv_sum_list rev_map [symmetric])
  then show ?case using size_children[of s] by simp
qed auto

text \<open>
  Then every \<open>=X\<close> of a group is joined with the last \<open>=Y,Y\<close> of the same group that is left
  into \<open>=X,Y\<close>.
\<close>

fun join_adds :: "LogicalNode \<Rightarrow> LogicalNode list \<Rightarrow> LogicalNode list \<Rightarrow> LogicalNode list
    \<Rightarrow> LogicalNode list" where
  "join_adds c [] adduniq others = fold insert_node adduniq others"
| "join_adds c (n1 # addsum) adduniq others =
     (if adduniq \<noteq> [] then
        join_adds c addsum (butlast adduniq)
          (insert_node (LogicalNode LOG_EQ (op0 n1) (op1 (last adduniq)) [c]) others)
      else join_adds c addsum adduniq (insert_node n1 others))"

definition join_group :: "LogicalNode \<Rightarrow> LogicalNode list \<Rightarrow> LogicalNode list \<Rightarrow> LogicalNode list" where
  "join_group c ss others =
     join_adds c (filter (\<lambda>n. op1 n = no_op) ss) (filter (\<lambda>n. op1 n \<noteq> no_op) ss) others"

definition join_groups :: "llvm \<Rightarrow> adds \<Rightarrow> LogicalNode list \<Rightarrow> LogicalNode list" where
  "join_groups L as others =
     fold (\<lambda>c. join_group c (the (map_of as c))) (map_order L (map fst as)) others"

definition getAnd :: "llvm \<Rightarrow> LogicalNode list \<Rightarrow> LogicalNode" where
  "getAnd L v = (case and_collect (rev v) [] [] of
      Inl s \<Rightarrow> s
    | Inr (as, others0) \<Rightarrow>
        (let others = join_groups L as others0 in
         if others = [] then getTrue
         else if length others = 1 then hd (set_order L others)
         else LogicalNode LOG_AND no_op no_op (set_order L others)))"

text \<open>The variants that take the node set answer true for an empty list.\<close>

definition getAnd_set :: "llvm \<Rightarrow> LogicalNode list \<Rightarrow> LogicalNode" where
  "getAnd_set L v = (if v = [] then getTrue else getAnd L v)"

definition getOr_set :: "llvm \<Rightarrow> LogicalNode list \<Rightarrow> LogicalNode" where
  "getOr_set L v = (if v = [] then getTrue else getOr L v)"

definition getOr2 :: "llvm \<Rightarrow> LogicalNode \<Rightarrow> LogicalNode \<Rightarrow> LogicalNode" where
  "getOr2 L lhs rhs = getOr L [lhs, rhs]"

definition getAnd2 :: "llvm \<Rightarrow> LogicalNode \<Rightarrow> LogicalNode \<Rightarrow> LogicalNode" where
  "getAnd2 L lhs rhs = getAnd L [lhs, rhs]"

section \<open>Comparisons\<close>

definition strip_add :: "LogicalNode \<Rightarrow> uint32_t \<Rightarrow> LogicalNode \<times> uint32_t" where
  "strip_add n v = (if kind n = LOG_ADD then (hd (children n), v - op0 n) else (n, v))"

definition getEQ :: "LogicalNode \<Rightarrow> uint32_t \<Rightarrow> LogicalNode" where
  "getEQ n0 v0 = (let (n, v) = strip_add n0 v0 in
     if kind n = LOG_ADDUNIQ
       then LogicalNode LOG_EQ v v [LogicalNode LOG_ADDBOTH no_op no_op (children n)]
     else if kind n = LOG_ADDSUM
       then LogicalNode LOG_EQ v no_op [LogicalNode LOG_ADDBOTH no_op no_op (children n)]
     else LogicalNode LOG_EQ v no_op [n])"

lemma size_hd_children: "children n \<noteq> [] \<Longrightarrow> size (hd (children n)) < size n"
  by (cases n; cases "children n") auto

text \<open>The three functions call each other on the operand of an addition.\<close>

function getLT :: "llvm \<Rightarrow> LogicalNode \<Rightarrow> uint32_t \<Rightarrow> LogicalNode"
  and getGT :: "llvm \<Rightarrow> LogicalNode \<Rightarrow> uint32_t \<Rightarrow> LogicalNode"
  and getRange :: "llvm \<Rightarrow> LogicalNode \<Rightarrow> uint32_t \<Rightarrow> uint32_t \<Rightarrow> LogicalNode" where
  "getLT L n v =
     (if v = 0 then getFalse
      else if kind n = LOG_ADD \<and> children n \<noteq> [] then
        (let (lo, hi) = region L CMP_ULT v (op0 n) in getRange L (hd (children n)) lo hi)
      else LogicalNode LOG_LT v no_op [n])"
| "getGT L n v =
     (if v = 0 then n
      else if kind n = LOG_ADD \<and> children n \<noteq> [] then
        (let (lo, hi) = region L CMP_UGT v (op0 n) in getRange L (hd (children n)) lo hi)
      else LogicalNode LOG_GT v no_op [n])"
| "getRange L n lo hi =
     (let nodes = (if lo \<noteq> 0 then [getGT L n (lo - 1)] else [])
                @ (if hi + 1 \<noteq> 0 then [getLT L n (hi + 1)] else [])
      in if nodes = [] then getTrue else getAnd L nodes)"
  by pat_completeness auto
termination
  by (relation "measure (\<lambda>x. case x of Inl (L, n, v) \<Rightarrow> 2 * size n
        | Inr (Inl (L, n, v)) \<Rightarrow> 2 * size n | Inr (Inr (L, n, lo, hi)) \<Rightarrow> Suc (2 * size n))")
    (use size_hd_children in \<open>fastforce+\<close>)

declare getLT.simps [simp del] getGT.simps [simp del] getRange.simps [simp del]

section \<open>Negation\<close>

text \<open>
  Negation is lowered to comparisons. \<open>None\<close> is the assertion
  \<^verbatim>\<open>Invalid negation operation\<close>: sums cannot be negated.
\<close>

fun getNot :: "llvm \<Rightarrow> LogicalNode \<Rightarrow> LogicalNode option" where
  "getNot L (LogicalNode k a b ns) = (case k of
      LOG_SUBSIGNATURE \<Rightarrow> Some (getEQ (LogicalNode k a b ns) 0)
    | LOG_AND \<Rightarrow> map_option (getOr L) (those (map (getNot L) ns))
    | LOG_OR \<Rightarrow> map_option (getAnd L) (those (map (getNot L) ns))
    | LOG_EQ \<Rightarrow> Some (getOr L [getLT L (hd ns) a, getGT L (hd ns) a])
    | LOG_GT \<Rightarrow> Some (getOr L [getLT L (hd ns) a, getEQ (hd ns) a])
    | LOG_LT \<Rightarrow> Some (getOr L [getGT L (hd ns) a, getEQ (hd ns) a])
    | LOG_NOT \<Rightarrow> Some (hd ns)
    | LOG_TRUE \<Rightarrow> Some getFalse
    | LOG_FALSE \<Rightarrow> Some getTrue
    | _ \<Rightarrow> None)"

section \<open>Sums\<close>

definition getUniqueSigs :: "LogicalNode \<Rightarrow> LogicalNode" where
  "getUniqueSigs n = LogicalNode LOG_ADDUNIQ no_op no_op [n]"

definition getAdd_const :: "LogicalNode \<Rightarrow> uint32_t \<Rightarrow> LogicalNode" where
  "getAdd_const n off = LogicalNode LOG_ADD off no_op [n]"

text \<open>\<^verbatim>\<open>checkUniq\<close>: no child occurs again further on.\<close>

fun no_repetition :: "LogicalNode list \<Rightarrow> bool" where
  "no_repetition [] = True"
| "no_repetition (n # ns) = (if n \<in> set ns then False else no_repetition ns)"

definition checkUniq :: "LogicalNode \<Rightarrow> bool" where
  "checkUniq n = no_repetition (children n)"

lemma no_repetition_distinct [simp]: "no_repetition ns \<longleftrightarrow> distinct ns"
  by (induction ns) auto

fun compare_lt :: "LogicalNode \<Rightarrow> LogicalNode \<Rightarrow> bool"
  and compare_children :: "LogicalNode list \<Rightarrow> LogicalNode list \<Rightarrow> bool" where
  "compare_lt (LogicalNode k a b ns) (LogicalNode k' a' b' ns') =
     (if k \<noteq> k' then k < k'
      else if a \<noteq> a' then a < a'
      else if b \<noteq> b' then a < a'
      else if length ns \<noteq> length ns' then length ns < length ns'
      else compare_children ns ns')"
| "compare_children (n # ns) (m # ms) =
     (if n = m then compare_children ns ms else compare_lt n m)"
| "compare_children _ _ = False"

text \<open>
  \<^verbatim>\<open>std::sort\<close> with this comparison. The children of a sum of counts are subsignatures,
  which it orders totally, so every sorting algorithm gives the same result on them.
\<close>

fun insert_sorted :: "LogicalNode \<Rightarrow> LogicalNode list \<Rightarrow> LogicalNode list" where
  "insert_sorted n [] = [n]"
| "insert_sorted n (m # ms) = (if compare_lt m n then m # insert_sorted n ms else n # m # ms)"

definition sort_nodes :: "LogicalNode list \<Rightarrow> LogicalNode list" where
  "sort_nodes ns = foldr insert_sorted ns []"

text \<open>
  The sum of two nodes: \<open>NoSum\<close> is the null pointer the code returns, \<open>NullChild\<close> a node one
  of whose children is null.
\<close>

datatype sum_result = NoSum | NullChild | SumNode LogicalNode

definition swap_subsig :: "LogicalNode \<Rightarrow> LogicalNode \<Rightarrow> LogicalNode \<times> LogicalNode" where
  "swap_subsig lhs rhs = (if kind rhs = LOG_SUBSIGNATURE then (rhs, lhs) else (lhs, rhs))"

function getAdd :: "LogicalNode \<Rightarrow> LogicalNode \<Rightarrow> sum_result" where
  "getAdd lhs0 rhs0 =
     (if kind lhs0 = kind rhs0 \<and> (kind lhs0 = LOG_ADDUNIQ \<or> kind lhs0 = LOG_ADDSUM) then
        SumNode (LogicalNode (kind lhs0) no_op no_op (sort_nodes (children lhs0 @ children rhs0)))
      else if kind lhs0 = LOG_SUBSIGNATURE \<and> kind rhs0 = LOG_SUBSIGNATURE then
        SumNode (LogicalNode LOG_ADDSUM no_op no_op (sort_nodes [lhs0, rhs0]))
      else
        let lhs = fst (swap_subsig lhs0 rhs0); rhs = snd (swap_subsig lhs0 rhs0) in
        if kind lhs = LOG_SUBSIGNATURE \<and> kind rhs = LOG_ADDSUM then
          SumNode (LogicalNode LOG_ADDSUM no_op no_op (sort_nodes (lhs # children rhs)))
        else if kind rhs = LOG_ADD \<and> (kind lhs = LOG_SUBSIGNATURE \<or> kind lhs = LOG_ADD)
            \<and> children rhs \<noteq> [] then
          (case getAdd lhs (hd (children rhs)) of
             SumNode n \<Rightarrow> SumNode (LogicalNode LOG_ADD
               (op0 rhs + (if kind lhs = LOG_ADD then op0 lhs else 0)) no_op [n])
           | _ \<Rightarrow> NullChild)
        else NoSum)"
  by pat_completeness auto
termination
  by (relation "measure (\<lambda>(l, r). size l + size r)")
    (auto simp: swap_subsig_def dest: size_hd_children split: if_splits)

declare getAdd.simps [simp del]

section \<open>Meaning\<close>

text \<open>
  Given the number of matches of every subsignature, a node is a number and a truth value. A
  count is true when it is not zero. A group of an equality has two numbers, the sum of the
  matches and the number of different children that matched: \<open>=X\<close> compares the sum,
  \<open>=Y,Y\<close> the number of different ones, and \<open>=X,Y\<close> both.
\<close>

type_synonym counts = "uint32_t \<Rightarrow> uint32_t"


type_synonym meaning = "uint32_t \<times> uint32_t \<times> bool"

definition differing :: "meaning list \<Rightarrow> uint32_t" where
  "differing rs = of_nat (length (filter (snd \<circ> snd) rs))"

fun eq_holds :: "uint32_t \<Rightarrow> uint32_t \<Rightarrow> meaning \<Rightarrow> bool" where
  "eq_holds x y (s, u, t) = (if y = no_op then s = x else if x = y then u = y else s = x \<and> u = y)"

definition number_meaning :: "uint32_t \<Rightarrow> uint32_t \<Rightarrow> meaning" where
  "number_meaning s u = (s, u, s \<noteq> 0)"

definition truth_meaning :: "bool \<Rightarrow> meaning" where
  "truth_meaning t = (of_bool t, 0, t)"

fun meaning_of :: "counts \<Rightarrow> LogicalNode \<Rightarrow> meaning" where
  "meaning_of m (LogicalNode k a b ns) = (let rs = map (meaning_of m) ns in case k of
      LOG_SUBSIGNATURE \<Rightarrow> number_meaning (m a) 0
    | LOG_AND \<Rightarrow> truth_meaning (list_all (snd \<circ> snd) rs)
    | LOG_OR \<Rightarrow> truth_meaning (list_ex (snd \<circ> snd) rs)
    | LOG_EQ \<Rightarrow> truth_meaning (eq_holds a b (hd rs))
    | LOG_GT \<Rightarrow> truth_meaning (fst (hd rs) > a)
    | LOG_LT \<Rightarrow> truth_meaning (fst (hd rs) < a)
    | LOG_ADDBOTH \<Rightarrow> number_meaning (sum_list (map fst rs)) (differing rs)
    | LOG_NOT \<Rightarrow> truth_meaning (\<not> snd (snd (hd rs)))
    | LOG_TRUE \<Rightarrow> truth_meaning True
    | LOG_FALSE \<Rightarrow> truth_meaning False
    | LOG_ADD \<Rightarrow> number_meaning (fst (hd rs) + a) 0
    | LOG_ADDSUM \<Rightarrow> number_meaning (sum_list (map fst rs)) (differing rs)
    | LOG_ADDUNIQ \<Rightarrow> number_meaning (differing rs) (differing rs))"

definition num :: "counts \<Rightarrow> LogicalNode \<Rightarrow> uint32_t" where
  "num m n = fst (meaning_of m n)"

definition uniq :: "counts \<Rightarrow> LogicalNode \<Rightarrow> uint32_t" where
  "uniq m n = fst (snd (meaning_of m n))"

definition truth :: "counts \<Rightarrow> LogicalNode \<Rightarrow> bool" where
  "truth m n = snd (snd (meaning_of m n))"

lemma eq_holds_iff:
  "eq_holds x y r \<longleftrightarrow> (if y = no_op then fst r = x else if x = y then fst (snd r) = y
     else fst r = x \<and> fst (snd r) = y)"
  by (cases r) simp

text \<open>The meaning by kinds, as the proofs use it.\<close>

lemma truth_node [simp]:
  "truth m (LogicalNode LOG_SUBSIGNATURE a b ns) \<longleftrightarrow> m a \<noteq> 0"
  "truth m (LogicalNode LOG_AND a b ns) \<longleftrightarrow> (\<forall>n\<in>set ns. truth m n)"
  "truth m (LogicalNode LOG_OR a b ns) \<longleftrightarrow> (\<exists>n\<in>set ns. truth m n)"
  "truth m (LogicalNode LOG_EQ a b (n # ns)) \<longleftrightarrow>
     (if b = no_op then num m n = a else if a = b then uniq m n = b else num m n = a \<and> uniq m n = b)"
  "truth m (LogicalNode LOG_GT a b (n # ns)) \<longleftrightarrow> num m n > a"
  "truth m (LogicalNode LOG_LT a b (n # ns)) \<longleftrightarrow> num m n < a"
  "truth m (LogicalNode LOG_NOT a b (n # ns)) \<longleftrightarrow> \<not> truth m n"
  "truth m getTrue" "\<not> truth m getFalse"
  by (simp_all add: truth_def num_def uniq_def truth_meaning_def number_meaning_def list_all_iff
      list_ex_iff getTrue_def getFalse_def eq_holds_iff)

lemma num_node [simp]:
  "num m (LogicalNode LOG_SUBSIGNATURE a b ns) = m a"
  "num m (LogicalNode LOG_ADDBOTH a b ns) = sum_list (map (num m) ns)"
  "num m (LogicalNode LOG_ADDSUM a b ns) = sum_list (map (num m) ns)"
  "num m (LogicalNode LOG_ADDUNIQ a b ns) = of_nat (length (filter (truth m) ns))"
  "num m (LogicalNode LOG_ADD a b (n # ns)) = num m n + a"
  by (simp_all add: num_def truth_def [abs_def] number_meaning_def differing_def filter_map comp_def
      num_def [abs_def])

lemma uniq_node [simp]:
  "uniq m (LogicalNode LOG_ADDBOTH a b ns) = of_nat (length (filter (truth m) ns))"
  by (simp add: uniq_def truth_def [abs_def] number_meaning_def differing_def filter_map comp_def)

text \<open>A count is true when it is not zero.\<close>

abbreviation counts_kind :: "LogicalKind \<Rightarrow> bool" where
  "counts_kind k \<equiv> k \<in> {LOG_SUBSIGNATURE, LOG_ADDBOTH, LOG_ADD, LOG_ADDSUM, LOG_ADDUNIQ}"

lemma truth_count: "counts_kind (kind n) \<Longrightarrow> truth m n \<longleftrightarrow> num m n \<noteq> 0"
  by (cases n) (auto simp: truth_def num_def number_meaning_def Let_def)

section \<open>Disjunction and conjunction are what they say\<close>

lemma truth_kind:
  "kind s = LOG_TRUE \<Longrightarrow> truth m s" "kind s = LOG_FALSE \<Longrightarrow> \<not> truth m s"
  "kind s = LOG_AND \<Longrightarrow> truth m s \<longleftrightarrow> (\<forall>n\<in>set (children s). truth m n)"
  "kind s = LOG_OR \<Longrightarrow> truth m s \<longleftrightarrow> (\<exists>n\<in>set (children s). truth m n)"
  by (cases s; auto simp: truth_def truth_meaning_def list_all_iff list_ex_iff)+

lemma single_set: "length ns = 1 \<Longrightarrow> set ns = {hd ns}"
  by (cases ns) auto

lemma or_collect_sound:
  "case or_collect v nodes of
     Inl s \<Rightarrow> truth m s \<and> s \<in> set v
   | Inr ns \<Rightarrow> (\<exists>n\<in>set ns. truth m n) = (\<exists>n\<in>set v \<union> set nodes. truth m n)
       \<and> (distinct nodes \<longrightarrow> distinct ns)"
  by (induction v nodes rule: or_collect.induct)
    (auto simp: truth_kind split: sum.splits)

lemma getOr_sound:
  assumes "llvm_laws L"
  shows "truth m (getOr L v) \<longleftrightarrow> (\<exists>n\<in>set v. truth m n)"
proof (cases "or_collect v []")
  case (Inl s)
  then show ?thesis using or_collect_sound[of m v "[]"] by (auto simp: getOr_def)
next
  case (Inr ns)
  then have "distinct ns" and *: "(\<exists>n\<in>set ns. truth m n) = (\<exists>n\<in>set v. truth m n)"
    using or_collect_sound[of m v "[]"] by auto
  then have "set (set_order L ns) = set ns" "length (set_order L ns) = length ns"
    using set_order_props[OF assms] by auto
  then show ?thesis
    using Inr * single_set[of "set_order L ns"] by (auto simp: getOr_def)
qed

text \<open>
  The conjuncts of a node, and the one case in which \<^verbatim>\<open>getAnd\<close> loses a condition: a
  group compared with \<open>=X\<close> and with \<open>=Y,Y\<close> for the same number.
\<close>

fun conjuncts :: "LogicalNode \<Rightarrow> LogicalNode list" where
  "conjuncts (LogicalNode k a b ns) =
     (if k = LOG_AND then concat (map conjuncts ns) else [LogicalNode k a b ns])"

definition clash :: "LogicalNode \<Rightarrow> LogicalNode \<Rightarrow> bool" where
  "clash x y \<longleftrightarrow> is_add x \<and> is_add y \<and> hd (children x) = hd (children y)
     \<and> op1 x = no_op \<and> op1 y \<noteq> no_op \<and> op0 x = op0 y"

definition clash_free :: "LogicalNode list \<Rightarrow> bool" where
  "clash_free v \<longleftrightarrow> (\<forall>x\<in>set (concat (map conjuncts v)). \<forall>y\<in>set (concat (map conjuncts v)). \<not> clash x y)"

definition add_nodes :: "adds \<Rightarrow> LogicalNode set" where
  "add_nodes as = (\<Union>(c, ss)\<in>set as. set ss)"

definition adds_ok :: "adds \<Rightarrow> bool" where
  "adds_ok as \<longleftrightarrow> distinct (map fst as)
     \<and> (\<forall>(c, ss)\<in>set as. \<forall>s\<in>set ss. is_add s \<and> children s \<noteq> [] \<and> hd (children s) = c)"

lemma add_nodes_simps [simp]:
  "add_nodes [] = {}" "add_nodes ((c, ss) # as) = set ss \<union> add_nodes as"
  by (auto simp: add_nodes_def)

lemma add_nodes_push [simp]: "add_nodes (push_add c s as) = insert s (add_nodes as)"
  by (induction c s as rule: push_add.induct) auto

lemma keys_push: "set (map fst (push_add c s as)) = insert c (set (map fst as))"
  by (induction c s as rule: push_add.induct) auto

lemma adds_ok_push:
  "adds_ok as \<Longrightarrow> is_add s \<Longrightarrow> children s \<noteq> [] \<Longrightarrow> adds_ok (push_add (hd (children s)) s as)"
proof (induction "hd (children s)" s as rule: push_add.induct)
  case (2 s d ss as)
  then show ?case using keys_push[of "hd (children s)" s as] by (fastforce simp: adds_ok_def)
qed (auto simp: adds_ok_def)

lemma node_ok_children: "node_ok s \<Longrightarrow> n \<in> set (children s) \<Longrightarrow> node_ok n"
  by (cases s) (auto simp: list_all_iff)

lemma add_children: "node_ok s \<Longrightarrow> is_add s \<Longrightarrow> children s \<noteq> []"
  by (cases s) (auto simp: is_add_def)

lemma conjuncts_kind:
  "kind s = LOG_AND \<Longrightarrow> conjuncts s = concat (map conjuncts (children s))"
  "kind s \<noteq> LOG_AND \<Longrightarrow> conjuncts s = [s]"
  by (cases s; simp)+

lemma and_collect_sound:
  "(\<forall>n\<in>set nodes. node_ok n) \<Longrightarrow> adds_ok as \<Longrightarrow> distinct others \<Longrightarrow>
   (case and_collect nodes as others of
     Inl s \<Rightarrow> \<not> truth m s \<and> \<not> (\<forall>n\<in>set nodes. truth m n)
   | Inr (as', others') \<Rightarrow> adds_ok as' \<and> distinct others'
       \<and> ((\<forall>n\<in>set others' \<union> add_nodes as'. truth m n)
           = (\<forall>n\<in>set nodes \<union> set others \<union> add_nodes as. truth m n))
       \<and> add_nodes as' \<subseteq> add_nodes as \<union> set (concat (map conjuncts nodes)))"
proof (induction nodes as others rule: and_collect.induct)
  case (2 s nodes as others)
  consider "kind s = LOG_TRUE" | "kind s = LOG_FALSE" | "kind s = LOG_AND"
    | "kind s \<notin> {LOG_TRUE, LOG_FALSE, LOG_AND}" "is_add s"
    | "kind s \<notin> {LOG_TRUE, LOG_FALSE, LOG_AND}" "\<not> is_add s" by auto
  then show ?case
  proof cases
    case 1
    then show ?thesis using 2 by (auto simp: truth_kind split: sum.splits)
  next
    case 2
    then show ?thesis by (simp add: truth_kind)
  next
    case 3
    then have "\<forall>n\<in>set (rev (children s) @ nodes). node_ok n"
      using 2 node_ok_children by auto
    then show ?thesis
      using 3 2 by (auto simp: truth_kind conjuncts_kind ball_Un Un_assoc split: sum.splits)
  next
    case 4
    then have "adds_ok (push_add (hd (children s)) s as)"
      using 2 add_children adds_ok_push by auto
    then show ?thesis using 4 2 by (auto simp: conjuncts_kind split: sum.splits)
  next
    case 5
    then show ?thesis using 2 by (auto simp: conjuncts_kind split: sum.splits)
  qed
qed auto

lemma add_truth:
  assumes "is_add s" "children s \<noteq> []"
  shows "truth m s \<longleftrightarrow> (if op1 s = no_op then num m (hd (children s)) = op0 s
     else uniq m (hd (children s)) = op0 s)"
proof -
  obtain c cs where "s = LogicalNode LOG_EQ (op0 s) (op1 s) (c # cs)"
    using assms by (cases s; cases "children s") (auto simp: is_add_def)
  moreover from this have "hd (children s) = c" by (metis LogicalNode.sel(4) list.sel(1))
  moreover have "op1 s = no_op \<or> op0 s = op1 s" using assms by (simp add: is_add_def)
  ultimately show ?thesis by (metis truth_node(4))
qed

text \<open>Joining keeps the conditions when no two of them clash; it never adds one.\<close>

definition all_true :: "counts \<Rightarrow> LogicalNode set \<Rightarrow> bool" where
  "all_true m N \<longleftrightarrow> (\<forall>n\<in>N. truth m n)"

lemma all_true_simps [simp]:
  "all_true m {}" "all_true m (insert n N) \<longleftrightarrow> truth m n \<and> all_true m N"
  "all_true m (M \<union> N) \<longleftrightarrow> all_true m M \<and> all_true m N"
  by (auto simp: all_true_def)

definition group_ok :: "LogicalNode \<Rightarrow> LogicalNode list \<Rightarrow> bool" where
  "group_ok c ss \<longleftrightarrow> (\<forall>s\<in>set ss. is_add s \<and> children s \<noteq> [] \<and> hd (children s) = c)"

lemma set_butlast_last: "xs \<noteq> [] \<Longrightarrow> set xs = insert (last xs) (set (butlast xs))"
  by (metis append_butlast_last_id list.set(2) rotate1.simps(2) set_append set_rotate1 sup_commute
      insert_is_Un empty_set)

text \<open>One step: the node that joins an \<open>=X\<close> with an \<open>=Y,Y\<close>.\<close>

lemma join_step:
  fixes m :: counts
  assumes ok: "group_ok c (n # S @ U)" and n: "op1 n = no_op"
    and U: "\<forall>s\<in>set U. op1 s \<noteq> no_op" "U \<noteq> []"
  defines "j \<equiv> LogicalNode LOG_EQ (op0 n) (op1 (last U)) [c]"
  shows "truth m n \<and> truth m (last U) \<Longrightarrow> truth m j"
    and "op0 n \<noteq> op0 (last U) \<Longrightarrow> truth m j \<longleftrightarrow> truth m n \<and> truth m (last U)"
    and "group_ok c (S @ butlast U)"
proof -
  let ?u = "last U"
  have u: "?u \<in> set U" "op1 ?u \<noteq> no_op" using U by simp_all
  have "is_add n" "children n \<noteq> []" "hd (children n) = c"
    "is_add ?u" "children ?u \<noteq> []" "hd (children ?u) = c"
    using ok u by (auto simp: group_ok_def)
  then have t: "truth m n \<longleftrightarrow> num m c = op0 n" "truth m ?u \<longleftrightarrow> uniq m c = op0 ?u" "op0 ?u = op1 ?u"
    using add_truth[of n m] add_truth[of ?u m] n u(2) by (simp_all add: is_add_def)
  show "truth m n \<and> truth m ?u \<Longrightarrow> truth m j"
    "op0 n \<noteq> op0 ?u \<Longrightarrow> truth m j \<longleftrightarrow> truth m n \<and> truth m ?u"
    using t u(2) by (simp_all add: j_def)
  show "group_ok c (S @ butlast U)"
    using ok by (auto simp: group_ok_def dest: in_set_butlastD)
qed

lemma join_adds_weaker:
  "group_ok c (S @ U) \<Longrightarrow> \<forall>s\<in>set S. op1 s = no_op \<Longrightarrow> \<forall>s\<in>set U. op1 s \<noteq> no_op \<Longrightarrow>
   all_true m (set S \<union> set U \<union> set others) \<Longrightarrow> all_true m (set (join_adds c S U others))"
proof (induction c S U others rule: join_adds.induct)
  case (2 c n1 S U others)
  show ?case
  proof (cases "U = []")
    case False
    then show ?thesis
      using 2 join_step(1,2)[of c n1 S U m] join_step(3)[of c n1 S U] set_butlast_last[OF False] by simp
  qed (use 2 in \<open>simp add: group_ok_def\<close>)
qed simp

lemma join_adds_exact:
  "group_ok c (S @ U) \<Longrightarrow> \<forall>s\<in>set S. op1 s = no_op \<Longrightarrow> \<forall>s\<in>set U. op1 s \<noteq> no_op \<Longrightarrow>
   \<forall>x\<in>set S. \<forall>y\<in>set U. op0 x \<noteq> op0 y \<Longrightarrow>
   all_true m (set (join_adds c S U others)) = all_true m (set S \<union> set U \<union> set others)"
proof (induction c S U others rule: join_adds.induct)
  case (2 c n1 S U others)
  show ?case
  proof (cases "U = []")
    case False
    then have "op0 n1 \<noteq> op0 (last U)" "\<forall>x\<in>set S. \<forall>y\<in>set (butlast U). op0 x \<noteq> op0 y"
      using 2 by (auto dest: in_set_butlastD)
    then show ?thesis
      using 2 False join_step(1,2)[of c n1 S U m] join_step(3)[of c n1 S U] set_butlast_last[OF False] by auto
  qed (use 2 in \<open>auto simp: group_ok_def\<close>)
qed auto

lemma join_group_sound:
  assumes "group_ok c ss"
  shows "all_true m (set ss \<union> set others) \<Longrightarrow> all_true m (set (join_group c ss others))"
    and "\<forall>x\<in>set ss. \<forall>y\<in>set ss. \<not> clash x y \<Longrightarrow>
      all_true m (set (join_group c ss others)) = all_true m (set ss \<union> set others)"
proof -
  let ?S = "filter (\<lambda>n. op1 n = no_op) ss" and ?U = "filter (\<lambda>n. op1 n \<noteq> no_op) ss"
  have ok: "group_ok c (?S @ ?U)" using assms by (auto simp: group_ok_def)
  have ss: "set ss = set ?S \<union> set ?U" by auto
  show "all_true m (set ss \<union> set others) \<Longrightarrow> all_true m (set (join_group c ss others))"
    unfolding join_group_def ss by (rule join_adds_weaker[OF ok]) auto
  assume "\<forall>x\<in>set ss. \<forall>y\<in>set ss. \<not> clash x y"
  then have "\<forall>x\<in>set ?S. \<forall>y\<in>set ?U. op0 x \<noteq> op0 y"
    using assms by (fastforce simp: clash_def group_ok_def)
  then show "all_true m (set (join_group c ss others)) = all_true m (set ss \<union> set others)"
    unfolding join_group_def by (subst join_adds_exact[OF ok]) (auto simp: all_true_def)
qed

lemma distinct_join_adds: "distinct others \<Longrightarrow> distinct (join_adds c S U others)"
  by (induction c S U others rule: join_adds.induct) simp_all

lemma join_fold_sound:
  assumes "\<forall>c\<in>set cs. group_ok c (g c)"
  shows "all_true m ((\<Union>c\<in>set cs. set (g c)) \<union> set others) \<Longrightarrow>
      all_true m (set (fold (\<lambda>c. join_group c (g c)) cs others))"
    and "\<forall>c\<in>set cs. \<forall>x\<in>set (g c). \<forall>y\<in>set (g c). \<not> clash x y \<Longrightarrow>
      all_true m (set (fold (\<lambda>c. join_group c (g c)) cs others))
        = all_true m ((\<Union>c\<in>set cs. set (g c)) \<union> set others)"
    and "distinct others \<Longrightarrow> distinct (fold (\<lambda>c. join_group c (g c)) cs others)"
  using assms
proof (induction cs arbitrary: others)
  case (Cons c cs)
  { case 1 then show ?case using Cons.IH(1) join_group_sound(1)[of c "g c" m] by simp }
  { case 2 then show ?case using Cons.IH(2) join_group_sound(2)[of c "g c" m] by auto }
  { case 3 then show ?case using Cons.IH(3) by (simp add: join_group_def distinct_join_adds) }
qed simp_all

lemma adds_ok_group:
  assumes "adds_ok as" "c \<in> set (map fst as)"
  shows "group_ok c (the (map_of as c))" "set (the (map_of as c)) \<subseteq> add_nodes as"
proof -
  obtain ss where "(c, ss) \<in> set as" using assms(2) by auto
  then have "map_of as c = Some ss" using assms(1) by (simp add: adds_ok_def)
  then show "group_ok c (the (map_of as c))" "set (the (map_of as c)) \<subseteq> add_nodes as"
    using assms(1) \<open>(c, ss) \<in> set as\<close> by (auto simp: adds_ok_def group_ok_def add_nodes_def)
qed

lemma add_nodes_groups: "adds_ok as \<Longrightarrow> add_nodes as = (\<Union>c\<in>set (map fst as). set (the (map_of as c)))"
  by (force simp: add_nodes_def adds_ok_def)

lemma join_groups_sound:
  assumes L: "llvm_laws L" and ok: "adds_ok as"
  shows "all_true m (add_nodes as \<union> set others) \<Longrightarrow> all_true m (set (join_groups L as others))"
    and "\<forall>x\<in>add_nodes as. \<forall>y\<in>add_nodes as. \<not> clash x y \<Longrightarrow>
      all_true m (set (join_groups L as others)) = all_true m (add_nodes as \<union> set others)"
    and "distinct others \<Longrightarrow> distinct (join_groups L as others)"
proof -
  let ?cs = "map_order L (map fst as)" and ?g = "\<lambda>c. the (map_of as c)"
  have cs: "set ?cs = set (map fst as)" using set_order_props(3)[OF L] ok by (simp add: adds_ok_def)
  have g: "\<forall>c\<in>set ?cs. group_ok c (?g c)" using adds_ok_group(1)[OF ok] by (simp add: cs)
  have nodes: "(\<Union>c\<in>set ?cs. set (?g c)) = add_nodes as" by (simp add: cs add_nodes_groups[OF ok])
  note fold = join_fold_sound[OF g]
  show "all_true m (add_nodes as \<union> set others) \<Longrightarrow> all_true m (set (join_groups L as others))"
    using fold(1) by (simp add: join_groups_def nodes)
  assume "\<forall>x\<in>add_nodes as. \<forall>y\<in>add_nodes as. \<not> clash x y"
  then have "\<forall>c\<in>set ?cs. \<forall>x\<in>set (?g c). \<forall>y\<in>set (?g c). \<not> clash x y"
    using nodes by blast
  then show "all_true m (set (join_groups L as others)) = all_true m (add_nodes as \<union> set others)"
    using fold(2) by (simp add: join_groups_def nodes)
next
  show "distinct others \<Longrightarrow> distinct (join_groups L as others)"
  proof -
    assume "distinct others"
    moreover have "distinct (map_order L (map fst as))" "set (map_order L (map fst as)) = set (map fst as)"
      using set_order_props(3,4)[OF L] ok by (simp_all add: adds_ok_def)
    ultimately show ?thesis
      using join_fold_sound(3)[of "map_order L (map fst as)" "\<lambda>c. the (map_of as c)" others]
        adds_ok_group(1)[OF ok] by (simp add: join_groups_def)
  qed
qed

text \<open>
  \<^verbatim>\<open>getAnd\<close> is never stronger than the conjunction, and it is the conjunction when no
  two conjuncts clash.
\<close>

lemma getAnd_cases:
  assumes L: "llvm_laws L" and ok: "\<forall>n\<in>set v. node_ok n"
  shows "(\<forall>n\<in>set v. truth m n) \<Longrightarrow> truth m (getAnd L v)"
    and "clash_free v \<Longrightarrow> truth m (getAnd L v) \<longleftrightarrow> (\<forall>n\<in>set v. truth m n)"
proof -
  have *: "(truth m (getAnd L v) \<longleftrightarrow> (\<forall>n\<in>set v. truth m n)) \<or> (\<exists>as ns. adds_ok as
      \<and> truth m (getAnd L v) = all_true m (set (join_groups L as ns))
      \<and> (all_true m (set ns \<union> add_nodes as) = (\<forall>n\<in>set v. truth m n))
      \<and> add_nodes as \<subseteq> set (concat (map conjuncts v)))"
  proof (cases "and_collect (rev v) [] []")
    case (Inl s)
    then show ?thesis
      using and_collect_sound[of "rev v" "[]" "[]" m] ok by (simp add: getAnd_def adds_ok_def)
  next
    case (Inr r)
    obtain as ns where r: "r = (as, ns)" by fastforce
    have A: "adds_ok as" "distinct ns" "all_true m (set ns \<union> add_nodes as) = (\<forall>n\<in>set v. truth m n)"
      "add_nodes as \<subseteq> set (concat (map conjuncts v))"
      using and_collect_sound[of "rev v" "[]" "[]" m] ok Inr r
      by (simp_all add: adds_ok_def all_true_def rev_map [symmetric])
    let ?o = "join_groups L as ns"
    have "set (set_order L ?o) = set ?o" "length (set_order L ?o) = length ?o"
      using set_order_props[OF L] join_groups_sound(3)[OF L A(1,2)] by auto
    then have "truth m (getAnd L v) = all_true m (set ?o)"
      using Inr r single_set[of "set_order L ?o"] by (auto simp: getAnd_def Let_def all_true_def)
    then show ?thesis using A by blast
  qed
  show "(\<forall>n\<in>set v. truth m n) \<Longrightarrow> truth m (getAnd L v)"
    using * join_groups_sound(1)[OF L] by (metis Un_commute)
  assume free: "clash_free v"
  from * show "truth m (getAnd L v) \<longleftrightarrow> (\<forall>n\<in>set v. truth m n)"
  proof (elim disjE exE conjE)
    fix as ns
    assume A: "adds_ok as" "add_nodes as \<subseteq> set (concat (map conjuncts v))"
      "truth m (getAnd L v) = all_true m (set (join_groups L as ns))"
      "all_true m (set ns \<union> add_nodes as) = (\<forall>n\<in>set v. truth m n)"
    have "\<forall>x\<in>add_nodes as. \<forall>y\<in>add_nodes as. \<not> clash x y"
      using free A(2) unfolding clash_free_def by blast
    then show ?thesis using join_groups_sound(2)[OF L A(1)] A(3,4) by (simp add: Un_commute)
  qed
qed

end
