(* ===== verification/BC_LogicSound.thy ===== *)
theory BC_LogicSound
  imports BC_LogicNode "HOL-Library.Multiset"
begin

text \<open>
  The simplifications of \<^verbatim>\<open>libclambcc/ClamBCLogicalCompiler.cpp\<close> against the meaning of
  the nodes: which comparisons, negations and sums mean what the program they stand for
  computes, and the cases in which they do not.
\<close>

section \<open>Traversal orders and regions that satisfy the laws\<close>

text \<open>
  Traversal in insertion order, and the regions computed from their bounds: a region is one
  interval, unless it wraps around, when it contains both 0 and the largest number.
\<close>

fun region_bounds :: "cmp \<Rightarrow> uint32_t \<Rightarrow> uint32_t \<Rightarrow> uint32_t \<times> uint32_t" where
  "region_bounds CMP_ULT v c = (if c = 0 \<or> v \<le> c then (- c, v - 1 - c) else (0, - 1))"
| "region_bounds CMP_UGT v c = (if c \<le> v + 1 then (v + 1 - c, - 1 - c) else (0, - 1))"

definition insertion_llvm :: llvm where
  "insertion_llvm = \<lparr>set_order = \<lambda>ns. ns, map_order = \<lambda>ns. ns, region = region_bounds\<rparr>"

lemma diff_wrap: "(y :: uint32_t) < c \<Longrightarrow> uint (y - c) = uint y - uint c + 2 ^ 32"
  using uint_sub_if'[of y c] by (simp add: word_less_alt)

lemma diff_nowrap: "(c :: uint32_t) \<le> y \<Longrightarrow> uint (y - c) = uint y - uint c"
  using uint_sub_if'[of y c] by (simp add: word_le_def)

lemma max_word_uint: "uint (- 1 :: uint32_t) = 2 ^ 32 - 1"
  by (simp add: unsigned_minus_1_eq_mask mask_eq_exp_minus_1)

lemma region_ult:
  fixes x c v :: uint32_t
  assumes "x + c < v"
  shows "0 < v" "v - 1 < v"
    and "c = 0 \<or> v \<le> c \<Longrightarrow> - c \<le> x \<and> x \<le> v - 1 - c"
proof -
  show v: "0 < v" "v - 1 < v" using assms by unat_arith+
  assume c: "c = 0 \<or> v \<le> c"
  show "- c \<le> x \<and> x \<le> v - 1 - c"
  proof (cases "c = 0")
    case True
    then show ?thesis using assms by simp unat_arith
  next
    case False
    then have "x + c < c" "v - 1 < c" "0 < c" using assms v c by (auto simp: word_gt_0)
    then have "uint x = uint (x + c) - uint c + 2 ^ 32" "uint (v - 1 - c) = uint (v - 1) - uint c + 2 ^ 32"
      "uint (- c) = 2 ^ 32 - uint c"
      using diff_wrap[of "x + c" c] diff_wrap[of "v - 1" c] diff_wrap[of 0 c] by simp_all
    moreover have "uint (x + c) \<le> uint (v - 1)"
      using assms v(1) diff_nowrap[of 1 v] by (simp add: word_le_def word_less_alt)
    ultimately show ?thesis using uint_ge_0[of "x + c"] by (simp add: word_le_def)
  qed
qed

lemma region_ugt:
  fixes x c v :: uint32_t
  assumes "v < x + c"
  shows "v < v + 1" "v < - 1"
    and "c \<le> v + 1 \<Longrightarrow> v + 1 - c \<le> x \<and> x \<le> - 1 - c"
    and "\<not> c \<le> v + 1 \<Longrightarrow> v < c \<and> v < - 1 + c"
proof -
  show "v < - 1" using assms word_order.extremum[of "x + c"] by (rule less_le_trans)
  show "v < v + 1" "\<not> c \<le> v + 1 \<Longrightarrow> v < c \<and> v < - 1 + c" using assms by unat_arith+
  assume c: "c \<le> v + 1"
  then have "c \<le> x + c" using inc_le[OF assms] by simp
  moreover have "uint c \<le> uint (- 1 :: uint32_t)" using uint_bounded[of c] by (simp add: max_word_uint)
  ultimately have "uint x = uint (x + c) - uint c" "uint (- 1 - c) = 2 ^ 32 - 1 - uint c"
    using diff_nowrap[of c "x + c"] diff_nowrap[of c "- 1"] by (simp_all add: word_le_def max_word_uint)
  then have "x \<le> - 1 - c" using uint_bounded[of "x + c"] by (simp add: word_le_def)
  moreover have "v + 1 - c \<le> x" using assms c by unat_arith
  ultimately show "v + 1 - c \<le> x \<and> x \<le> - 1 - c" by simp
qed

lemma region_bounds_law:
  assumes "in_region p v c x"
  shows "in_region p v c (fst (region_bounds p v c)) \<and> in_region p v c (snd (region_bounds p v c))
    \<and> fst (region_bounds p v c) \<le> x \<and> x \<le> snd (region_bounds p v c)"
proof (cases p)
  case CMP_ULT
  then have x: "x + c < v" using assms by simp
  show ?thesis
  proof (cases "c = 0 \<or> v \<le> c")
    case False
    then have "c < v" "c - 1 < v" by unat_arith+
    then show ?thesis using CMP_ULT False by simp
  qed (use CMP_ULT region_ult[OF x] in simp)
next
  case CMP_UGT
  then have "v < x + c" using assms by simp
  from region_ugt[OF this] show ?thesis using CMP_UGT by (cases "c \<le> v + 1") auto
qed

lemma insertion_llvm_laws: "llvm_laws insertion_llvm"
proof -
  have "in_region p v c x \<Longrightarrow> in_region p v c (fst (region_bounds p v c))
    \<and> in_region p v c (snd (region_bounds p v c))
    \<and> fst (region_bounds p v c) \<le> x \<and> x \<le> snd (region_bounds p v c)" for p v c x
    using region_bounds_law by blast
  then show ?thesis by (simp add: llvm_laws_def insertion_llvm_def)
qed

section \<open>Comparisons\<close>

text \<open>
  \<^verbatim>\<open>a + c == b\<close> becomes \<^verbatim>\<open>a == b - c\<close>, which is right also when the sum wraps
  around. The number of different matches cannot be compared with \<^verbatim>\<open>~0u\<close>, which marks a
  missing number.
\<close>

lemma getEQ_sound:
  assumes "node_ok n" "kind n = LOG_ADD \<longrightarrow> counts_kind (kind (hd (children n)))"
    and "counts_kind (kind n)"
    and "kind (fst (strip_add n v)) = LOG_ADDUNIQ \<longrightarrow> snd (strip_add n v) \<noteq> no_op"
  shows "truth m (getEQ n v) \<longleftrightarrow> num m n = v"
proof -
  have strip: "num m (fst (strip_add n v)) = snd (strip_add n v) \<longleftrightarrow> num m n = v"
  proof (cases "kind n = LOG_ADD")
    case True
    then obtain c cs a b where "n = LogicalNode LOG_ADD a b (c # cs)"
      using assms(1) by (cases n; cases "children n") auto
    then show ?thesis by (auto simp: strip_add_def algebra_simps)
  qed (simp add: strip_add_def)
  have "truth m (getEQ n v) \<longleftrightarrow> num m (fst (strip_add n v)) = snd (strip_add n v)"
    using assms(4) by (cases "fst (strip_add n v)") (auto simp: getEQ_def split_beta)
  then show ?thesis using strip by simp
qed

text \<open>On a node that is not an addition of a constant the order comparisons are direct.\<close>

lemma getLT_direct: "kind n \<noteq> LOG_ADD \<Longrightarrow> truth m (getLT L n v) \<longleftrightarrow> num m n < v"
  by (auto simp: getLT.simps)

lemma getGT_direct:
  "counts_kind (kind n) \<Longrightarrow> kind n \<noteq> LOG_ADD \<Longrightarrow> truth m (getGT L n v) \<longleftrightarrow> num m n > v"
  using truth_count[of n m] word_neq_0_conv by (auto simp: getGT.simps)

lemma not_add: "kind n \<noteq> LOG_EQ \<Longrightarrow> \<not> is_add n"
  by (simp add: is_add_def)

lemma clash_freeI: "\<forall>n\<in>set v. kind n \<noteq> LOG_AND \<and> kind n \<noteq> LOG_EQ \<Longrightarrow> clash_free v"
  by (auto simp: clash_free_def conjuncts_kind clash_def not_add)

lemma getRange_sound:
  assumes L: "llvm_laws L" and n: "counts_kind (kind n)" "kind n \<noteq> LOG_ADD" "node_ok n"
  shows "truth m (getRange L n lo hi) \<longleftrightarrow> lo \<le> num m n \<and> num m n \<le> hi"
proof -
  let ?nodes = "(if lo \<noteq> 0 then [getGT L n (lo - 1)] else [])
    @ (if hi + 1 \<noteq> 0 then [getLT L n (hi + 1)] else [])"
  have "\<forall>x\<in>set ?nodes. kind x \<noteq> LOG_AND \<and> kind x \<noteq> LOG_EQ \<and> node_ok x"
    using n by (auto simp: getGT.simps getLT.simps getFalse_def)
  then have A: "truth m (getAnd L ?nodes) \<longleftrightarrow> (\<forall>x\<in>set ?nodes. truth m x)"
    using getAnd_cases(2)[OF L] clash_freeI by meson
  have lo: "lo \<noteq> 0 \<Longrightarrow> lo - 1 < num m n \<longleftrightarrow> lo \<le> num m n"
    by unat_arith
  have hi: "hi + 1 \<noteq> 0 \<Longrightarrow> num m n < hi + 1 \<longleftrightarrow> num m n \<le> hi" "hi + 1 = 0 \<Longrightarrow> num m n \<le> hi"
    by (unat_arith, simp add: add_eq_0_iff2)
  show ?thesis
    using A lo hi getLT_direct[OF n(2)] getGT_direct[OF n(1,2)]
    by (auto simp: getRange.simps Let_def split: if_splits)
qed

text \<open>
  A comparison of a count plus a constant is turned into a range of the count. The range is
  the region when the region does not wrap around; otherwise it is everything.
\<close>

lemma region_unique:
  assumes "llvm_laws L" "in_region p v c x"
  shows "region L p v c = region_bounds p v c"
  using regionD[OF assms(1)] region_bounds_law assms(2) by (metis order_antisym prod_eq_iff)

lemma region_ult_interval:
  fixes x c v :: uint32_t
  assumes "v \<noteq> 0" "c = 0 \<or> v \<le> c"
  shows "- c \<le> x \<and> x \<le> v - 1 - c \<longleftrightarrow> x + c < v"
proof (cases "c = 0")
  case False
  have "x + c < v" if "- c \<le> x" "x \<le> v - 1 - c"
  proof -
    have "v - 1 < c" using assms False by unat_arith
    then have "uint (- c) = 2 ^ 32 - uint c" "uint (v - 1 - c) = uint (v - 1) - uint c + 2 ^ 32"
      using False diff_wrap[of 0 c] diff_wrap[of "v - 1" c] by (auto simp: word_gt_0)
    moreover from this have "uint (x + c) = uint x + uint c - 2 ^ 32"
      using that uint_plus_if'[of x c] by (simp add: word_le_def)
    ultimately have "x + c \<le> v - 1" using that by (simp add: word_le_def)
    then show ?thesis using assms(1) by unat_arith
  qed
  then show ?thesis using region_ult(3)[of x c v] assms(2) by blast
qed (use assms in \<open>simp, unat_arith\<close>)

lemma region_ugt_interval:
  fixes x c v :: uint32_t
  assumes "v \<noteq> - 1" "c \<le> v + 1"
  shows "v + 1 - c \<le> x \<and> x \<le> - 1 - c \<longleftrightarrow> v < x + c"
proof -
  have "v < x + c" if "v + 1 - c \<le> x" "x \<le> - 1 - c"
  proof -
    have "uint (v + 1 - c) = uint (v + 1) - uint c" "uint (- 1 - c) = 2 ^ 32 - 1 - uint c"
      using assms(2) diff_nowrap[of c "v + 1"] diff_nowrap[of c "- 1"] by (simp_all add: max_word_uint)
    moreover from this have "uint (x + c) = uint x + uint c"
      using that uint_plus_if'[of x c] by (simp add: word_le_def)
    ultimately have "v + 1 \<le> x + c" using that by (simp add: word_le_def)
    moreover have "v < v + 1" using assms(1) region_ugt(1)[of v "- 1" 0]
      by (simp add: word_order.not_eq_extremum)
    ultimately show ?thesis by simp
  qed
  then show ?thesis using region_ugt(3)[of v x c] assms(2) by blast
qed

lemma offset_comparisons:
  assumes L: "llvm_laws L" and n: "counts_kind (kind n)" "kind n \<noteq> LOG_ADD" "node_ok n"
  shows "v \<noteq> 0 \<Longrightarrow> truth m (getLT L (getAdd_const n c) v) \<longleftrightarrow> (0 < c \<and> c < v) \<or> num m n + c < v"
    and "v \<noteq> 0 \<Longrightarrow> v \<noteq> - 1 \<Longrightarrow>
      truth m (getGT L (getAdd_const n c) v) \<longleftrightarrow> v + 1 < c \<or> v < num m n + c"
proof -
  assume v: "v \<noteq> 0"
  then have "region L CMP_ULT v c = region_bounds CMP_ULT v c"
    using region_unique[OF L, of CMP_ULT v c "- c"] by (simp add: word_gt_0)
  then show "truth m (getLT L (getAdd_const n c) v) \<longleftrightarrow> (0 < c \<and> c < v) \<or> num m n + c < v"
    using v getRange_sound[OF L n] region_ult_interval[OF v, of c "num m n"]
    by (auto simp: getLT.simps getAdd_const_def word_gt_0)
next
  assume v: "v \<noteq> 0" "v \<noteq> - 1"
  then have "region L CMP_UGT v c = region_bounds CMP_UGT v c"
    using region_unique[OF L, of CMP_UGT v c "- 1 - c"] by (simp add: word_order.not_eq_extremum)
  then show "truth m (getGT L (getAdd_const n c) v) \<longleftrightarrow> v + 1 < c \<or> v < num m n + c"
    using v getRange_sound[OF L n] region_ugt_interval[OF v(2), of c "num m n"]
    by (auto simp: getGT.simps getAdd_const_def)
qed

section \<open>Sums\<close>

lemma mset_insert_sorted: "mset (insert_sorted n ns) = add_mset n (mset ns)"
  by (induction n ns rule: insert_sorted.induct) auto

lemma mset_sort_nodes: "mset (sort_nodes ns) = mset ns"
  by (induction ns) (simp_all add: sort_nodes_def mset_insert_sorted)

lemma set_sort_nodes [simp]: "set (sort_nodes ns) = set ns"
  by (metis mset_sort_nodes set_mset_mset)

lemma sum_sort_nodes [simp]: "sum_list (map f (sort_nodes ns)) = (sum_list (map f ns) :: uint32_t)"
  by (metis mset_map mset_sort_nodes sum_mset_sum_list)

lemma filter_sort_nodes [simp]: "length (filter P (sort_nodes ns)) = length (filter P ns)"
  by (metis mset_filter mset_sort_nodes size_mset)

lemma sort_nodes_Nil [simp]: "sort_nodes ns = [] \<longleftrightarrow> ns = []"
  by (metis mset_sort_nodes mset_zero_iff)

lemma kindE:
  obtains a b ns where "n = LogicalNode (kind n) a b ns"
  by (cases n) auto

text \<open>
  A sum of subsignatures, of sums, or of numbers of different matches is the sum of the
  numbers, as long as no constant has been added before.
\<close>

lemma getAdd_sound:
  assumes "getAdd l r = SumNode n" "kind l \<noteq> LOG_ADD" "kind r \<noteq> LOG_ADD"
  shows "num m n = num m l + num m r"
proof -
  obtain k a b ns k' a' b' ns' where "l = LogicalNode k a b ns" "r = LogicalNode k' a' b' ns'"
    by (metis LogicalNode.exhaust)
  then show ?thesis
    using assms by (auto simp: getAdd.simps [of "LogicalNode k a b ns"] swap_subsig_def Let_def algebra_simps split: if_splits)
qed

text \<open>
  Adding two counts that both have a constant added: the constant of the first is taken twice,
  once in the outer node and once in the sum inside it.
\<close>

lemma getAdd_constants:
  assumes "kind x = LOG_SUBSIGNATURE" "kind y = LOG_SUBSIGNATURE"
  shows "\<exists>n. getAdd (getAdd_const x a) (getAdd_const y b) = SumNode n
     \<and> num m n = num m x + num m y + a + b + a"
proof -
  have inner: "getAdd y x = SumNode (LogicalNode LOG_ADDSUM no_op no_op (sort_nodes [y, x]))"
    using assms by (simp add: getAdd.simps [of y])
  have "getAdd (getAdd_const x a) y = SumNode (LogicalNode LOG_ADD a no_op
      [LogicalNode LOG_ADDSUM no_op no_op (sort_nodes [y, x])])"
    using assms inner
    by (simp add: getAdd.simps [of "LogicalNode LOG_ADD a no_op [x]"] swap_subsig_def getAdd_const_def Let_def)
  then show ?thesis
    by (simp add: getAdd.simps [of _ "LogicalNode LOG_ADD b no_op [y]"] swap_subsig_def
        getAdd_const_def Let_def algebra_simps)
qed

section \<open>Plain nodes\<close>

text \<open>
  The nodes that come from counts, comparisons of counts and of sums of counts with constants
  and logical connectives, without additions of constants and without numbers of different
  matches.
\<close>

definition plain_count :: "LogicalNode \<Rightarrow> bool" where
  "plain_count n \<longleftrightarrow> (kind n = LOG_SUBSIGNATURE \<and> children n = [])
     \<or> (kind n \<in> {LOG_ADDSUM, LOG_ADDBOTH} \<and> children n \<noteq> []
        \<and> list_all (\<lambda>c. kind c = LOG_SUBSIGNATURE \<and> children c = []) (children n))"

fun plain :: "LogicalNode \<Rightarrow> bool" where
  "plain (LogicalNode k a b ns) = (case k of
      LOG_AND \<Rightarrow> ns \<noteq> [] \<and> list_all plain ns
    | LOG_OR \<Rightarrow> ns \<noteq> [] \<and> list_all plain ns
    | LOG_EQ \<Rightarrow> b = no_op \<and> length ns = 1 \<and> plain_count (hd ns)
    | LOG_GT \<Rightarrow> length ns = 1 \<and> plain_count (hd ns)
    | LOG_LT \<Rightarrow> length ns = 1 \<and> plain_count (hd ns)
    | LOG_TRUE \<Rightarrow> ns = []
    | LOG_FALSE \<Rightarrow> ns = []
    | _ \<Rightarrow> plain_count (LogicalNode k a b ns))"

lemma plain_countD:
  assumes "plain_count n"
  shows "counts_kind (kind n)" "kind n \<notin> {LOG_ADD, LOG_ADDUNIQ}" "node_ok n" "plain n"
proof -
  have leaf: "kind c = LOG_SUBSIGNATURE \<Longrightarrow> children c = [] \<Longrightarrow> node_ok c" for c
    by (cases c) simp
  show "counts_kind (kind n)" "kind n \<notin> {LOG_ADD, LOG_ADDUNIQ}"
    using assms by (auto simp: plain_count_def)
  show "node_ok n" "plain n"
    using assms leaf by (cases n; auto simp: plain_count_def list_all_iff)+
qed

lemma plain_node_ok: "plain n \<Longrightarrow> node_ok n"
proof (induction n rule: plain.induct)
  case (1 k a b ns)
  then show ?case
    by (cases k; cases ns) (auto simp: list_all_iff dest: plain_countD(3))
qed

lemma plain_eq_op: "plain n \<Longrightarrow> kind n = LOG_EQ \<Longrightarrow> op1 n = no_op"
  by (cases n) auto

lemma plain_children:
  "plain n \<Longrightarrow> kind n \<in> {LOG_AND, LOG_OR} \<Longrightarrow> c \<in> set (children n) \<Longrightarrow> plain c"
  by (cases n) (auto simp: list_all_iff)

lemma plain_conjuncts: "plain n \<Longrightarrow> c \<in> set (conjuncts n) \<Longrightarrow> plain c"
  by (induction n rule: conjuncts.induct) (auto simp: list_all_iff split: if_splits)

lemma plain_clash_free: "\<forall>n\<in>set v. plain n \<Longrightarrow> clash_free v"
  using plain_conjuncts plain_eq_op by (force simp: clash_free_def clash_def is_add_def)

lemma getAnd_plain_sound:
  "llvm_laws L \<Longrightarrow> \<forall>n\<in>set v. plain n \<Longrightarrow> truth m (getAnd L v) \<longleftrightarrow> (\<forall>n\<in>set v. truth m n)"
  using getAnd_cases(2) plain_clash_free plain_node_ok by blast

lemma set_order_single:
  assumes "llvm_laws L" "distinct ns" "length ns = 1"
  shows "hd (set_order L ns) \<in> set ns"
  using set_order_props(1,2)[OF assms(1,2)] assms(3) by (metis hd_in_set length_0_conv zero_neq_one)

lemma plain_or_collect:
  "\<forall>n\<in>set v \<union> set nodes. plain n \<Longrightarrow>
   (case or_collect v nodes of Inl s \<Rightarrow> plain s | Inr ns \<Rightarrow> \<forall>n\<in>set ns. plain n)"
proof (induction v nodes rule: or_collect.induct)
  case (2 s v nodes)
  have "\<forall>n\<in>set v \<union> set (fold insert_node (children s) nodes). plain n" if "kind s = LOG_OR"
    using 2 that plain_children by auto
  then show ?case using 2 by (auto split: sum.splits)
qed simp

lemma plain_node:
  "plain getTrue" "plain getFalse" "plain_count (getSubSig i)"
  "ns \<noteq> [] \<Longrightarrow> \<forall>n\<in>set ns. plain n \<Longrightarrow> plain (LogicalNode LOG_AND a b ns)"
  "ns \<noteq> [] \<Longrightarrow> \<forall>n\<in>set ns. plain n \<Longrightarrow> plain (LogicalNode LOG_OR a b ns)"
  by (auto simp: getTrue_def getFalse_def getSubSig_def plain_count_def list_all_iff)

lemma plain_getOr:
  assumes L: "llvm_laws L" and v: "\<forall>n\<in>set v. plain n"
  shows "plain (getOr L v)"
proof (cases "or_collect v []")
  case (Inr ns)
  then have ns: "distinct ns" "\<forall>n\<in>set ns. plain n"
    using or_collect_sound[of _ v "[]"] plain_or_collect[of v "[]"] v by auto
  have "set_order L ns \<noteq> []" if "ns \<noteq> []"
    using that set_order_props(1)[OF L ns(1)] by auto
  then show ?thesis
    using Inr ns set_order_single[OF L ns(1)] set_order_props(1)[OF L ns(1)] plain_node
    by (auto simp: getOr_def)
qed (use plain_or_collect[of v "[]"] v in \<open>auto simp: getOr_def\<close>)

lemma plain_and_collect:
  "\<forall>n\<in>set nodes \<union> add_nodes as \<union> set others. plain n \<Longrightarrow>
   (case and_collect nodes as others of Inl s \<Rightarrow> plain s
    | Inr (as', others') \<Rightarrow> \<forall>n\<in>add_nodes as' \<union> set others'. plain n)"
proof (induction nodes as others rule: and_collect.induct)
  case (2 s nodes as others)
  have "\<forall>n\<in>set (rev (children s) @ nodes) \<union> add_nodes as \<union> set others. plain n" if "kind s = LOG_AND"
    using 2 that plain_children by auto
  then show ?case using 2 by (auto split: sum.splits)
qed auto

lemma join_group_plain:
  assumes "\<forall>n\<in>set ss. op1 n = no_op"
  shows "set (join_group c ss others) = set ss \<union> set others"
proof -
  have "set (join_adds c S [] others) = set S \<union> set others" for S
    by (induction S arbitrary: others) auto
  moreover have "filter (\<lambda>n. op1 n = no_op) ss = ss" "filter (\<lambda>n. op1 n \<noteq> no_op) ss = []"
    using assms by (simp_all add: filter_id_conv filter_empty_conv)
  ultimately show ?thesis by (simp add: join_group_def)
qed

lemma join_groups_plain:
  assumes L: "llvm_laws L" and ok: "adds_ok as" and p: "\<forall>n\<in>add_nodes as. plain n"
  shows "set (join_groups L as others) = add_nodes as \<union> set others"
proof -
  let ?cs = "map_order L (map fst as)" and ?g = "\<lambda>c. the (map_of as c)"
  have cs: "set ?cs = set (map fst as)" using set_order_props(3)[OF L] ok by (simp add: adds_ok_def)
  have fold: "set (fold (\<lambda>c. join_group c (?g c)) cs others) = (\<Union>c\<in>set cs. set (?g c)) \<union> set others"
    if "\<forall>c\<in>set cs. \<forall>n\<in>set (?g c). op1 n = no_op" for cs
    using that by (induction cs arbitrary: others) (auto simp: join_group_plain)
  have "\<forall>c\<in>set ?cs. \<forall>n\<in>set (?g c). op1 n = no_op"
    using adds_ok_group[OF ok] p plain_eq_op by (fastforce simp: cs group_ok_def is_add_def)
  from fold[OF this] show ?thesis using add_nodes_groups[OF ok] by (simp add: join_groups_def cs)
qed

lemma plain_getAnd:
  assumes L: "llvm_laws L" and v: "\<forall>n\<in>set v. plain n"
  shows "plain (getAnd L v)"
proof (cases "and_collect (rev v) [] []")
  case (Inr r)
  obtain as others where r: "r = (as, others)" by fastforce
  have A: "adds_ok as" "distinct others" "\<forall>n\<in>add_nodes as \<union> set others. plain n"
    using and_collect_sound[of "rev v" "[]" "[]"] plain_and_collect[of "rev v" "[]" "[]"] Inr r v
    by (simp_all add: adds_ok_def plain_node_ok)
  let ?o = "join_groups L as others"
  have o: "set ?o = add_nodes as \<union> set others" using join_groups_plain[OF L A(1)] A(3) by simp
  have d: "distinct ?o" using join_groups_sound(3)[OF L A(1,2)] by auto
  have "set_order L ?o \<noteq> []" if "?o \<noteq> []"
    using that set_order_props(1)[OF L d] by auto
  then show ?thesis
    using Inr r o A(3) set_order_single[OF L d] set_order_props(1)[OF L d] plain_node
    by (auto simp: getAnd_def Let_def)
qed (use plain_and_collect[of "rev v" "[]" "[]"] v in \<open>auto simp: getAnd_def\<close>)

lemma plain_comparisons:
  assumes "plain_count n"
  shows "plain (getEQ n v)" "plain (getLT L n v)" "plain (getGT L n v)"
  using assms plain_countD[OF assms] plain_node(2)
  by (auto simp: getEQ_def strip_add_def plain_count_def getLT.simps getGT.simps)

lemma plain_comparisons_sound:
  assumes "plain_count n"
  shows "truth m (getEQ n v) \<longleftrightarrow> num m n = v" "truth m (getLT L n v) \<longleftrightarrow> num m n < v"
    "truth m (getGT L n v) \<longleftrightarrow> num m n > v"
  using plain_countD[OF assms] getEQ_sound[of n v m] getLT_direct[of n m L v] getGT_direct[of n m L v]
  by (auto simp: strip_add_def)

lemma those_map_Some:
  "those (map f xs) = Some ys \<longleftrightarrow> list_all2 (\<lambda>x y. f x = Some y) xs ys"
  by (induction xs arbitrary: ys) (auto simp: list_all2_Cons1 split: option.splits)

text \<open>
  Negation: whenever the lowering of a plain node succeeds, the result is plain and means the
  opposite. This is by induction on the node, by De Morgan's laws for the connectives.
\<close>

lemma getNot_plain_sound:
  assumes "llvm_laws L"
  shows "plain n \<Longrightarrow> getNot L n = Some n' \<Longrightarrow> plain n' \<and> (\<forall>m. truth m n' \<longleftrightarrow> \<not> truth m n)"
proof (induction n arbitrary: n' rule: plain.induct)
  case (1 k a b ns)
  have IH: "(\<forall>c\<in>set cs. plain c) \<and> (\<forall>m. (\<exists>c\<in>set cs. truth m c) = (\<exists>n\<in>set ns. \<not> truth m n))
      \<and> (\<forall>m. (\<forall>c\<in>set cs. truth m c) = (\<forall>n\<in>set ns. \<not> truth m n))"
    if "k = LOG_AND \<or> k = LOG_OR" "those (map (getNot L) ns) = Some cs" for cs
  proof -
    have "list_all2 (\<lambda>n c. plain c \<and> (\<forall>m. truth m c \<longleftrightarrow> \<not> truth m n)) ns cs"
      using that(2)[unfolded those_map_Some]
    proof (rule list.rel_mono_strong)
      fix n c assume n: "n \<in> set ns" "getNot L n = Some c"
      then have "plain n" using that(1) 1(3) by (auto simp: list_all_iff)
      then show "plain c \<and> (\<forall>m. truth m c \<longleftrightarrow> \<not> truth m n)" using that(1) 1(1,2) n by blast
    qed
    then show ?thesis by (induction rule: list_all2_induct) auto
  qed
  note sound = plain_comparisons plain_comparisons_sound plain_getOr[OF assms] plain_getAnd[OF assms]
    getOr_sound[OF assms] getAnd_plain_sound[OF assms]
  have cmp: "\<exists>c. ns = [c] \<and> plain_count c" if "k \<in> {LOG_EQ, LOG_GT, LOG_LT}"
    using that 1(3) by (cases ns) auto
  show ?case
  proof (cases "k \<in> {LOG_EQ, LOG_GT, LOG_LT}")
    case True
    then obtain c where c: "ns = [c]" "plain_count c" using cmp by auto
    then show ?thesis using True 1(3,4) by (auto simp: sound neq_iff) (meson less_asym)+
  next
    case False
    have conn: "k \<in> {LOG_AND, LOG_OR} \<Longrightarrow> \<exists>cs. those (map (getNot L) ns) = Some cs"
      using 1(4) by auto
    have "plain_count (LogicalNode k a b ns)" if "k \<in> {LOG_SUBSIGNATURE, LOG_NOT}"
      using 1(3) that by auto
    then show ?thesis
      using False 1(3,4) IH conn plain_node(1,2)
      by (cases k) (auto simp: sound truth_kind plain_count_def)
  qed
qed

section \<open>What the simplifications promise\<close>

text \<open>
  C21: The connectives mean what they say, for every traversal order: a disjunction is true when
  one of the operands is; a conjunction is never stronger than its operands together, and it is
  their conjunction unless two of them compare one group with \<open>=X\<close> and with \<open>=X,X\<close>.
\<close>

theorem connectives_sound:
  assumes "llvm_laws L" "\<forall>n\<in>set v. node_ok n"
  shows "(truth m (getOr L v) \<longleftrightarrow> (\<exists>n\<in>set v. truth m n))
    \<and> ((\<forall>n\<in>set v. truth m n) \<longrightarrow> truth m (getAnd L v))
    \<and> (clash_free v \<longrightarrow> (truth m (getAnd L v) \<longleftrightarrow> (\<forall>n\<in>set v. truth m n)))"
  using getOr_sound[OF assms(1)] getAnd_cases[OF assms] by blast

text \<open>A group of two subsignatures, compared with a sum and with a number of different matches.\<close>

definition sample_group :: LogicalNode where
  "sample_group = LogicalNode LOG_ADDBOTH no_op no_op [getSubSig 0, getSubSig 1]"

theorem connectives_sound_witness:
  "truth (\<lambda>i. if i = 0 then 2 else 1) (getAnd insertion_llvm
     [LogicalNode LOG_EQ 3 no_op [sample_group], LogicalNode LOG_EQ 2 2 [sample_group]])"
proof -
  have "truth (\<lambda>i. if i = 0 then 2 else 1) (LogicalNode LOG_EQ 3 no_op [sample_group])"
    "truth (\<lambda>i. if i = 0 then 2 else 1) (LogicalNode LOG_EQ 2 2 [sample_group])" by code_simp+
  moreover have "\<forall>n\<in>set [LogicalNode LOG_EQ 3 no_op [sample_group], LogicalNode LOG_EQ 2 2 [sample_group]].
    node_ok n" by code_simp
  ultimately show ?thesis using connectives_sound[OF insertion_llvm_laws] by simp
qed

text \<open>
  The clash: the sum is 3 and the number of different matches is 2, yet the conjunction of
  \<open>=2\<close> and \<open>=2,2\<close> is true, because both are joined into \<open>=2,2\<close>.
\<close>

lemma equal_comparisons_conflated:
  "getAnd insertion_llvm [LogicalNode LOG_EQ 2 no_op [sample_group], LogicalNode LOG_EQ 2 2 [sample_group]]
     = LogicalNode LOG_EQ 2 2 [sample_group]
   \<and> truth (\<lambda>i. if i = 0 then 2 else 1) (LogicalNode LOG_EQ 2 2 [sample_group])
   \<and> \<not> truth (\<lambda>i. if i = 0 then 2 else 1) (LogicalNode LOG_EQ 2 no_op [sample_group])"
  by code_simp



text \<open>
  Comparing a count plus a constant: \<open>n + c < v\<close> becomes the range of the count when the
  constant is 0 or at least \<open>v\<close>, and true in all other cases; \<open>n + c > v\<close> becomes the range when
  \<open>c\<close> is at most \<open>v + 1\<close>, and true otherwise. So \<open>n + 1 < 5\<close> is compiled to true.
\<close>

theorem offset_comparison_ranges:
  assumes "llvm_laws L" "counts_kind (kind n)" "kind n \<noteq> LOG_ADD" "node_ok n"
    and "v \<noteq> 0" "v \<noteq> - 1"
  shows "(truth m (getLT L (getAdd_const n c) v) \<longleftrightarrow> (0 < c \<and> c < v) \<or> num m n + c < v)
    \<and> (truth m (getGT L (getAdd_const n c) v) \<longleftrightarrow> v + 1 < c \<or> v < num m n + c)"
  using offset_comparisons[OF assms(1-4)] assms(5,6) by blast

theorem offset_comparison_ranges_witness:
  "truth (\<lambda>i. 7) (getLT insertion_llvm (getAdd_const (getSubSig 0) 1) 5)
   \<and> \<not> num (\<lambda>i. 7) (getSubSig 0) + 1 < 5"
  using offset_comparison_ranges[OF insertion_llvm_laws, of "getSubSig 0" 5 "\<lambda>i. 7" 1]
  by (simp add: getSubSig_def)

end
