(* ===== verification/BC_LogicCompile.thy ===== *)
theory BC_LogicCompile
  imports BC_IR BC_LogicSound
begin

text \<open>
  The class \<^verbatim>\<open>LogicalCompiler\<close> of \<^verbatim>\<open>libclambcc/ClamBCLogicalCompiler.cpp\<close>: it turns
  the body of \<^verbatim>\<open>logical_trigger\<close> into one logical expression, instruction by
  instruction, with the paths to a phi node spelled out as conjunctions of branch conditions.
\<close>

section \<open>Results\<close>

text \<open>
  \<open>Reject\<close> is a diagnostic, after which the function is not compiled; \<open>Crash\<close> is a failed
  assertion or cast, or the use of a null pointer or of the end iterator of a map.
\<close>

datatype 'a compiled = Crash | Reject | Done 'a

fun andthen :: "'a compiled \<Rightarrow> ('a \<Rightarrow> 'b compiled) \<Rightarrow> 'b compiled" where
  "andthen Crash g = Crash"
| "andthen Reject g = Reject"
| "andthen (Done x) g = g x"

lemma andthen_Done: "andthen x g = Done y \<longleftrightarrow> (\<exists>z. x = Done z \<and> g z = Done y)"
  by (cases x) auto

definition or_crash :: "'a option \<Rightarrow> 'a compiled" where
  "or_crash x = (case x of None \<Rightarrow> Crash | Some y \<Rightarrow> Done y)"

lemma or_crash_Done [simp]: "or_crash x = Done y \<longleftrightarrow> x = Some y"
  by (simp add: or_crash_def split: option.split)

text \<open>
  \<^verbatim>\<open>Map\<close>: the nodes of the instructions met so far, by instruction number. A phi node can be
  entered with a null pointer, which is \<open>Some None\<close>.
\<close>

type_synonym node_map = "nat \<rightharpoonup> LogicalNode option"

fun find_node :: "node_map \<Rightarrow> val \<Rightarrow> LogicalNode option option" where
  "find_node M (VInst t i) = M i"
| "find_node M _ = None"

definition deref :: "LogicalNode option option \<Rightarrow> LogicalNode compiled" where
  "deref x = (case x of Some (Some n) \<Rightarrow> Done n | _ \<Rightarrow> Crash)"

text \<open>A lookup whose failure the code reports.\<close>

definition checked :: "LogicalNode option option \<Rightarrow> LogicalNode compiled" where
  "checked x = (if x = None then Reject else deref x)"

lemma deref_Done [simp]:
  "deref x = Done n \<longleftrightarrow> x = Some (Some n)" "checked x = Done n \<longleftrightarrow> x = Some (Some n)"
  by (auto simp: deref_def checked_def split: option.splits)

section \<open>Single instructions\<close>

fun const_int :: "val \<Rightarrow> nat option" where
  "const_int (VConst t (KInt w n)) = Some n"
| "const_int _ = None"

fun isa_Constant :: "val \<Rightarrow> bool" where
  "isa_Constant (VConst t k) = True"
| "isa_Constant _ = False"

text \<open>
  \<^verbatim>\<open>processLoad\<close>: the address is a constant \<^verbatim>\<open>getelementptr\<close> into
  \<^verbatim>\<open>__clambc_match_counts\<close>; any address that is not a constant expression counts as the
  array itself.
\<close>

definition match_counts :: string where
  "match_counts = ''__clambc_match_counts''"

fun processLoad :: "val \<Rightarrow> LogicalNode compiled" where
  "processLoad (VConst t (KExpr e u ks)) =
     (case ks of
        [g, z, i] \<Rightarrow>
          (if e \<noteq> CE_GetElementPtr \<or> g \<noteq> KGlobal match_counts then Reject
           else (case z of
               KInt w n \<Rightarrow> (if n \<noteq> 0 then Reject
                 else (case i of KInt w' j \<Rightarrow> Done (getSubSig (of_nat j)) | _ \<Rightarrow> Crash))
             | _ \<Rightarrow> Crash))
      | _ \<Rightarrow> Reject)"
| "processLoad _ = Done (getSubSig 0)"

definition compare_node :: "llvm \<Rightarrow> pred \<Rightarrow> LogicalNode \<Rightarrow> uint32_t \<Rightarrow> LogicalNode compiled" where
  "compare_node L p n rhs = (case p of
      ICMP_EQ \<Rightarrow> Done (getEQ n rhs)
    | ICMP_NE \<Rightarrow> or_crash (getNot L (getEQ n rhs))
    | ICMP_UGT \<Rightarrow> Done (getGT L n rhs)
    | ICMP_UGE \<Rightarrow> (if rhs = 0 then Reject else Done (getGT L n (rhs - 1)))
    | ICMP_ULT \<Rightarrow> Done (getLT L n rhs)
    | ICMP_ULE \<Rightarrow> (if rhs = - 1 then Reject else Done (getLT L n (rhs + 1)))
    | _ \<Rightarrow> Reject)"

definition processICmp :: "llvm \<Rightarrow> node_map \<Rightarrow> pred \<Rightarrow> val \<Rightarrow> val \<Rightarrow> LogicalNode compiled" where
  "processICmp L M p a b = (let (op0, op1) = (if isa_Constant a then (b, a) else (a, b)) in
     case const_int op1 of
       None \<Rightarrow> Reject
     | Some v \<Rightarrow> (if 2 ^ 32 \<le> int v then Reject
         else andthen (checked (find_node M op0)) (\<lambda>n. compare_node L p n (of_nat v))))"

text \<open>
  A \<^verbatim>\<open>select\<close> is \<open>cond && trueval || !cond && falseval\<close>, where a constant value gives a
  part without a node.
\<close>

definition select_part :: "llvm \<Rightarrow> node_map \<Rightarrow> LogicalNode \<Rightarrow> val \<Rightarrow> LogicalNode option compiled" where
  "select_part L M cond v = (case find_node M v of
      Some n \<Rightarrow> andthen (deref (Some n)) (\<lambda>n. Done (Some (getAnd2 L cond n)))
    | None \<Rightarrow> (case const_int v of
        None \<Rightarrow> Crash
      | Some k \<Rightarrow> (if k = 1 then Done (Some cond) else if k = 0 then Done None else Reject)))"

definition processSelect :: "llvm \<Rightarrow> node_map \<Rightarrow> val \<Rightarrow> val \<Rightarrow> val \<Rightarrow> LogicalNode compiled" where
  "processSelect L M c t f =
     (if find_node M c = None \<or> (find_node M t = None \<and> find_node M f = None) then Reject
      else andthen (deref (find_node M c)) (\<lambda>cond.
           andthen (select_part L M cond t) (\<lambda>n.
           andthen (or_crash (getNot L cond)) (\<lambda>notcond.
           andthen (select_part L M notcond f) (\<lambda>n2.
             case (n, n2) of
               (Some x, Some y) \<Rightarrow> Done (getOr2 L x y)
             | (Some x, None) \<Rightarrow> Done x
             | (None, Some y) \<Rightarrow> Done y
             | (None, None) \<Rightarrow> Reject)))))"

definition processAdd :: "node_map \<Rightarrow> val \<Rightarrow> val \<Rightarrow> LogicalNode compiled" where
  "processAdd M a b =
     (if find_node M a = None then Reject
      else case const_int b of
        Some k \<Rightarrow> andthen (deref (find_node M a)) (\<lambda>n. Done (getAdd_const n (of_nat k)))
      | None \<Rightarrow>
          (if find_node M b = None then Reject
           else andthen (deref (find_node M a)) (\<lambda>n1. andthen (deref (find_node M b)) (\<lambda>n2.
             case getAdd n1 n2 of
               NoSum \<Rightarrow> Reject
             | NullChild \<Rightarrow> Crash
             | SumNode n \<Rightarrow> if checkUniq n then Done n else Reject))))"

definition processLogic :: "(LogicalNode \<Rightarrow> LogicalNode \<Rightarrow> LogicalNode) \<Rightarrow> node_map \<Rightarrow> val \<Rightarrow> val
    \<Rightarrow> LogicalNode compiled" where
  "processLogic op M a b =
     (if find_node M a = None \<or> find_node M b = None then Reject
      else andthen (deref (find_node M a)) (\<lambda>n1. andthen (deref (find_node M b)) (\<lambda>n2.
        Done (op n1 n2))))"

definition processXor :: "llvm \<Rightarrow> node_map \<Rightarrow> val \<Rightarrow> val \<Rightarrow> LogicalNode compiled" where
  "processXor L M a b =
     (if const_int b \<noteq> Some 1 then Reject
      else andthen (checked (find_node M a)) (\<lambda>n. or_crash (getNot L n)))"

definition processZExt :: "node_map \<Rightarrow> ty \<Rightarrow> val \<Rightarrow> LogicalNode compiled" where
  "processZExt M to a =
     (if find_node M a = None then Reject
      else if val_ty a \<noteq> IntTy 1 \<or> to \<noteq> IntTy 32 then Reject
      else andthen (deref (find_node M a)) (\<lambda>n. Done (getUniqueSigs n)))"

section \<open>Phi nodes\<close>

text \<open>
  A helper is a branch, by the block it ends, with the direction taken; a route is the list of
  the branches from the entry block on.
\<close>

datatype LogicalPHIHelper = LogicalPHIHelper (pBasicBlock: nat) (isTrue: bool)

type_synonym route = "LogicalPHIHelper list"

definition getTerminator :: "bfunction \<Rightarrow> nat \<Rightarrow> kind option" where
  "getTerminator f b = (case nth_opt (f_blocks f) b of
      None \<Rightarrow> None | Some is \<Rightarrow> if is = [] then None else Some (inst_kind (last is)))"

definition getCondition :: "bfunction \<Rightarrow> LogicalPHIHelper \<Rightarrow> val option" where
  "getCondition f h = (case getTerminator f (pBasicBlock h) of
      Some (CondBr c t e) \<Rightarrow> Some c | _ \<Rightarrow> None)"

text \<open>
  \<^verbatim>\<open>populateRoutes\<close> extends the route at \<open>idx\<close>, and appends a route for every false
  branch. The recursion is bounded by fuel; that it always ends is proved below.
\<close>

fun populateRoutes :: "bfunction \<Rightarrow> nat \<Rightarrow> nat \<Rightarrow> nat \<Rightarrow> route list \<Rightarrow> nat \<Rightarrow> route list option" where
  "populateRoutes f stop 0 cur routes idx = None"
| "populateRoutes f stop (Suc fuel) cur routes idx =
     (if cur = stop then Some routes
      else if cur \<in> set (map pBasicBlock (routes ! idx)) then Some routes
      else case getTerminator f cur of
        Some (CondBr c t e) \<Rightarrow>
          (let falseIdx = length routes;
               routes1 = routes[idx := routes ! idx @ [LogicalPHIHelper cur True]]
                 @ [routes ! idx @ [LogicalPHIHelper cur False]]
           in case populateRoutes f stop fuel t routes1 idx of
                None \<Rightarrow> None
              | Some routes2 \<Rightarrow> populateRoutes f stop fuel e routes2 falseIdx)
      | Some (Br t) \<Rightarrow>
          populateRoutes f stop fuel t (routes[idx := routes ! idx @ [LogicalPHIHelper cur True]]) idx
      | _ \<Rightarrow> Some routes)"

text \<open>An empty route makes \<^verbatim>\<open>findRoute\<close> read before the start of a vector.\<close>

definition findRoute :: "nat \<Rightarrow> route list \<Rightarrow> route list compiled" where
  "findRoute b routes = (if [] \<in> set routes then Crash
     else Done (filter (\<lambda>r. pBasicBlock (last r) = b) routes))"

fun getLogicalNode :: "llvm \<Rightarrow> bfunction \<Rightarrow> node_map \<Rightarrow> LogicalNode option \<Rightarrow> route
    \<Rightarrow> LogicalNode option compiled" where
  "getLogicalNode L f M ret [] = Done ret"
| "getLogicalNode L f M ret (h # route) = (case getCondition f h of
      None \<Rightarrow> getLogicalNode L f M ret route
    | Some c \<Rightarrow> andthen (deref (find_node M c)) (\<lambda>n.
        andthen (if isTrue h then Done n else or_crash (getNot L n)) (\<lambda>ln.
          getLogicalNode L f M
            (Some (case ret of None \<Rightarrow> ln | Some r \<Rightarrow> getAnd2 L r ln)) route)))"

text \<open>One route of an incoming value, added to the disjunction so far.\<close>

definition add_route :: "llvm \<Rightarrow> bfunction \<Rightarrow> node_map \<Rightarrow> val \<Rightarrow> LogicalNode option \<Rightarrow> route
    \<Rightarrow> LogicalNode option compiled" where
  "add_route L f M v ln route =
     andthen (getLogicalNode L f M None route) (\<lambda>tmp0.
     andthen (if const_int v = None then
                andthen (deref (find_node M v)) (\<lambda>l. case tmp0 of None \<Rightarrow> Crash
                  | Some t \<Rightarrow> Done (Some (getAnd2 L t l)))
              else Done tmp0) (\<lambda>tmp.
       case ln of
         None \<Rightarrow> Done tmp
       | Some n \<Rightarrow> (case tmp of None \<Rightarrow> Crash | Some t \<Rightarrow> Done (Some (getOr2 L n t)))))"

fun add_routes :: "llvm \<Rightarrow> bfunction \<Rightarrow> node_map \<Rightarrow> val \<Rightarrow> LogicalNode option \<Rightarrow> route list
    \<Rightarrow> LogicalNode option compiled" where
  "add_routes L f M v ln [] = Done ln"
| "add_routes L f M v ln (r # rs) =
     andthen (add_route L f M v ln r) (\<lambda>ln. add_routes L f M v ln rs)"

fun add_incoming :: "llvm \<Rightarrow> bfunction \<Rightarrow> node_map \<Rightarrow> route list \<Rightarrow> LogicalNode option
    \<Rightarrow> (val \<times> nat) list \<Rightarrow> LogicalNode option compiled" where
  "add_incoming L f M routes ln [] = Done ln"
| "add_incoming L f M routes ln ((v, b) # ivs) =
     (if const_int v = Some 0 then add_incoming L f M routes ln ivs
      else andthen (findRoute b routes) (\<lambda>rs.
           andthen (add_routes L f M v ln rs) (\<lambda>ln. add_incoming L f M routes ln ivs)))"

definition processPHI :: "llvm \<Rightarrow> bfunction \<Rightarrow> node_map \<Rightarrow> nat \<Rightarrow> (val \<times> nat) list
    \<Rightarrow> LogicalNode option compiled" where
  "processPHI L f M phiBlock ivs =
     (case populateRoutes f phiBlock (Suc (length (f_blocks f))) 0 [[]] 0 of
        None \<Rightarrow> Crash
      | Some routes \<Rightarrow> add_incoming L f M routes None ivs)"

section \<open>Basic blocks\<close>

record compiler =
  Map :: node_map
  exitNodesOr :: "LogicalNode list"
  exitNodesAnd :: "LogicalNode list"

text \<open>The node that an instruction other than a branch or a return is entered with.\<close>

fun instruction_node :: "llvm \<Rightarrow> bfunction \<Rightarrow> node_map \<Rightarrow> nat \<Rightarrow> inst \<Rightarrow> LogicalNode option compiled" where
  "instruction_node L f M b i = (case inst_kind i of
      Phi ivs \<Rightarrow> processPHI L f M b ivs
    | Load p \<Rightarrow> andthen (processLoad p) (\<lambda>n. Done (Some n))
    | ICmp p x y \<Rightarrow> andthen (processICmp L M p x y) (\<lambda>n. Done (Some n))
    | Select c x y \<Rightarrow> andthen (processSelect L M c x y) (\<lambda>n. Done (Some n))
    | Binary Add x y \<Rightarrow> andthen (processAdd M x y) (\<lambda>n. Done (Some n))
    | Binary And x y \<Rightarrow> andthen (processLogic (getAnd2 L) M x y) (\<lambda>n. Done (Some n))
    | Binary Or x y \<Rightarrow> andthen (processLogic (getOr2 L) M x y) (\<lambda>n. Done (Some n))
    | Binary Xor x y \<Rightarrow> andthen (processXor L M x y) (\<lambda>n. Done (Some n))
    | Cast ZExt x \<Rightarrow> andthen (processZExt M (inst_ty i) x) (\<lambda>n. Done (Some n))
    | _ \<Rightarrow> Reject)"

text \<open>
  A return: the stack of conditions is always empty, so a constant gives the conjunction of
  nothing, which is true, or its negation.
\<close>

definition processRet :: "llvm \<Rightarrow> val \<Rightarrow> compiler \<Rightarrow> compiler compiled" where
  "processRet L v s = (case const_int v of
      Some k \<Rightarrow>
        (if k = 0 then andthen (or_crash (getNot L (getAnd_set L [])))
           (\<lambda>n. Done (s\<lparr>exitNodesOr := exitNodesOr s @ [n]\<rparr>))
         else Done (s\<lparr>exitNodesAnd := exitNodesAnd s @ [getAnd_set L []]\<rparr>))
    | None \<Rightarrow> andthen (checked (find_node (Map s) v))
        (\<lambda>n. Done (s\<lparr>exitNodesOr := exitNodesOr s @ [getAnd_set L [n]]\<rparr>)))"

text \<open>
  \<^verbatim>\<open>processBB\<close>. A rejected load or comparison only clears \<open>valid\<close>, which an unconditional
  branch then ignores; any other rejection ends the work.
\<close>

fun clears_valid :: "kind \<Rightarrow> bool" where
  "clears_valid (Load p) = True"
| "clears_valid (ICmp p x y) = True"
| "clears_valid _ = False"

fun processBB :: "llvm \<Rightarrow> bfunction \<Rightarrow> nat \<Rightarrow> bool \<Rightarrow> inst list \<Rightarrow> compiler \<Rightarrow> compiler compiled" where
  "processBB L f b valid [] s = (if valid then Done s else Reject)"
| "processBB L f b valid (i # is) s = (case inst_kind i of
      DbgIntrinsic \<Rightarrow> processBB L f b valid is s
    | Alloca t n \<Rightarrow> processBB L f b valid is s
    | Br t \<Rightarrow> Done s
    | CondBr c t e \<Rightarrow>
        andthen (checked (find_node (Map s) c)) (\<lambda>n.
        andthen (or_crash (getNot L n)) (\<lambda>n. processBB L f b valid is s))
    | Return (Some v) \<Rightarrow> andthen (processRet L v s) (\<lambda>s. processBB L f b valid is s)
    | Return None \<Rightarrow> Crash
    | k \<Rightarrow> (case instruction_node L f (Map s) b i of
        Crash \<Rightarrow> Crash
      | Reject \<Rightarrow> (if clears_valid k then processBB L f b False is s else Reject)
      | Done n \<Rightarrow> processBB L f b valid is (s\<lparr>Map := (Map s)(inst_id i \<mapsto> n)\<rparr>)))"

fun processBlocks :: "llvm \<Rightarrow> bfunction \<Rightarrow> nat \<Rightarrow> inst list list \<Rightarrow> compiler \<Rightarrow> compiler compiled" where
  "processBlocks L f b [] s = Done s"
| "processBlocks L f b (is # bs) s =
     andthen (processBB L f b True is s) (\<lambda>s. processBlocks L f (Suc b) bs s)"

text \<open>\<^verbatim>\<open>compile\<close>, where \<open>declared\<close> says whether the match counts are declared.\<close>

definition compile :: "llvm \<Rightarrow> bool \<Rightarrow> bfunction \<Rightarrow> LogicalNode compiled" where
  "compile L declared f =
     (if \<not> declared then Reject
      else andthen (processBlocks L f 0 (f_blocks f)
             \<lparr>Map = (\<lambda>_. None), exitNodesOr = [], exitNodesAnd = []\<rparr>) (\<lambda>s.
        Done (getAnd2 L (getOr_set L (exitNodesOr s)) (getAnd_set L (exitNodesAnd s)))))"

end
