(* ===== verification/BC_CallGraph.thy ===== *)
theory BC_CallGraph
  imports BC_LogicCompile
begin

text \<open>
  The search for recursion in \<^verbatim>\<open>libclambcc/ClamBCUtilities.cpp\<close>, which the logical signature
  compiler uses to refuse trigger functions, and its correctness: it finds a call of the
  function exactly when the function can be reached from itself in the call graph.
\<close>

section \<open>The search\<close>

text \<open>The body of a function of the module; declarations and unknown names have none.\<close>

definition body_insts :: "mfunction list \<Rightarrow> string \<Rightarrow> inst list" where
  "body_insts fs name = (case find (\<lambda>f. mf_name f = name) fs of None \<Rightarrow> [] | Some f \<Rightarrow> f_insts (mf_body f))"

text \<open>
  What an instruction calls: nothing, a function, or something that is not a function of the
  module. Calls of intrinsics that carry debug information are calls of declarations.
\<close>

datatype target = NoCall | Calls string | CallsUnknown

fun call_target :: "BC_IR.kind \<Rightarrow> target" where
  "call_target (Call c as) = Calls (fn_name c)"
| "call_target (IndirectCall p as) = CallsUnknown"
| "call_target (InlineAsmCall t as) = CallsUnknown"
| "call_target k = NoCall"

text \<open>
  The recursion of \<^verbatim>\<open>functionRecurses\<close> with its pending calls as one list: a call that finds
  nothing goes on behind the call instruction, and one that finds the function ends the search
  at every level. The list therefore holds the instructions that are still to be looked at,
  those of the called function in front. A call of something unknown stops the compiler.
\<close>

function recurses :: "mfunction list \<Rightarrow> string \<Rightarrow> inst list \<Rightarrow> string list \<Rightarrow> bool compiled" where
  "recurses fs orig [] visited = Done False"
| "recurses fs orig (i # is) visited = (case call_target (inst_kind i) of
     NoCall \<Rightarrow> recurses fs orig is visited
   | CallsUnknown \<Rightarrow> Reject
   | Calls g \<Rightarrow>
       (if g = orig then Done True
        else if g \<in> set visited then recurses fs orig is visited
        else recurses fs orig (body_insts fs g @ is) (g # visited)))"
  by pat_completeness auto
termination
proof (relation "measures [\<lambda>(fs, orig, is, visited). card (mf_name ` set fs - set visited),
    \<lambda>(fs, orig, is, visited). length is]", goal_cases)
  case 1
  then show ?case by simp
next
  case (2 fs orig i "is" visited)
  then show ?case by simp
next
  case (3 fs orig i "is" visited g)
  then show ?case by simp
next
  case (4 fs orig i "is" visited g)
  show ?case
  proof (cases "g \<in> mf_name ` set fs")
    case True
    have "mf_name ` set fs - set (g # visited) \<subset> mf_name ` set fs - set visited"
      using True 4 by auto
    then have "card (mf_name ` set fs - set (g # visited)) < card (mf_name ` set fs - set visited)"
      by (intro psubset_card_mono) auto
    then show ?thesis by simp
  next
    case False
    then have "body_insts fs g = []"
      by (auto simp: body_insts_def find_Some_iff split: option.splits)
    moreover have "mf_name ` set fs - set (g # visited) = mf_name ` set fs - set visited"
      using False by auto
    ultimately show ?thesis by simp
  qed
qed

definition functionRecurses :: "mfunction list \<Rightarrow> string \<Rightarrow> bool compiled" where
  "functionRecurses fs f = recurses fs f (body_insts fs f) [f]"

text \<open>\<^verbatim>\<open>functionHasLoop\<close>; which blocks belong to a loop is what LLVM's loop analysis says.\<close>

definition functionHasLoop :: "(bfunction \<Rightarrow> nat \<Rightarrow> bool) \<Rightarrow> bfunction \<Rightarrow> bool" where
  "functionHasLoop getLoopFor f \<longleftrightarrow> list_ex (getLoopFor f) [0..<length (f_blocks f)]"

section \<open>Correctness\<close>

text \<open>The edges of the call graph.\<close>

definition call_edges :: "mfunction list \<Rightarrow> (string \<times> string) set" where
  "call_edges fs = {(f, g). \<exists>i \<in> set (body_insts fs f). call_target (inst_kind i) = Calls g}"

definition listed_calls :: "inst list \<Rightarrow> string set" where
  "listed_calls is = {g. \<exists>i \<in> set is. call_target (inst_kind i) = Calls g}"

text \<open>
  The invariant of the search: everything a visited function calls is visited too or still
  listed, and nothing visited calls the function without the call being listed.
\<close>

definition search_closed :: "mfunction list \<Rightarrow> string \<Rightarrow> inst list \<Rightarrow> string list \<Rightarrow> bool" where
  "search_closed fs orig is visited \<longleftrightarrow> orig \<in> set visited
     \<and> (\<forall>f \<in> set visited. \<forall>g. (f, g) \<in> call_edges fs
          \<longrightarrow> (g \<in> set visited \<and> g \<noteq> orig) \<or> g \<in> listed_calls is)"

lemma listed_calls_simps [simp]:
  "listed_calls [] = {}"
  "listed_calls (i # is) = (case call_target (inst_kind i) of Calls g \<Rightarrow> {g} | _ \<Rightarrow> {}) \<union> listed_calls is"
  "listed_calls (is @ js) = listed_calls is \<union> listed_calls js"
  by (auto simp: listed_calls_def split: target.splits)

lemma call_edges_listed: "(f, g) \<in> call_edges fs \<longleftrightarrow> g \<in> listed_calls (body_insts fs f)"
  by (simp add: call_edges_def listed_calls_def)

lemma search_finds:
  assumes "recurses fs orig is visited = Done True"
    and "\<forall>g \<in> listed_calls is. (orig, g) \<in> (call_edges fs)\<^sup>+"
  shows "(orig, orig) \<in> (call_edges fs)\<^sup>+"
  using assms
proof (induction fs orig "is" visited rule: recurses.induct)
  case (2 fs orig i "is" visited)
  show ?case
  proof (cases "call_target (inst_kind i)")
    case (Calls g)
    have g: "(orig, g) \<in> (call_edges fs)\<^sup>+" using 2(5) Calls by auto
    have new: "\<forall>h \<in> listed_calls (body_insts fs g @ is). (orig, h) \<in> (call_edges fs)\<^sup>+"
      using 2(5) Calls g by (auto simp: call_edges_listed intro: trancl_into_trancl)
    show ?thesis
    proof (cases "g = orig \<or> g \<in> set visited")
      case True
      then show ?thesis using 2 Calls g by (auto split: if_splits)
    next
      case False
      then show ?thesis using 2(3)[OF Calls _ _ _ new] 2(4) Calls by simp
    qed
  qed (use 2 in auto)
qed simp

lemma search_clean:
  assumes "recurses fs orig is visited = Done False" "search_closed fs orig is visited"
  shows "(orig, g) \<in> (call_edges fs)\<^sup>+ \<Longrightarrow> g \<noteq> orig"
  using assms
proof (induction fs orig "is" visited arbitrary: g rule: recurses.induct)
  case (1 fs orig visited)
  have "g \<in> set visited \<and> g \<noteq> orig"
    using 1(1) by (induction rule: trancl_induct) (use 1(3) in \<open>auto simp: search_closed_def\<close>)
  then show ?case by simp
next
  case (2 fs orig i "is" visited)
  show ?case
  proof (cases "call_target (inst_kind i)")
    case NoCall
    then have "search_closed fs orig is visited" using 2(6) by (simp add: search_closed_def)
    then show ?thesis using 2(1)[OF NoCall 2(4)] 2(5) NoCall by simp
  next
    case (Calls h)
    then have h: "h \<noteq> orig" using 2(5) by auto
    show ?thesis
    proof (cases "h \<in> set visited")
      case True
      then have "search_closed fs orig is visited"
        using 2(6) Calls h by (auto simp: search_closed_def)
      moreover have "recurses fs orig is visited = Done False" using 2(5) Calls h True by simp
      ultimately show ?thesis using 2(2)[OF Calls h True 2(4)] by blast
    next
      case False
      then have "search_closed fs orig (body_insts fs h @ is) (h # visited)"
        using 2(6) Calls h by (auto simp: search_closed_def call_edges_listed)
      moreover have "recurses fs orig (body_insts fs h @ is) (h # visited) = Done False"
        using 2(5) Calls h False by simp
      ultimately show ?thesis using 2(3)[OF Calls h False 2(4)] by blast
    qed
  next
    case CallsUnknown
    then show ?thesis using 2(5) by simp
  qed
qed

text \<open>The search stops the compiler only at a call of something unknown that can be reached.\<close>

definition reached_insts :: "mfunction list \<Rightarrow> string \<Rightarrow> inst set" where
  "reached_insts fs f = (\<Union>g \<in> {g. (f, g) \<in> (call_edges fs)\<^sup>*}. set (body_insts fs g))"

lemma search_stops:
  assumes "recurses fs orig is visited = r" "set is \<subseteq> reached_insts fs orig"
    and "\<forall>i \<in> reached_insts fs orig. call_target (inst_kind i) \<noteq> CallsUnknown"
  shows "\<exists>b. r = Done b"
  using assms
proof (induction fs orig "is" visited arbitrary: r rule: recurses.induct)
  case (2 fs orig i "is" visited)
  show ?case
  proof (cases "call_target (inst_kind i)")
    case (Calls g)
    obtain f where "(orig, f) \<in> (call_edges fs)\<^sup>*" "i \<in> set (body_insts fs f)"
      using 2(5) by (auto simp: reached_insts_def)
    then have "(orig, g) \<in> (call_edges fs)\<^sup>*"
      using Calls by (auto simp: call_edges_def intro: rtrancl_into_rtrancl)
    then have "set (body_insts fs g @ is) \<subseteq> reached_insts fs orig"
      using 2(5) by (auto simp: reached_insts_def)
    then show ?thesis using 2 Calls by auto
  qed (use 2 in auto)
qed auto

text \<open>
  C10: the search for recursion is right: it answers exactly whether the function can be
  reached from itself by calls, and it does answer when no call that can be reached goes
  through a pointer or inline assembly.
\<close>

theorem recursion_detected:
  assumes "\<forall>i \<in> reached_insts fs f. call_target (inst_kind i) \<noteq> CallsUnknown"
  shows "functionRecurses fs f = Done ((f, f) \<in> (call_edges fs)\<^sup>+)"
proof -
  let ?is = "body_insts fs f"
  have "set ?is \<subseteq> reached_insts fs f" by (auto simp: reached_insts_def)
  then obtain b where b: "recurses fs f ?is [f] = Done b"
    using search_stops[OF refl _ assms] by blast
  have "\<forall>g \<in> listed_calls ?is. (f, g) \<in> (call_edges fs)\<^sup>+"
    by (auto simp: call_edges_listed)
  then have "b \<Longrightarrow> (f, f) \<in> (call_edges fs)\<^sup>+" using search_finds[of fs f ?is "[f]"] b by simp
  moreover have "search_closed fs f ?is [f]" by (auto simp: search_closed_def call_edges_listed)
  then have "\<not> b \<Longrightarrow> (f, f) \<notin> (call_edges fs)\<^sup>+" using search_clean[of fs f ?is "[f]"] b by auto
  ultimately show ?thesis using b by (auto simp: functionRecurses_def)
qed

lemma body_insts_in:
  assumes "i \<in> set (body_insts fs g)"
  shows "\<exists>f \<in> set fs. i \<in> set (f_insts (mf_body f))"
proof (cases "find (\<lambda>f. mf_name f = g) fs")
  case None
  then show ?thesis using assms by (simp add: body_insts_def)
next
  case (Some f)
  then have "f \<in> set fs" by (auto simp: find_Some_iff intro: nth_mem)
  then show ?thesis using assms Some by (auto simp: body_insts_def)
qed

lemma reached_insts_listed:
  assumes "list_all (\<lambda>f. list_all P (f_insts (mf_body f))) fs"
  shows "\<forall>i \<in> reached_insts fs g. P i"
  using assms body_insts_in by (fastforce simp: reached_insts_def list_all_iff)

definition sample_function :: "string \<Rightarrow> string \<Rightarrow> mfunction" where
  "sample_function f g = \<lparr>mf_ty = FunTy VoidTy [] False, mf_isDeclaration = False, mf_unused = False,
     mf_body = \<lparr>f_name = f, f_args = [], f_ret = VoidTy, f_structRet = False,
       f_blocks = [[\<lparr>inst_id = 0, inst_ty = VoidTy, inst_kind = Call \<lparr>fn_name = g,
         fn_ty = FunTy VoidTy [] False, fn_isDeclaration = False, fn_isVarArg = False,
         fn_sameCallingConv = True, fn_intrinsic = None, fn_arg_size = 0\<rparr> []\<rparr>]]\<rparr>\<rparr>"

theorem recursion_detected_witness:
  "(''logical_trigger'', ''logical_trigger'') \<in> (call_edges
     [sample_function ''logical_trigger'' ''helper'', sample_function ''helper'' ''logical_trigger''])\<^sup>+
   \<and> (''main'', ''main'') \<notin> (call_edges [sample_function ''main'' ''helper'', sample_function ''helper'' ''helper''])\<^sup>+"
proof -
  let ?rec = "[sample_function ''logical_trigger'' ''helper'', sample_function ''helper'' ''logical_trigger'']"
  let ?no = "[sample_function ''main'' ''helper'', sample_function ''helper'' ''helper'']"
  have "\<forall>i \<in> reached_insts ?rec ''logical_trigger''. call_target (inst_kind i) \<noteq> CallsUnknown"
    "\<forall>i \<in> reached_insts ?no ''main''. call_target (inst_kind i) \<noteq> CallsUnknown"
    by (rule reached_insts_listed, code_simp)+
  moreover have "functionRecurses ?rec ''logical_trigger'' = Done True"
    "functionRecurses ?no ''main'' = Done False"
    by code_simp+
  ultimately show ?thesis
    using recursion_detected[of ?rec "''logical_trigger''"] recursion_detected[of ?no "''main''"] by simp
qed

end
