(* ===== verification/BC_LogicText.thy ===== *)
theory BC_LogicText
  imports BC_LogicNode
begin

text \<open>
  The text of a logical expression: \<^verbatim>\<open>node2String\<close> of
  \<^verbatim>\<open>libclambcc/ClamBCLogicalCompiler.cpp\<close>, and a reader of the notation that recovers the
  expression.
\<close>

section \<open>Printing\<close>

text \<open>
  The number of groups is threaded through; \<open>None\<close> is the assertion \<^verbatim>\<open>Invalid node kind\<close>.
\<close>

abbreviation num32 :: "uint32_t \<Rightarrow> string" where
  "num32 w \<equiv> decimal (unat w)"

fun node2String :: "LogicalNode \<Rightarrow> nat \<Rightarrow> (string \<times> nat) option"
  and nodes2String :: "string \<Rightarrow> LogicalNode list \<Rightarrow> nat \<Rightarrow> (string \<times> nat) option" where
  "node2String (LogicalNode k a b ns) groups = (case k of
      LOG_SUBSIGNATURE \<Rightarrow> Some (num32 a, groups)
    | LOG_AND \<Rightarrow> map_option (\<lambda>(s, g). (''('' @ s @ '')'', g)) (nodes2String ''&'' ns (groups + 1))
    | LOG_OR \<Rightarrow> map_option (\<lambda>(s, g). (''('' @ s @ '')'', g)) (nodes2String ''|'' ns (groups + 1))
    | LOG_EQ \<Rightarrow> (case ns of [] \<Rightarrow> None | n # _ \<Rightarrow> map_option (\<lambda>(s, g).
        (''('' @ s @ ''='' @ num32 a @ (if b = no_op then [] else '','' @ num32 b) @ '')'', g))
        (node2String n groups))
    | LOG_GT \<Rightarrow> (case ns of [] \<Rightarrow> None | n # _ \<Rightarrow> map_option (\<lambda>(s, g).
        (''('' @ s @ ''>'' @ num32 a @ '')'', g)) (node2String n (groups + 1)))
    | LOG_LT \<Rightarrow> (case ns of [] \<Rightarrow> None | n # _ \<Rightarrow> map_option (\<lambda>(s, g).
        (''('' @ s @ ''<'' @ num32 a @ '')'', g)) (node2String n (groups + 1)))
    | _ \<Rightarrow> (if k \<in> {LOG_ADDUNIQ, LOG_ADDSUM, LOG_ADDBOTH} then
        (case ns of
           [n] \<Rightarrow> node2String n groups
         | _ \<Rightarrow> map_option (\<lambda>(s, g). (''('' @ s @ '')'', g)) (nodes2String ''|'' ns (groups + 1)))
        else None))"
| "nodes2String sep [] groups = Some ([], groups)"
| "nodes2String sep (n # ns) groups = (case node2String n groups of
      None \<Rightarrow> None
    | Some (s, g) \<Rightarrow> (if ns = [] then Some (s, g)
        else map_option (\<lambda>(s', g'). (s @ sep @ s', g')) (nodes2String sep ns g)))"

section \<open>Reading\<close>

text \<open>
  What the notation expresses: a disjunction and a sum are both written as a group with bars.
\<close>

datatype lsig = Sub nat | Conj "lsig list" | Disj "lsig list"
  | Eq lsig nat "nat option" | Gt lsig nat | Lt lsig nat

fun lsig_of :: "LogicalNode \<Rightarrow> lsig" where
  "lsig_of (LogicalNode k a b ns) = (let ls = map lsig_of ns in case k of
      LOG_SUBSIGNATURE \<Rightarrow> Sub (unat a)
    | LOG_AND \<Rightarrow> Conj ls
    | LOG_EQ \<Rightarrow> Eq (hd ls) (unat a) (if b = no_op then None else Some (unat b))
    | LOG_GT \<Rightarrow> Gt (hd ls) (unat a)
    | LOG_LT \<Rightarrow> Lt (hd ls) (unat a)
    | LOG_OR \<Rightarrow> Disj ls
    | _ \<Rightarrow> if length ls = 1 then hd ls else Disj ls)"

definition read_number :: "string \<Rightarrow> nat \<times> string" where
  "read_number s = (decimal_value (takeWhile isdigit s), dropWhile isdigit s)"

text \<open>The end of a comparison: the second number, if there is one, and the closing bracket.\<close>

fun read_close :: "lsig \<Rightarrow> string \<Rightarrow> (lsig \<times> string) option" where
  "read_close e (c # s) = (if c = CHR '')'' then Some (e, s) else None)"
| "read_close e [] = None"

fun read_compare :: "char \<Rightarrow> lsig \<Rightarrow> string \<Rightarrow> (lsig \<times> string) option" where
  "read_compare op e s = (let (x, s1) = read_number s in
     if op = CHR ''>'' then read_close (Gt e x) s1
     else if op = CHR ''<'' then read_close (Lt e x) s1
     else case s1 of
       c # s2 \<Rightarrow> (if c = CHR '','' then (let (y, s3) = read_number s2 in read_close (Eq e x (Some y)) s3)
                 else read_close (Eq e x None) s1)
     | [] \<Rightarrow> None)"

fun read_lsig :: "nat \<Rightarrow> string \<Rightarrow> (lsig \<times> string) option"
  and read_rest :: "nat \<Rightarrow> char \<Rightarrow> lsig list \<Rightarrow> string \<Rightarrow> (lsig \<times> string) option" where
  "read_lsig 0 s = None"
| "read_lsig (Suc fuel) s = (case s of
      [] \<Rightarrow> None
    | c # s1 \<Rightarrow>
        (if isdigit c then (let (x, s2) = read_number s in Some (Sub x, s2))
         else if c = CHR ''('' then
           (case read_lsig fuel s1 of
              Some (e, op # s2) \<Rightarrow>
                (if op = CHR ''&'' \<or> op = CHR ''|'' then read_rest fuel op [e] (op # s2)
                 else if op = CHR ''='' \<or> op = CHR ''>'' \<or> op = CHR ''<'' then read_compare op e s2
                 else None)
            | _ \<Rightarrow> None)
         else None))"
| "read_rest 0 sep es s = None"
| "read_rest (Suc fuel) sep es s = (case s of
      [] \<Rightarrow> None
    | c # s1 \<Rightarrow>
        (if c = CHR '')'' then Some (if sep = CHR ''&'' then Conj es else Disj es, s1)
         else if c = sep then
           (case read_lsig fuel s1 of Some (e, s2) \<Rightarrow> read_rest fuel sep (es @ [e]) s2 | None \<Rightarrow> None)
         else None))"

text \<open>
  The nodes that have a text: connectives have at least two operands, which the constructors
  ensure, comparisons one, sums at least one.
\<close>

fun printable :: "LogicalNode \<Rightarrow> bool" where
  "printable (LogicalNode k a b ns) = (list_all printable ns \<and> (case k of
      LOG_SUBSIGNATURE \<Rightarrow> True
    | LOG_AND \<Rightarrow> 2 \<le> length ns
    | LOG_OR \<Rightarrow> 2 \<le> length ns
    | LOG_EQ \<Rightarrow> length ns = 1
    | LOG_GT \<Rightarrow> length ns = 1
    | LOG_LT \<Rightarrow> length ns = 1
    | LOG_ADDUNIQ \<Rightarrow> 1 \<le> length ns
    | LOG_ADDSUM \<Rightarrow> 1 \<le> length ns
    | LOG_ADDBOTH \<Rightarrow> 1 \<le> length ns
    | _ \<Rightarrow> False))"

section \<open>The text can be read back\<close>

lemma isdigit_special [simp]:
  "\<not> isdigit CHR ''(''" "\<not> isdigit CHR '')''" "\<not> isdigit CHR ''&''" "\<not> isdigit CHR ''|''"
  "\<not> isdigit CHR ''=''" "\<not> isdigit CHR ''>''" "\<not> isdigit CHR ''<''" "\<not> isdigit CHR '',''"
  by (simp_all add: isdigit_def)

lemma read_number_decimal:
  "rest = [] \<or> \<not> isdigit (hd rest) \<Longrightarrow> read_number (decimal n @ rest) = (n, rest)"
  by (simp add: read_number_def takeWhile_decimal)

lemma decimal_Cons: "\<exists>c s. decimal n = c # s \<and> isdigit c"
  using decimal_digits[of n] by (cases "decimal n") auto

definition stops :: "string \<Rightarrow> bool" where
  "stops rest \<longleftrightarrow> rest = [] \<or> \<not> isdigit (hd rest)"

lemma read_sub: "stops rest \<Longrightarrow> read_lsig (Suc fuel) (decimal n @ rest) = Some (Sub n, rest)"
  using decimal_Cons[of n] read_number_decimal[of rest n] by (auto simp: stops_def)

lemma read_compare_text:
  "read_compare CHR ''>'' e (decimal x @ '')'' @ rest) = Some (Gt e x, rest)"
  "read_compare CHR ''<'' e (decimal x @ '')'' @ rest) = Some (Lt e x, rest)"
  "read_compare CHR ''='' e (decimal x @ '')'' @ rest) = Some (Eq e x None, rest)"
  "read_compare CHR ''='' e (decimal x @ '','' @ decimal y @ '')'' @ rest) = Some (Eq e x (Some y), rest)"
  by (simp_all add: read_number_decimal)

text \<open>
  The fuel that reading an expression takes: one step per node, and one per operand of a group.
\<close>

fun depth :: "LogicalNode \<Rightarrow> nat" where
  "depth (LogicalNode k a b ns) = Suc (Suc (sum_list (map depth ns) + length ns))"

lemma depth_pos [simp]: "0 < depth n"
  by (cases n) simp

text \<open>What reading the text of one node gives, with enough fuel and a rest that ends numbers.\<close>

definition reads :: "LogicalNode \<Rightarrow> string \<Rightarrow> bool" where
  "reads n s \<longleftrightarrow> (\<forall>fuel rest. depth n \<le> fuel \<longrightarrow> stops rest \<longrightarrow>
     read_lsig fuel (s @ rest) = Some (lsig_of n, rest))"

lemma readsD: "reads n s \<Longrightarrow> depth n \<le> fuel \<Longrightarrow> stops rest \<Longrightarrow> read_lsig fuel (s @ rest) = Some (lsig_of n, rest)"
  by (simp add: reads_def)

fun join :: "string \<Rightarrow> string list \<Rightarrow> string" where
  "join sep [] = []"
| "join sep (s # ss) = (if ss = [] then s else s @ sep @ join sep ss)"

lemma stops_Cons [simp]: "stops (c # s) \<longleftrightarrow> \<not> isdigit c"
  by (simp add: stops_def)

text \<open>The operands of a group behind the first one.\<close>

lemma read_rest_text:
  assumes "list_all2 reads ns ss" "c = CHR ''&'' \<or> c = CHR ''|''"
  shows "sum_list (map depth ns) + length ns < fuel \<Longrightarrow>
    read_rest fuel c es (concat (map (\<lambda>s. c # s) ss) @ '')'' @ rest)
      = Some (if c = CHR ''&'' then Conj (es @ map lsig_of ns) else Disj (es @ map lsig_of ns), rest)"
  using assms(1)
proof (induction arbitrary: fuel es rule: list_all2_induct)
  case Nil
  then show ?case using assms(2) by (cases fuel) auto
next
  case (Cons n ns s ss)
  obtain k where k: "fuel = Suc k" using Cons.prems by (cases fuel) auto
  let ?tail = "concat (map (\<lambda>s. c # s) ss) @ '')'' @ rest"
  have "stops ?tail" using assms(2) by (cases ss) (auto simp: stops_def)
  then have "read_lsig k (s @ ?tail) = Some (lsig_of n, ?tail)"
    using readsD[OF Cons.hyps(1)] Cons.prems k by simp
  moreover have "read_rest k c (es @ [lsig_of n]) ?tail
      = Some (if c = CHR ''&'' then Conj (es @ lsig_of n # map lsig_of ns)
          else Disj (es @ lsig_of n # map lsig_of ns), rest)"
    using Cons.IH[of k "es @ [lsig_of n]"] Cons.prems k depth_pos[of n] by simp
  ultimately show ?case using assms(2) k by auto
qed

lemma join_concat: "ss \<noteq> [] \<Longrightarrow> join [c] ss = hd ss @ concat (map (\<lambda>s. c # s) (tl ss))"
proof (induction ss)
  case (Cons s ss)
  then show ?case by (cases ss) auto
qed simp

lemma read_group:
  assumes "list_all2 reads ns ss" "2 \<le> length ns" "c = CHR ''&'' \<or> c = CHR ''|''"
    and "Suc (sum_list (map depth ns) + length ns) \<le> fuel"
  shows "read_lsig fuel (''('' @ join [c] ss @ '')'' @ rest)
    = Some (if c = CHR ''&'' then Conj (map lsig_of ns) else Disj (map lsig_of ns), rest)"
proof -
  obtain n ms where ns: "ns = n # ms" "ms \<noteq> []" using assms(2) by (cases ns; cases "tl ns") auto
  then obtain s ts where ss: "ss = s # ts" "reads n s" "list_all2 reads ms ts" "ts \<noteq> []"
    using assms(1) by (auto simp: list_all2_Cons1)
  obtain k where k: "fuel = Suc k" using assms(4) by (cases fuel) auto
  let ?tail = "concat (map (\<lambda>s. c # s) ts) @ '')'' @ rest"
  obtain u where u: "?tail = c # u" using ss(4) by (cases ts) auto
  have "read_lsig k (s @ ?tail) = Some (lsig_of n, ?tail)"
    using readsD[OF ss(2)] assms(3,4) ns k u by auto
  moreover have "read_rest k c [lsig_of n] ?tail
      = Some (if c = CHR ''&'' then Conj (map lsig_of ns) else Disj (map lsig_of ns), rest)"
    using read_rest_text[OF ss(3) assms(3), of k "[lsig_of n]"] assms(4) ns k depth_pos[of n] by auto
  ultimately show ?thesis using assms(3) k ss(1) u join_concat[of ss c] by auto
qed

lemma nodes2String_join:
  "nodes2String sep ns g = Some (t, g') \<Longrightarrow>
   \<exists>ss. t = join sep ss \<and> list_all2 (\<lambda>n s. \<exists>g g'. node2String n g = Some (s, g')) ns ss"
proof (induction ns arbitrary: g t)
  case (Cons n ns)
  obtain s g1 where s: "node2String n g = Some (s, g1)" using Cons.prems by (auto split: option.splits)
  show ?case
  proof (cases "ns = []")
    case True
    then show ?thesis using Cons.prems s by (intro exI[of _ "[s]"]) auto
  next
    case False
    then obtain t' g2 where t': "nodes2String sep ns g1 = Some (t', g2)" "t = s @ sep @ t'"
      using Cons.prems s by auto
    from Cons.IH[of g1 t'] t' Cons.prems s False
    obtain ss where "t' = join sep ss" "list_all2 (\<lambda>n s. \<exists>g g'. node2String n g = Some (s, g')) ns ss"
      by auto
    then show ?thesis using False s t'(2) by (intro exI[of _ "s # ss"]) auto
  qed
qed auto

lemma nodes_read:
  assumes "nodes2String sep ns g = Some (t, g')"
    and "\<forall>n\<in>set ns. \<forall>g s g'. node2String n g = Some (s, g') \<longrightarrow> reads n s"
  shows "\<exists>ss. t = join sep ss \<and> list_all2 reads ns ss"
  using nodes2String_join[OF assms(1)] assms(2) by (blast intro: list.rel_mono_strong)

text \<open>A comparison, once its operand can be read.\<close>

lemma read_comparison:
  assumes "reads n s" "op = CHR ''='' \<or> op = CHR ''>'' \<or> op = CHR ''<''" "Suc (depth n) \<le> fuel"
  shows "read_lsig fuel (''('' @ s @ [op] @ t) = read_compare op (lsig_of n) t"
proof -
  obtain k where k: "fuel = Suc k" using assms(3) by (cases fuel) auto
  then show ?thesis using readsD[OF assms(1), of k "op # t"] assms(2,3) by auto
qed

lemma node2String_reads:
  "printable n \<Longrightarrow> node2String n g = Some (s, g') \<Longrightarrow> reads n s"
proof (induction n arbitrary: g s g' rule: printable.induct)
  case (1 k a b ns)
  have IH: "\<forall>n\<in>set ns. \<forall>g s g'. node2String n g = Some (s, g') \<longrightarrow> reads n s"
    using 1 by (auto simp: list_all_iff)
  have group: "reads (LogicalNode k a b ns) s"
    if T: "s = ''('' @ t @ '')''" "nodes2String [c] ns h = Some (t, h')" "2 \<le> length ns"
      "c = CHR ''&'' \<and> k = LOG_AND \<or> c = CHR ''|'' \<and> k \<in> {LOG_OR, LOG_ADDUNIQ, LOG_ADDSUM, LOG_ADDBOTH}"
    for t h h' c
  proof -
    obtain ss where "t = join [c] ss" "list_all2 reads ns ss" using nodes_read[OF T(2) IH] by blast
    then show ?thesis
      using T read_group[of ns ss c] by (auto simp: reads_def Let_def)
  qed
  consider "k \<in> {LOG_EQ, LOG_GT, LOG_LT}" | "k \<in> {LOG_AND, LOG_OR}"
    | "k \<in> {LOG_ADDUNIQ, LOG_ADDSUM, LOG_ADDBOTH}" "2 \<le> length ns"
    | n where "k \<in> {LOG_ADDUNIQ, LOG_ADDSUM, LOG_ADDBOTH}" "ns = [n]" | "k = LOG_SUBSIGNATURE"
    using 1(2) by (cases k; cases ns; cases "tl ns") auto
  then show ?case
  proof cases
    case 1
    then obtain n where n: "ns = [n]" using \<open>printable (LogicalNode k a b ns)\<close> by (cases ns) auto
    obtain t h h' where t: "node2String n h = Some (t, h')"
      "s = ''('' @ t @ ''='' @ num32 a @ (if b = no_op then [] else '','' @ num32 b) @ '')'' \<and> k = LOG_EQ
       \<or> s = ''('' @ t @ ''>'' @ num32 a @ '')'' \<and> k = LOG_GT
       \<or> s = ''('' @ t @ ''<'' @ num32 a @ '')'' \<and> k = LOG_LT"
      using 1 n \<open>node2String _ g = _\<close> by auto
    have "reads n t" using IH n t(1) by auto
    from read_comparison[OF this] show ?thesis
      using n t(2) read_compare_text by (auto simp: reads_def)
  next
    case 2
    then show ?thesis using group \<open>printable (LogicalNode k a b ns)\<close> \<open>node2String _ g = _\<close> by auto
  next
    case 3
    obtain x y zs where "ns = x # y # zs" using 3(2) by (cases ns; cases "tl ns") auto
    then show ?thesis using group 3 \<open>node2String _ g = _\<close> by auto
  next
    case (4 n)
    then have "node2String n g = Some (s, g')" using \<open>node2String _ g = _\<close> by auto
    then have "reads n s" using IH 4(2) by auto
    then show ?thesis using 4 by (auto simp: reads_def)
  next
    case 5
    then have "s = num32 a" using \<open>node2String _ g = _\<close> by simp
    moreover have "read_lsig fuel (num32 a @ rest) = Some (Sub (unat a), rest)"
      if "0 < fuel" "stops rest" for fuel rest
      using that read_sub[of rest "fuel - 1" "unat a"] by (simp del: read_lsig.simps)
    ultimately show ?thesis using 5 by (auto simp: reads_def)
  qed
qed

text \<open>
  Every expression that the constructors build out of counts and connectives can be printed,
  unless it is true or false as a whole.
\<close>

lemma node2String_defined: "printable n \<Longrightarrow> \<exists>s g'. node2String n g = Some (s, g')"
proof (induction n arbitrary: g rule: printable.induct)
  case (1 k a b ns)
  have IH: "\<forall>n\<in>set ns. \<forall>g. \<exists>s g'. node2String n g = Some (s, g')"
    using 1 by (auto simp: list_all_iff)
  have all: "\<exists>s g'. nodes2String sep ms g = Some (s, g')" if "set ms \<subseteq> set ns" for sep ms g
    using that
  proof (induction ms arbitrary: g)
    case (Cons m ms)
    obtain s h where "node2String m g = Some (s, h)" using Cons.prems IH by fastforce
    then show ?case using Cons.IH[of h] Cons.prems by auto
  qed simp
  have one: "\<exists>s g'. node2String n g = Some (s, g')" if "ns = n # ms" for n ms g
    using IH that by simp
  show ?case
    using 1(2) all[OF order_refl] one by (cases k; cases ns; cases "tl ns") (fastforce)+
qed


definition sample_expression :: LogicalNode where
  "sample_expression = LogicalNode LOG_AND no_op no_op
     [LogicalNode LOG_GT 2 no_op [getSubSig 0],
      LogicalNode LOG_EQ 3 no_op [LogicalNode LOG_ADDBOTH no_op no_op [getSubSig 1, getSubSig 12]]]"


end
