(* ===== verification/BC_LogicSig.thy ===== *)
theory BC_LogicSig
  imports BC_CallGraph BC_LogicText BC_Enums "HOL-Library.Char_ord" "HOL-Library.List_Lexorder"
begin

text \<open>
  The logical signature of a module: \<^verbatim>\<open>compileLogicalSignature\<close>,
  \<^verbatim>\<open>compileVirusNames\<close> and \<^verbatim>\<open>run\<close> of \<^verbatim>\<open>libclambcc/ClamBCLogicalCompiler.cpp\<close> with
  the checks they make on patterns, names and functionality levels.
\<close>

section \<open>Strings\<close>

text \<open>
  What the code takes from LLVM about strings: the string that a constant, or another value,
  points to among the global variables; the value of a string that is an unsigned decimal
  number as a whole; the variable and the pointer that stand for a new string.
\<close>

record strings =
  getConstantStringInfo :: "gvar list \<Rightarrow> konst \<Rightarrow> string option"
  getValueStringInfo :: "gvar list \<Rightarrow> val \<Rightarrow> string option"
  getAsInteger :: "string \<Rightarrow> nat option"
  CreateGlobalStringPtr :: "gvar list \<Rightarrow> string \<Rightarrow> gvar \<times> ty \<times> konst"

fun value_string :: "strings \<Rightarrow> gvar list \<Rightarrow> val \<Rightarrow> string option" where
  "value_string S gs (VConst t k) = getConstantStringInfo S gs k"
| "value_string S gs v = getValueStringInfo S gs v"

fun find_char :: "char \<Rightarrow> string \<Rightarrow> nat option" where
  "find_char c [] = None"
| "find_char c (d # s) = (if c = d then Some 0 else map_option Suc (find_char c s))"

fun has_sub :: "string \<Rightarrow> string \<Rightarrow> bool" where
  "has_sub t [] = (t = [])"
| "has_sub t (c # s) = (take (length t) (c # s) = t \<or> has_sub t s)"

definition startswith :: "string \<Rightarrow> string \<Rightarrow> bool" where
  "startswith s t \<longleftrightarrow> take (length t) s = t"

definition isalpha :: "char \<Rightarrow> bool" where
  "isalpha c \<longleftrightarrow> (CHR ''a'' \<le> c \<and> c \<le> CHR ''z'') \<or> (CHR ''A'' \<le> c \<and> c \<le> CHR ''Z'')"

definition isalnum :: "char \<Rightarrow> bool" where
  "isalnum c \<longleftrightarrow> isdigit c \<or> isalpha c"

definition tolower :: "char \<Rightarrow> char" where
  "tolower c = (if CHR ''A'' \<le> c \<and> c \<le> CHR ''Z'' then char_of (of_char c + (32 :: nat)) else c)"

section \<open>Patterns\<close>

text \<open>\<^verbatim>\<open>validateNDB\<close>: the offset in front of the colon, with its floating part.\<close>

definition floating_offset :: "strings \<Rightarrow> string \<Rightarrow> bool \<times> string" where
  "floating_offset S offset = (case find_char CHR '','' offset of
      None \<Rightarrow> (True, offset)
    | Some k \<Rightarrow> (if getAsInteger S (drop (k + 1) offset) = None then (False, offset)
                else (True, take k offset)))"

definition anchored_offset :: "strings \<Rightarrow> string \<Rightarrow> bool compiled" where
  "anchored_offset S offset = (case (find_char CHR ''+'' offset, find_char CHR ''-'' offset) of
      (None, None) \<Rightarrow> Done False
    | (n1, n2) \<Rightarrow>
        (let k = (case n1 of None \<Rightarrow> the n2 | Some i \<Rightarrow> (case n2 of None \<Rightarrow> i | Some j \<Rightarrow> min i j));
             anchor = take k offset; ok = (getAsInteger S (drop (k + 1) offset) \<noteq> None)
         in if startswith offset ''EOF-'' \<or> anchor = ''EP'' \<or> anchor = ''SL'' then Done ok
            else if anchor = [] then Crash
            else if hd anchor = CHR ''S'' then Done (ok \<and> getAsInteger S (tl anchor) \<noteq> None)
            else Done False))"

definition validate_offset :: "strings \<Rightarrow> string \<Rightarrow> string \<Rightarrow> bool compiled" where
  "validate_offset S s offset0 = (case floating_offset S offset0 of (ok, offset) \<Rightarrow>
     if offset = [] then Done False
     else if s ! 0 = CHR ''*'' then Done (ok \<and> s ! 1 = CHR '':'')
     else if isdigit (s ! 0) then Done (ok \<and> getAsInteger S offset \<noteq> None)
     else if offset \<noteq> ''VI'' then andthen (anchored_offset S offset) (\<lambda>v. Done (ok \<and> v))
     else Done ok)"

definition pattern_char :: "char \<Rightarrow> bool" where
  "pattern_char c \<longleftrightarrow> isdigit c \<or> (CHR ''a'' \<le> c \<and> c \<le> CHR ''f'') \<or> c \<in> set ''?*{}-()|![]BL''"

definition validateNDB :: "strings \<Rightarrow> string \<Rightarrow> bool compiled" where
  "validateNDB S str = (let s = takeWhile (\<lambda>c. c \<noteq> CHR 0x00) str in case find_char CHR '':'' s of
      None \<Rightarrow> Done (list_all pattern_char s)
    | Some p \<Rightarrow> andthen (validate_offset S s (take p s))
        (\<lambda>v. Done (v \<and> list_all pattern_char (drop (p + 1) s))))"

text \<open>The pattern is in lower case from its colon on, or as a whole when it has none.\<close>

definition lower_pattern :: "string \<Rightarrow> string" where
  "lower_pattern s = (let p = (case find_char CHR '':'' s of None \<Rightarrow> 0 | Some p \<Rightarrow> p)
     in take p s @ map tolower (drop p s))"

section \<open>Modules\<close>

text \<open>
  A module with what this pass changes beside its globals and functions: the variables and
  functions with internal linkage and the operands of the metadata nodes \<^verbatim>\<open>clambc.funcmin\<close> and
  \<^verbatim>\<open>clambc.funcmax\<close>. A variable with internal linkage is not found by its name.
\<close>

record lmodule = bmodule +
  m_internal :: "string list"
  m_funcmin :: "konst list"
  m_funcmax :: "konst list"

definition getFunction :: "lmodule \<Rightarrow> string \<Rightarrow> mfunction option" where
  "getFunction M name = find (\<lambda>f. mf_name f = name) (m_functions M)"

definition getGlobalVariable :: "lmodule \<Rightarrow> string \<Rightarrow> gvar option" where
  "getGlobalVariable M name = find (\<lambda>g. gv_name g = name \<and> name \<notin> set (m_internal M)) (m_globals M)"

definition make_internal :: "string \<Rightarrow> lmodule \<Rightarrow> lmodule" where
  "make_internal name M = M\<lparr>m_internal := name # m_internal M\<rparr>"

text \<open>The initialiser of a global variable, if it is there and definitive.\<close>

definition definitive :: "lmodule \<Rightarrow> string \<Rightarrow> konst option" where
  "definitive M name = Option.bind (getGlobalVariable M name) gv_init"

text \<open>The names in a constant, and those used by initialisers and instructions of a module.\<close>

fun konst_names :: "konst \<Rightarrow> string list" where
  "konst_names (KGlobal g) = [g]"
| "konst_names (KFunction g) = [g]"
| "konst_names (KExpr e t ks) = concat (map konst_names ks)"
| "konst_names (KArray ks) = concat (map konst_names ks)"
| "konst_names (KStruct ks) = concat (map konst_names ks)"
| "konst_names (KData ks) = concat (map konst_names ks)"
| "konst_names k = []"

fun val_names :: "val \<Rightarrow> string list" where
  "val_names (VConst t k) = konst_names k"
| "val_names v = []"

fun called_names :: "BC_IR.kind \<Rightarrow> string list" where
  "called_names (Call c as) = [fn_name c]"
| "called_names k = []"

definition inst_names :: "inst \<Rightarrow> string list" where
  "inst_names i = called_names (inst_kind i) @ concat (map val_names (operands (inst_kind i)))"

definition init_names :: "lmodule \<Rightarrow> string list" where
  "init_names M = concat (map (\<lambda>g. case gv_init g of None \<Rightarrow> [] | Some k \<Rightarrow> konst_names k) (m_globals M))"

definition module_insts :: "lmodule \<Rightarrow> inst list" where
  "module_insts M = concat (map (\<lambda>f. f_insts (mf_body f)) (m_functions M))"

definition use_empty :: "lmodule \<Rightarrow> string \<Rightarrow> bool" where
  "use_empty M name \<longleftrightarrow> name \<notin> set (init_names M) \<and> list_all (\<lambda>i. name \<notin> set (inst_names i)) (module_insts M)"

section \<open>Functionality levels\<close>

definition lib_level :: "string \<Rightarrow> uint32_t" where
  "lib_level s = (case enum_value lib_FunctionalityLevels s of Some v \<Rightarrow> word_of_int v | None \<Rightarrow> 0)"

definition lib_kind :: "string \<Rightarrow> uint32_t" where
  "lib_kind s = (case enum_value lib_BytecodeKind s of Some v \<Rightarrow> word_of_int v | None \<Rightarrow> 0)"

definition json_api_funcs :: "string list" where
  "json_api_funcs = [''json_is_active'', ''json_get_object'', ''json_get_type'',
     ''json_get_array_length'', ''json_get_array_idx'', ''json_get_string_length'',
     ''json_get_string'', ''json_get_boolean'', ''json_get_int'']"

definition hasJSONUsage :: "lmodule \<Rightarrow> bool" where
  "hasJSONUsage M \<longleftrightarrow> list_ex (\<lambda>n. case getFunction M n of
     None \<Rightarrow> False | Some f \<Rightarrow> mf_isDeclaration f) json_api_funcs"

text \<open>Every later requirement replaces the earlier ones; 0 is none.\<close>

definition min_required :: "lmodule \<Rightarrow> string \<Rightarrow> uint32_t \<Rightarrow> uint32_t" where
  "min_required M s knd =
    (let r1 = (if find_char CHR ''$'' s \<noteq> None \<or> has_sub ''VI'' s then lib_level ''FUNC_LEVEL_096_dev'' else 0);
         r2 = (if knd \<ge> lib_kind ''BC_PDF'' then lib_level ''FUNC_LEVEL_096_2'' else r1);
         r3 = (if knd \<ge> lib_kind ''BC_PE_ALL'' then lib_level ''FUNC_LEVEL_096_2_dev'' else r2);
         r4 = (if hasJSONUsage M then lib_level ''FUNC_LEVEL_098_5'' else r3)
     in if knd \<ge> lib_kind ''BC_PRECLASS'' then lib_level ''FUNC_LEVEL_098_7'' else r4)"

text \<open>The search for a comparison with a number that does not start with 0.\<close>

definition compares_count :: "string \<Rightarrow> bool" where
  "compares_count s \<longleftrightarrow> list_ex (\<lambda>p. s ! p \<in> set ''=><'' \<and> 1 \<le> p \<and> s ! (p - 1) \<notin> set ''><''
     \<and> p + 1 < length s \<and> s ! (p + 1) \<noteq> CHR ''0'') [0..<length s]"

definition min_recommended :: "string \<Rightarrow> uint32_t" where
  "min_recommended s =
    (let r = (if compares_count s then lib_level ''FUNC_LEVEL_096_2'' else 0)
     in if r < lib_level ''FUNC_LEVEL_096_4'' then lib_level ''FUNC_LEVEL_096_4'' else r)"

text \<open>\<^verbatim>\<open>checkMinimum\<close>: whether the level is accepted, and whether a warning is printed.\<close>

definition checkMinimum :: "lmodule \<Rightarrow> string \<Rightarrow> uint32_t \<Rightarrow> uint32_t \<Rightarrow> bool \<times> bool" where
  "checkMinimum M s mn knd =
    (\<not> (min_required M s knd \<noteq> 0 \<and> mn < min_required M s knd),
     min_recommended s \<noteq> 0 \<and> mn < min_recommended s)"

section \<open>The signature\<close>

text \<open>
  The global \<^verbatim>\<open>Signatures\<close> is replaced by \<^verbatim>\<open>_Signatures_\<close>, whose pointers to the patterns
  are 0, and all its uses with it.
\<close>

fun rename_konst :: "string \<Rightarrow> string \<Rightarrow> konst \<Rightarrow> konst" where
  "rename_konst a b (KGlobal g) = KGlobal (if g = a then b else g)"
| "rename_konst a b (KExpr e t ks) = KExpr e t (map (rename_konst a b) ks)"
| "rename_konst a b (KArray ks) = KArray (map (rename_konst a b) ks)"
| "rename_konst a b (KStruct ks) = KStruct (map (rename_konst a b) ks)"
| "rename_konst a b (KData ks) = KData (map (rename_konst a b) ks)"
| "rename_konst a b k = k"

fun rename_val :: "string \<Rightarrow> string \<Rightarrow> val \<Rightarrow> val" where
  "rename_val a b (VConst t k) = VConst t (rename_konst a b k)"
| "rename_val a b v = v"

definition rename_fun :: "string \<Rightarrow> string \<Rightarrow> bfunction \<Rightarrow> bfunction" where
  "rename_fun a b f = f\<lparr>f_blocks := map (map (\<lambda>i.
     i\<lparr>inst_kind := map_operands (rename_val a b) (inst_kind i)\<rparr>)) (f_blocks f)\<rparr>"

fun strip_pointers :: "konst list \<Rightarrow> konst list" where
  "strip_pointers (c # s # ks) = KInt 8 0 # s # strip_pointers ks"
| "strip_pointers ks = []"

definition new_signatures :: "gvar \<Rightarrow> konst list \<Rightarrow> gvar" where
  "new_signatures g ks = g\<lparr>gv_name := ''_Signatures_'',
     gv_ty := (case gv_ty g of StructTy n p (t1 # t2 # ts) \<Rightarrow>
         StructTy [] False (concat (replicate (length ks div 2) [IntTy 8, t2])) | t \<Rightarrow> t),
     gv_init := Some (KStruct (strip_pointers ks)), gv_isConstant := True\<rparr>"

definition put_global :: "gvar \<Rightarrow> gvar list \<Rightarrow> gvar list" where
  "put_global g gs = (if gv_name g \<in> gv_name ` set gs
     then map (\<lambda>h. if gv_name h = gv_name g then g else h) gs else gs @ [g])"

definition replace_signatures :: "gvar \<Rightarrow> konst list \<Rightarrow> lmodule \<Rightarrow> lmodule" where
  "replace_signatures g ks M = make_internal ''_Signatures_'' (M\<lparr>
     m_globals := put_global (new_signatures g ks)
       (map (\<lambda>h. h\<lparr>gv_init := map_option (rename_konst ''Signatures'' ''_Signatures_'') (gv_init h)\<rparr>)
         (filter (\<lambda>h. gv_name h \<noteq> ''Signatures'') (m_globals M))),
     m_functions := map (\<lambda>f. f\<lparr>mf_body := rename_fun ''Signatures'' ''_Signatures_'' (mf_body f)\<rparr>) (m_functions M)\<rparr>)"

text \<open>The number of a signature, and the loop over the pairs of a pattern and a signature.\<close>

fun signature_id :: "konst \<Rightarrow> nat compiled" where
  "signature_id (KZero t) = Done 0"
| "signature_id (KStruct (KInt w n # ks)) = Done (unat (of_nat n :: uint32_t))"
| "signature_id _ = Crash"

fun read_signatures :: "strings \<Rightarrow> gvar list \<Rightarrow> nat \<Rightarrow> konst list \<Rightarrow> string list \<Rightarrow> bool
    \<Rightarrow> (string list \<times> bool) compiled" where
  "read_signatures S gs n (c # s # ks) subs valid =
     andthen (signature_id s) (\<lambda>k.
       if k > n then Reject
       else case getConstantStringInfo S gs c of
         None \<Rightarrow> Reject
       | Some str \<Rightarrow> andthen (validateNDB S (lower_pattern str)) (\<lambda>v.
           if k \<ge> length subs then Crash
           else read_signatures S gs n ks (subs[k := lower_pattern str]) v))"
| "read_signatures S gs n ks subs valid = Done (subs, valid)"

definition attribute_char :: "char \<Rightarrow> bool" where
  "attribute_char c \<longleftrightarrow> isalnum c \<or> c \<in> set '':-,_''"

record attributes =
  a_target :: uint32_t
  a_min :: uint32_t
  a_max :: uint32_t
  a_icon1 :: string
  a_icon2 :: string
  a_container :: string

definition with_engine :: "attributes \<Rightarrow> bool" where
  "with_engine a \<longleftrightarrow> a_min a \<noteq> 0 \<or> a_max a \<noteq> 0 \<or> a_icon1 a \<noteq> [] \<or> a_icon2 a \<noteq> []"

definition engine_min :: "attributes \<Rightarrow> uint32_t" where
  "engine_min a = (if with_engine a \<and> a_min a = 0 then lib_level ''FUNC_LEVEL_096_4'' else a_min a)"

definition engine_max :: "attributes \<Rightarrow> uint32_t" where
  "engine_max a = (if a_max a = 0 then 255 else a_max a)"

definition attribute_text :: "attributes \<Rightarrow> string option \<Rightarrow> string" where
  "attribute_text a raw =
     (if with_engine a then ''Engine:'' @ num32 (engine_min a) @ ''-'' @ num32 (engine_max a) @ '','' else [])
   @ (if a_icon1 a \<noteq> [] then ''IconGroup1:'' @ a_icon1 a @ '','' else [])
   @ (if a_icon2 a \<noteq> [] then ''IconGroup2:'' @ a_icon2 a @ '','' else [])
   @ (if a_container a \<noteq> [] then ''Container:'' @ a_container a @ '','' else [])
   @ ''Target:'' @ num32 (a_target a)
   @ (case raw of None \<Rightarrow> [] | Some r \<Rightarrow> '','' @ r)"

definition signature_text :: "strings \<Rightarrow> attributes \<Rightarrow> string \<Rightarrow> LogicalNode \<Rightarrow> string list \<Rightarrow> lmodule
    \<Rightarrow> string compiled" where
  "signature_text S a vn node subs M = (case node2String node 0 of
       None \<Rightarrow> Crash
     | Some (expr, groups) \<Rightarrow>
         (let raw = Option.bind (definitive M ''__ldb_rawattrs'') (getConstantStringInfo S (m_globals M)) in
          if \<not> (case raw of None \<Rightarrow> True | Some r \<Rightarrow> list_all attribute_char r) then Reject
          else if groups > 64 then Reject
          else Done (vn @ '';'' @ attribute_text a raw @ '';'' @ expr @ concat (map (\<lambda>s. '';'' @ s) subs))))"

definition internal_attributes :: "strings \<Rightarrow> lmodule \<Rightarrow> lmodule" where
  "internal_attributes S M = (case Option.bind (definitive M ''__ldb_rawattrs'') (getConstantStringInfo S (m_globals M)) of
     None \<Rightarrow> M | Some r \<Rightarrow> make_internal ''__ldb_rawattrs'' M)"

definition compileLogicalSignature :: "llvm \<Rightarrow> strings \<Rightarrow> lmodule \<Rightarrow> bfunction \<Rightarrow> attributes \<Rightarrow> uint32_t
    \<Rightarrow> string \<Rightarrow> (string \<times> lmodule) compiled" where
  "compileLogicalSignature L S M0 f a knd vn = (case getGlobalVariable M0 ''Signatures'' of
     None \<Rightarrow> Crash
   | Some g \<Rightarrow> (case gv_init g of
       None \<Rightarrow> Reject
     | Some (KStruct ks) \<Rightarrow>
        (if odd (length ks) then Reject
         else let M = replace_signatures g ks M0 in
           andthen (read_signatures S (m_globals M) (length ks div 2) ks (replicate (length ks div 2) []) True)
           (\<lambda>(subs, valid).
           andthen (compile L (getGlobalVariable M match_counts \<noteq> None)
                     (rename_fun ''Signatures'' ''_Signatures_'' f)) (\<lambda>node.
             if LogicalNode.kind node = LOG_TRUE \<or> LogicalNode.kind node = LOG_FALSE \<or> \<not> valid then Reject
             else andthen (signature_text S a vn node subs M) (\<lambda>sig.
               if fst (checkMinimum M sig (engine_min a) knd)
               then Done (sig, make_internal (f_name f) (internal_attributes S M)) else Reject))))
     | Some _ \<Rightarrow> Crash))"

section \<open>Virus names\<close>

definition name_char :: "char \<Rightarrow> bool" where
  "name_char c \<longleftrightarrow> isalnum c \<or> c \<in> set ''_-.''"

definition validateVirusName :: "string \<Rightarrow> bool \<Rightarrow> bool" where
  "validateVirusName name suffix \<longleftrightarrow> list_all (\<lambda>c. \<not> (suffix \<and> c = CHR ''.'') \<and> name_char c) name"

definition isUnpacker :: "uint32_t \<Rightarrow> bool" where
  "isUnpacker knd \<longleftrightarrow> knd = lib_kind ''BC_PE_UNPACKER'' \<or> knd = lib_kind ''BC_ELF_UNPACKER''
     \<or> knd = lib_kind ''BC_MACHO_UNPACKER''"

text \<open>
  The loop over the declared suffixes: the names in the order of their declaration, and
  whether all of them are strings and valid. A part that is no string counts as empty, and
  empty parts are passed over.
\<close>

fun declared_names :: "strings \<Rightarrow> gvar list \<Rightarrow> konst list \<Rightarrow> string list \<times> bool" where
  "declared_names S gs [] = ([], True)"
| "declared_names S gs (c # ks) = (case declared_names S gs ks of (names, valid) \<Rightarrow>
     (case getConstantStringInfo S gs c of
        None \<Rightarrow> (names, False)
      | Some part \<Rightarrow> if part = [] then (names, valid)
                    else (part # names, valid \<and> validateVirusName part True)))"

fun comma_list :: "string list \<Rightarrow> string" where
  "comma_list [] = []"
| "comma_list [n] = n"
| "comma_list (n # ns) = n @ '','' @ comma_list ns"

definition names_text :: "string \<Rightarrow> konst list \<Rightarrow> string list \<Rightarrow> string" where
  "names_text prefix ks names = prefix @ (if ks \<noteq> [] then ''.{'' else ''{'') @ comma_list (sort names) @ ''}''"

text \<open>
  One call of \<^verbatim>\<open>setvirusname\<close>: the prefix is taken off the name and put back with a dot; the
  call gets a new string and its length. The result says whether the call is accepted.
\<close>

definition strip_prefix :: "string \<Rightarrow> string \<Rightarrow> string" where
  "strip_prefix prefix p = (if startswith p prefix then drop (length prefix) p else p)"

definition full_name :: "string \<Rightarrow> string \<Rightarrow> string" where
  "full_name prefix p = (if p = [] then prefix else prefix @ ''.'' @ p)"

definition setvirusname :: string where
  "setvirusname = ''setvirusname''"

definition check_call :: "strings \<Rightarrow> string \<Rightarrow> string list \<Rightarrow> gvar list \<Rightarrow> val list \<Rightarrow> (gvar \<times> val list) option" where
  "check_call S prefix names gs args =
     (if length args \<noteq> 2 then None
      else case value_string S gs (args ! 0) of
        None \<Rightarrow> None
      | Some param \<Rightarrow>
          (let p = strip_prefix prefix param in
           if p \<noteq> [] \<and> p \<notin> set names then None
           else let full = full_name prefix p in case CreateGlobalStringPtr S gs full of (g, t, k) \<Rightarrow>
             Some (g, [VConst t k, VConst (IntTy 32) (KInt 32 (nat (int (length full) mod 2 ^ 32)))])))"

fun passes_function :: "val \<Rightarrow> bool" where
  "passes_function (VConst t (KFunction g)) = (g = setvirusname)"
| "passes_function v = False"

fun uses_inside :: "val \<Rightarrow> bool" where
  "uses_inside (VConst t (KFunction g)) = False"
| "uses_inside v = (setvirusname \<in> set (val_names v))"

definition is_call :: "BC_IR.kind \<Rightarrow> bool" where
  "is_call k = (case k of Call c as \<Rightarrow> True | IndirectCall p as \<Rightarrow> True | InlineAsmCall t as \<Rightarrow> True | _ \<Rightarrow> False)"

text \<open>
  The users of \<^verbatim>\<open>setvirusname\<close>, instruction by instruction: a user that is not a call fails the
  cast, one that calls something else is refused, and the others are checked and rewritten.
\<close>

fun check_inst :: "strings \<Rightarrow> string \<Rightarrow> string list \<Rightarrow> gvar list \<Rightarrow> inst \<Rightarrow> (bool \<times> gvar list \<times> inst) compiled" where
  "check_inst S prefix names gs i =
     (if list_ex uses_inside (operands (inst_kind i)) then Crash
      else case inst_kind i of
        Call c args \<Rightarrow>
          (if fn_name c = setvirusname then
             (case check_call S prefix names gs args of
                None \<Rightarrow> Done (False, gs, i)
              | Some (g, args') \<Rightarrow> Done (True, gs @ [g], i\<lparr>inst_kind := Call c args'\<rparr>))
           else Done (\<not> list_ex passes_function args, gs, i))
      | k \<Rightarrow> (if \<not> list_ex passes_function (operands k) then Done (True, gs, i)
             else if is_call k then Done (False, gs, i) else Crash))"

fun check_insts :: "strings \<Rightarrow> string \<Rightarrow> string list \<Rightarrow> gvar list \<Rightarrow> inst list
    \<Rightarrow> (bool \<times> gvar list \<times> inst list) compiled" where
  "check_insts S prefix names gs [] = Done (True, gs, [])"
| "check_insts S prefix names gs (i # is) =
     andthen (check_inst S prefix names gs i) (\<lambda>(v, gs, i).
     andthen (check_insts S prefix names gs is) (\<lambda>(w, gs, is). Done (v \<and> w, gs, i # is)))"

fun check_blocks :: "strings \<Rightarrow> string \<Rightarrow> string list \<Rightarrow> gvar list \<Rightarrow> inst list list
    \<Rightarrow> (bool \<times> gvar list \<times> inst list list) compiled" where
  "check_blocks S prefix names gs [] = Done (True, gs, [])"
| "check_blocks S prefix names gs (b # bs) =
     andthen (check_insts S prefix names gs b) (\<lambda>(v, gs, b).
     andthen (check_blocks S prefix names gs bs) (\<lambda>(w, gs, bs). Done (v \<and> w, gs, b # bs)))"

fun check_functions :: "strings \<Rightarrow> string \<Rightarrow> string list \<Rightarrow> gvar list \<Rightarrow> mfunction list
    \<Rightarrow> (bool \<times> gvar list \<times> mfunction list) compiled" where
  "check_functions S prefix names gs [] = Done (True, gs, [])"
| "check_functions S prefix names gs (f # fs) =
     andthen (check_blocks S prefix names gs (f_blocks (mf_body f))) (\<lambda>(v, gs, bs).
     andthen (check_functions S prefix names gs fs) (\<lambda>(w, gs, fs).
       Done (v \<and> w, gs, f\<lparr>mf_body := (mf_body f)\<lparr>f_blocks := bs\<rparr>\<rparr> # fs)))"

definition erase_global :: "string \<Rightarrow> lmodule \<Rightarrow> lmodule" where
  "erase_global name M = M\<lparr>m_globals := filter (\<lambda>g. gv_name g \<noteq> name) (m_globals M)\<rparr>"

text \<open>
  \<^verbatim>\<open>compileVirusNames\<close>: whether the names are accepted, the text of the names and the module.
\<close>

definition check_virus_calls :: "strings \<Rightarrow> string \<Rightarrow> string list \<Rightarrow> lmodule \<Rightarrow> (bool \<times> lmodule) compiled" where
  "check_virus_calls S prefix names M =
     (if getFunction M setvirusname = None \<or> use_empty M setvirusname then Done (True, M)
      else if setvirusname \<in> set (init_names M) then Crash
      else andthen (check_functions S prefix names (m_globals M) (m_functions M)) (\<lambda>(v, gs, fs).
        Done (v, M\<lparr>m_globals := gs, m_functions := fs\<rparr>)))"

text \<open>The warning about a module that declares names and reports none.\<close>

definition warns_no_call :: "lmodule \<Rightarrow> uint32_t \<Rightarrow> bool" where
  "warns_no_call M knd \<longleftrightarrow> (getFunction M setvirusname = None \<or> use_empty M setvirusname) \<and> \<not> isUnpacker knd"

definition drop_prefix_variable :: "lmodule \<Rightarrow> lmodule" where
  "drop_prefix_variable M =
     (if use_empty M ''__clambc_virusname_prefix'' then erase_global ''__clambc_virusname_prefix'' M
      else make_internal ''__clambc_virusname_prefix'' M)"

definition compileVirusNames :: "strings \<Rightarrow> lmodule \<Rightarrow> (bool \<times> string \<times> lmodule) compiled" where
  "compileVirusNames S M = (case definitive M ''__clambc_virusname_prefix'' of
     None \<Rightarrow> Done (False, [], M)
   | Some _ \<Rightarrow> (case getConstantStringInfo S (m_globals M) (KGlobal ''__clambc_virusname_prefix'') of
       None \<Rightarrow> Done (False, [], M)
     | Some prefix \<Rightarrow>
        (if \<not> validateVirusName prefix False then Done (False, prefix, M)
         else case definitive M ''__clambc_virusnames'' of
           None \<Rightarrow> andthen (check_virus_calls S prefix [] (drop_prefix_variable M)) (\<lambda>(v, M). Done (v, prefix, M))
         | Some (KArray ks) \<Rightarrow>
            (case declared_names S (m_globals M) ks of (names, valid) \<Rightarrow>
               if \<not> valid then Done (False, names_text prefix ks names, M)
               else andthen (check_virus_calls S prefix names
                      (drop_prefix_variable (make_internal ''__clambc_virusnames'' M)))
                    (\<lambda>(v, M). Done (v, names_text prefix ks names, M)))
         | Some _ \<Rightarrow> Crash)))"

section \<open>The pass\<close>

text \<open>
  The outcome of \<^verbatim>\<open>run\<close>: \<open>Crash\<close> for a failed cast or assertion, \<open>Reject\<close> where the compiler
  exits, and otherwise whether the module may have changed, with the module.
\<close>

fun int_of_konst :: "konst \<Rightarrow> uint32_t compiled" where
  "int_of_konst (KInt w n) = Done (of_nat n)"
| "int_of_konst k = Crash"

definition BC_STARTUP :: uint32_t where
  "BC_STARTUP = lib_kind ''BC_STARTUP''"

definition read_kind :: "lmodule \<Rightarrow> uint32_t compiled" where
  "read_kind M = (case definitive M ''__clambc_kind'' of
     None \<Rightarrow> Done 0
   | Some k \<Rightarrow> andthen (int_of_konst k) (\<lambda>v. if v < 65536 then Done v else Crash))"

definition set_global_init :: "string \<Rightarrow> konst \<Rightarrow> lmodule \<Rightarrow> lmodule" where
  "set_global_init name k M = M\<lparr>m_globals := map (\<lambda>g. if gv_name g = name
     then g\<lparr>gv_init := Some k, gv_isConstant := True\<rparr> else g) (m_globals M)\<rparr>"

text \<open>A module with a trigger function and no kind becomes a logical one, of kind 256.\<close>

definition effective_kind :: "lmodule \<Rightarrow> (uint32_t \<times> lmodule) compiled" where
  "effective_kind M = andthen (read_kind M) (\<lambda>knd.
     if getFunction M ''logical_trigger'' \<noteq> None \<and> knd = 0 then
       (if getGlobalVariable M ''__clambc_kind'' = None then Crash
        else Done (256, set_global_init ''__clambc_kind'' (KInt 16 256) M))
     else Done (knd, M))"

definition trigger_checks :: "(bfunction \<Rightarrow> nat \<Rightarrow> bool) \<Rightarrow> lmodule \<Rightarrow> bool compiled" where
  "trigger_checks getLoopFor M = (case getFunction M ''logical_trigger'' of
     None \<Rightarrow> Done True
   | Some f \<Rightarrow> andthen (functionRecurses (m_functions M) ''logical_trigger'') (\<lambda>r.
       Done (\<not> functionHasLoop getLoopFor (mf_body f) \<and> \<not> r)))"

text \<open>The functionality levels: a level that is given is recorded and checked.\<close>

definition functionality_min :: "lmodule \<Rightarrow> (uint32_t \<times> lmodule) compiled" where
  "functionality_min M = (case definitive M ''__FuncMin'' of
     None \<Rightarrow> Done (lib_level ''FUNC_LEVEL_096_4'', M)
   | Some k \<Rightarrow> andthen (int_of_konst k) (\<lambda>v.
       if v < lib_level ''FUNC_LEVEL_096'' then Reject
       else Done (v, make_internal ''__FuncMin'' (M\<lparr>m_funcmin := m_funcmin M @ [k]\<rparr>))))"

definition functionality_max :: "uint32_t \<Rightarrow> lmodule \<Rightarrow> (uint32_t \<times> lmodule) compiled" where
  "functionality_max mn M = (case definitive M ''__FuncMax'' of
     None \<Rightarrow> Done (0, M)
   | Some k \<Rightarrow> andthen (int_of_konst k) (\<lambda>v.
       if v < lib_level ''FUNC_LEVEL_096'' \<or> v < mn then Reject
       else Done (v, make_internal ''__FuncMax'' (M\<lparr>m_funcmax := m_funcmax M @ [k]\<rparr>))))"

text \<open>
  An attribute that is a string constant: empty when there is no variable or no string in it.
  Reading the initialiser of a variable that has none fails an assertion; an initialiser that
  may be replaced at link time is none here.
\<close>

definition string_attribute :: "strings \<Rightarrow> string \<Rightarrow> (string \<Rightarrow> bool) \<Rightarrow> lmodule
    \<Rightarrow> (string \<times> bool \<times> lmodule) compiled" where
  "string_attribute S name ok M = (case getGlobalVariable M name of
     None \<Rightarrow> Done ([], True, M)
   | Some g \<Rightarrow> (case gv_init g of
       None \<Rightarrow> Crash
     | Some k \<Rightarrow> (case getConstantStringInfo S (m_globals M) k of
         None \<Rightarrow> Done ([], True, M)
       | Some s \<Rightarrow> Done (s, ok s, make_internal name M))))"

text \<open>
  The signature of a module with a trigger function. A failed check of an attribute is only
  acted upon after the signature is compiled; both end the compiler.
\<close>

definition logical_signature :: "llvm \<Rightarrow> strings \<Rightarrow> uint32_t \<Rightarrow> uint32_t \<Rightarrow> uint32_t \<Rightarrow> string \<Rightarrow> mfunction
    \<Rightarrow> lmodule \<Rightarrow> lmodule compiled" where
  "logical_signature L S knd mn mx vn f M0 =
     andthen (case definitive M0 ''__Target'' of
         None \<Rightarrow> Done (- 1, False, M0)
       | Some k \<Rightarrow> andthen (int_of_konst k) (\<lambda>v. Done (v, True, make_internal ''__Target'' M0))) (\<lambda>(target, v0, M0).
     andthen (string_attribute S ''__IconGroup1'' (\<lambda>s. validateVirusName s False) M0) (\<lambda>(icon1, v1, M1).
     andthen (string_attribute S ''__IconGroup2'' (\<lambda>s. validateVirusName s False) M1) (\<lambda>(icon2, v2, M2).
     andthen (string_attribute S ''__ldb_container'' (\<lambda>s. startswith s ''CL_TYPE_'') M2) (\<lambda>(container, v3, M3).
     andthen (compileLogicalSignature L S M3 (mf_body f)
         \<lparr>a_target = target, a_min = mn, a_max = mx, a_icon1 = icon1, a_icon2 = icon2, a_container = container\<rparr>
         knd vn) (\<lambda>(sig, M4).
       if \<not> (v0 \<and> v1 \<and> v2 \<and> v3) then Reject
       else let M5 = M4\<lparr>m_logicalSignature := sig\<rparr> in
         Done (if use_empty M5 ''logical_trigger''
               then M5\<lparr>m_functions := filter (\<lambda>f. mf_name f \<noteq> ''logical_trigger'') (m_functions M5)\<rparr>
               else M5))))))"

definition run :: "llvm \<Rightarrow> strings \<Rightarrow> (bfunction \<Rightarrow> nat \<Rightarrow> bool) \<Rightarrow> lmodule \<Rightarrow> (bool \<times> lmodule) compiled" where
  "run L S getLoopFor M =
     andthen (effective_kind M) (\<lambda>(knd, M).
     andthen (compileVirusNames S M) (\<lambda>(named, vn, M).
       if \<not> named \<and> (knd = 0 \<or> knd = BC_STARTUP) then Done (False, M)
       else andthen (trigger_checks getLoopFor M) (\<lambda>checked.
         if \<not> (named \<and> checked) then Reject
         else andthen (functionality_min (M\<lparr>m_virusnames := vn\<rparr>)) (\<lambda>(mn, M).
           andthen (functionality_max mn M) (\<lambda>(mx, M).
             case getFunction M ''logical_trigger'' of
               None \<Rightarrow> Done (True, M)
             | Some f \<Rightarrow> andthen (logical_signature L S knd mn mx vn f M) (\<lambda>M. Done (True, M)))))))"

end
