(* ===== verification/BC_LogicNames.thy ===== *)
theory BC_LogicNames
  imports BC_LogicSig
begin

text \<open>
  What \<^verbatim>\<open>compileVirusNames\<close> promises: every call of \<^verbatim>\<open>setvirusname\<close> that is left in the module
  reports a declared name in full, with its length. The documented form with prefix and
  suffix is refused.
\<close>

section \<open>New strings\<close>

text \<open>
  What the code relies on in LLVM: the pointer to a new string constant is read back as the
  string, however many variables are added to the module later.
\<close>

definition strings_laws :: "strings \<Rightarrow> bool" where
  "strings_laws S \<longleftrightarrow> (\<forall>gs s g t k hs. CreateGlobalStringPtr S gs s = (g, t, k) \<longrightarrow> CHR 0x00 \<notin> set s
     \<longrightarrow> getConstantStringInfo S (gs @ g # hs) k = Some s)"

definition virus_prefix :: "strings \<Rightarrow> lmodule \<Rightarrow> string option" where
  "virus_prefix S M = getConstantStringInfo S (m_globals M) (KGlobal ''__clambc_virusname_prefix'')"

definition virus_suffixes :: "strings \<Rightarrow> lmodule \<Rightarrow> string list" where
  "virus_suffixes S M = (case definitive M ''__clambc_virusnames'' of
     Some (KArray ks) \<Rightarrow> fst (declared_names S (m_globals M) ks) | _ \<Rightarrow> [])"

lemma name_char_not_nul: "name_char c \<Longrightarrow> c \<noteq> CHR 0x00"
  by (auto simp: name_char_def isalnum_def isdigit_def isalpha_def less_eq_char_def)

lemma valid_name_not_nul: "validateVirusName s b \<Longrightarrow> CHR 0x00 \<notin> set s"
  using name_char_not_nul by (auto simp: validateVirusName_def list_all_iff)

lemma declared_names_valid:
  "declared_names S gs ks = (names, True) \<Longrightarrow> n \<in> set names \<Longrightarrow> validateVirusName n True \<and> n \<noteq> []"
  by (induction ks arbitrary: names) (auto split: prod.splits option.splits if_splits)

lemma full_name_not_nul:
  assumes "validateVirusName prefix False" "\<forall>n \<in> set names. validateVirusName n True"
    and "p = [] \<or> p \<in> set names"
  shows "CHR 0x00 \<notin> set (full_name prefix p)"
  using assms valid_name_not_nul by (auto simp: full_name_def)

section \<open>The calls\<close>

text \<open>An instruction that reports only declared names: if it calls \<^verbatim>\<open>setvirusname\<close>, then with the
  full name and its length.\<close>

definition reports_declared :: "strings \<Rightarrow> string \<Rightarrow> string list \<Rightarrow> gvar list \<Rightarrow> inst \<Rightarrow> bool" where
  "reports_declared S prefix names gs i \<longleftrightarrow> (\<forall>c args. inst_kind i = Call c args \<and> fn_name c = setvirusname
     \<longrightarrow> (\<exists>t k p. args = [VConst t k, VConst (IntTy 32) (KInt 32 (nat (int (length (full_name prefix p)) mod 2 ^ 32)))]
          \<and> getConstantStringInfo S gs k = Some (full_name prefix p) \<and> (p = [] \<or> p \<in> set names)))"

definition sound_names :: "strings \<Rightarrow> string \<Rightarrow> string list \<Rightarrow> bool" where
  "sound_names S prefix names \<longleftrightarrow> strings_laws S \<and> validateVirusName prefix False
     \<and> (\<forall>n \<in> set names. validateVirusName n True)"

text \<open>The variables only grow, and what is reported stays when more of them are added.\<close>

definition extends :: "strings \<Rightarrow> string \<Rightarrow> string list \<Rightarrow> gvar list \<Rightarrow> gvar list \<Rightarrow> inst set \<Rightarrow> bool" where
  "extends S prefix names gs gs' is \<longleftrightarrow> (\<exists>hs. gs' = gs @ hs)
     \<and> (\<forall>i \<in> is. \<forall>hs. reports_declared S prefix names (gs' @ hs) i)"

lemma extends_refl: "extends S prefix names gs gs {}"
  by (simp add: extends_def)

lemma extends_trans:
  "extends S prefix names gs gs' is \<Longrightarrow> extends S prefix names gs' gs'' js
    \<Longrightarrow> extends S prefix names gs gs'' (is \<union> js)"
  by (auto simp: extends_def)

lemma check_call_reports:
  assumes "sound_names S prefix names" "check_call S prefix names gs args = Some (g, args')"
    and "inst_kind i = Call c args'"
  shows "reports_declared S prefix names ((gs @ [g]) @ hs) i"
proof -
  obtain param t k where p: "strip_prefix prefix param = [] \<or> strip_prefix prefix param \<in> set names"
    and c: "CreateGlobalStringPtr S gs (full_name prefix (strip_prefix prefix param)) = (g, t, k)"
    and a: "args' = [VConst t k, VConst (IntTy 32)
        (KInt 32 (nat (int (length (full_name prefix (strip_prefix prefix param))) mod 2 ^ 32)))]"
    using assms(2) by (auto simp: check_call_def Let_def split: if_splits option.splits prod.splits)
  have "CHR 0x00 \<notin> set (full_name prefix (strip_prefix prefix param))"
    using full_name_not_nul[OF _ _ p] assms(1) by (simp add: sound_names_def)
  then have "getConstantStringInfo S (gs @ g # hs) k = Some (full_name prefix (strip_prefix prefix param))"
    using assms(1) c unfolding sound_names_def strings_laws_def by blast
  then show ?thesis using assms(3) a p by (auto simp: reports_declared_def)
qed

lemma check_inst_extends:
  assumes "sound_names S prefix names" "check_inst S prefix names gs i = Done (True, gs', i')"
  shows "extends S prefix names gs gs' {i'}"
proof (cases "\<exists>c args. inst_kind i = Call c args \<and> fn_name c = setvirusname")
  case True
  then obtain c args where c: "inst_kind i = Call c args" "fn_name c = setvirusname" by blast
  then obtain g args' where "check_call S prefix names gs args = Some (g, args')"
      "gs' = gs @ [g]" "i' = i\<lparr>inst_kind := Call c args'\<rparr>"
    using assms(2) by (auto split: if_splits option.splits)
  then show ?thesis using check_call_reports[OF assms(1)] by (simp add: extends_def)
next
  case False
  then have "gs' = gs" "i' = i"
    using assms(2) by (auto split: if_splits option.splits BC_IR.kind.splits)
  then show ?thesis using False by (auto simp: extends_def reports_declared_def)
qed

lemma check_insts_extends:
  assumes "sound_names S prefix names" "check_insts S prefix names gs is = Done (True, gs', is')"
  shows "extends S prefix names gs gs' (set is')"
  using assms(2)
proof (induction "is" arbitrary: gs gs' is')
  case (Cons i "is")
  then obtain gs1 i' js where "check_inst S prefix names gs i = Done (True, gs1, i')"
      "check_insts S prefix names gs1 is = Done (True, gs', js)" "is' = i' # js"
    by (auto simp: andthen_Done simp del: check_inst.simps)
  then show ?case
    using extends_trans[OF check_inst_extends[OF assms(1)] Cons.IH] by simp
qed (simp add: extends_refl)

lemma check_blocks_extends:
  assumes "sound_names S prefix names" "check_blocks S prefix names gs bs = Done (True, gs', bs')"
  shows "extends S prefix names gs gs' (set (concat bs'))"
  using assms(2)
proof (induction bs arbitrary: gs gs' bs')
  case (Cons b bs)
  then obtain gs1 b' cs where "check_insts S prefix names gs b = Done (True, gs1, b')"
      "check_blocks S prefix names gs1 bs = Done (True, gs', cs)" "bs' = b' # cs"
    by (auto simp: andthen_Done)
  then show ?case
    using extends_trans[OF check_insts_extends[OF assms(1)] Cons.IH] by simp
qed (simp add: extends_refl)

lemma check_functions_extends:
  assumes "sound_names S prefix names" "check_functions S prefix names gs fs = Done (True, gs', fs')"
  shows "extends S prefix names gs gs' (set (concat (map (\<lambda>f. f_insts (mf_body f)) fs')))"
  using assms(2)
proof (induction fs arbitrary: gs gs' fs')
  case (Cons f fs)
  then obtain gs1 bs hs where "check_blocks S prefix names gs (f_blocks (mf_body f)) = Done (True, gs1, bs)"
      "check_functions S prefix names gs1 fs = Done (True, gs', hs)"
      "fs' = f\<lparr>mf_body := (mf_body f)\<lparr>f_blocks := bs\<rparr>\<rparr> # hs"
    by (auto simp: andthen_Done)
  then show ?case
    using extends_trans[OF check_blocks_extends[OF assms(1)] Cons.IH] by (simp add: f_insts_def)
qed (simp add: extends_refl)

section \<open>The module\<close>

definition calls_known :: "lmodule \<Rightarrow> bool" where
  "calls_known M \<longleftrightarrow> list_all (\<lambda>i. list_all (\<lambda>n. getFunction M n \<noteq> None) (called_names (inst_kind i))) (module_insts M)"

lemma no_call_reports:
  "setvirusname \<notin> set (called_names (inst_kind i)) \<Longrightarrow> reports_declared S prefix names gs i"
  by (auto simp: reports_declared_def)

lemma check_virus_calls_reports:
  assumes "sound_names S prefix names" "calls_known M" "check_virus_calls S prefix names M = Done (True, M')"
    and "i \<in> set (module_insts M')"
  shows "reports_declared S prefix names (m_globals M') i"
proof (cases "getFunction M setvirusname = None \<or> use_empty M setvirusname")
  case True
  then have "M' = M" using assms(3) by (auto simp: check_virus_calls_def)
  then have "setvirusname \<notin> set (called_names (inst_kind i))"
    using True assms(2,4) by (fastforce simp: calls_known_def use_empty_def inst_names_def list_all_iff)
  then show ?thesis by (rule no_call_reports)
next
  case False
  then obtain gs fs where c: "check_functions S prefix names (m_globals M) (m_functions M) = Done (True, gs, fs)"
    and m: "M\<lparr>m_globals := gs, m_functions := fs\<rparr> = M'"
    using assms(3) by (cases "check_functions S prefix names (m_globals M) (m_functions M)")
      (auto simp: check_virus_calls_def split: if_split_asm)
  then have "i \<in> set (concat (map (\<lambda>f. f_insts (mf_body f)) fs))" "m_globals M' = gs"
    using assms(4) unfolding m[symmetric] by (simp_all add: module_insts_def)
  then show ?thesis using check_functions_extends[OF assms(1) c]
    unfolding extends_def by (metis append_Nil2)
qed

lemma calls_known_cong:
  "m_functions M' = m_functions M \<Longrightarrow> calls_known M' = calls_known M"
  by (simp add: calls_known_def module_insts_def getFunction_def)

lemma drop_prefix_functions [simp]:
  "m_functions (drop_prefix_variable M) = m_functions M" "m_functions (make_internal n M) = m_functions M"
  by (simp_all add: drop_prefix_variable_def erase_global_def make_internal_def)

text \<open>The text of the names: the prefix, with the suffixes in braces when they are declared.\<close>

definition virus_text :: "lmodule \<Rightarrow> string \<Rightarrow> string list \<Rightarrow> string" where
  "virus_text M prefix names = (case definitive M ''__clambc_virusnames'' of
     Some (KArray ks) \<Rightarrow> names_text prefix ks names | _ \<Rightarrow> prefix)"

lemma compileVirusNames_accepts:
  assumes "compileVirusNames S M = Done (True, vn, M')"
  shows "\<exists>prefix N. virus_prefix S M = Some prefix \<and> validateVirusName prefix False
    \<and> (\<forall>n \<in> set (virus_suffixes S M). validateVirusName n True \<and> n \<noteq> [])
    \<and> vn = virus_text M prefix (virus_suffixes S M)
    \<and> check_virus_calls S prefix (virus_suffixes S M) N = Done (True, M') \<and> m_functions N = m_functions M"
proof -
  obtain prefix where p: "virus_prefix S M = Some prefix" "validateVirusName prefix False"
    using assms by (auto simp: compileVirusNames_def virus_prefix_def split: option.splits if_splits)
  show ?thesis
  proof (cases "definitive M ''__clambc_virusnames''")
    case None
    then have "check_virus_calls S prefix [] (drop_prefix_variable M) = Done (True, M')" "vn = prefix"
      using assms p by (auto simp: compileVirusNames_def virus_prefix_def andthen_Done split: option.splits)
    then show ?thesis using p None by (auto simp: virus_suffixes_def virus_text_def intro!: exI)
  next
    case (Some k)
    then obtain ks where k: "k = KArray ks"
      using assms p by (cases k) (auto simp: compileVirusNames_def virus_prefix_def split: option.splits)
    obtain names valid where n: "declared_names S (m_globals M) ks = (names, valid)" by fastforce
    then have v: "valid" "vn = names_text prefix ks names" "check_virus_calls S prefix names
        (drop_prefix_variable (make_internal ''__clambc_virusnames'' M)) = Done (True, M')"
      using Some k assms p
      by (auto simp: compileVirusNames_def virus_prefix_def andthen_Done split: option.splits if_splits)
    moreover have "virus_suffixes S M = names" "virus_text M prefix names = names_text prefix ks names"
      using Some k n by (simp_all add: virus_suffixes_def virus_text_def)
    moreover have "\<forall>m \<in> set names. validateVirusName m True \<and> m \<noteq> []"
      using declared_names_valid n v(1) by simp
    ultimately show ?thesis using p by (auto intro!: exI)
  qed
qed

text \<open>
  C9: when the names of a module are accepted, its prefix and its suffixes consist of allowed
  characters, the text of the names is made of them, and every call of \<^verbatim>\<open>setvirusname\<close> left in
  the module passes a constant string that is the prefix, alone or with a dot and a declared
  suffix, together with its length.
\<close>

theorem reported_names_declared:
  assumes "strings_laws S" "calls_known M" "compileVirusNames S M = Done (True, vn, M')"
  shows "\<exists>prefix. virus_prefix S M = Some prefix \<and> validateVirusName prefix False
    \<and> (\<forall>n \<in> set (virus_suffixes S M). validateVirusName n True \<and> n \<noteq> [])
    \<and> vn = virus_text M prefix (virus_suffixes S M)
    \<and> (\<forall>i \<in> set (module_insts M'). reports_declared S prefix (virus_suffixes S M) (m_globals M') i)"
proof -
  obtain prefix N where a: "virus_prefix S M = Some prefix" "validateVirusName prefix False"
    "\<forall>n \<in> set (virus_suffixes S M). validateVirusName n True \<and> n \<noteq> []"
    "vn = virus_text M prefix (virus_suffixes S M)"
    and c: "check_virus_calls S prefix (virus_suffixes S M) N = Done (True, M')" "m_functions N = m_functions M"
    using compileVirusNames_accepts[OF assms(3)] by (elim exE conjE) (rule that; assumption)
  have "sound_names S prefix (virus_suffixes S M)" using assms(1) a by (simp add: sound_names_def)
  moreover have "calls_known N" using assms(2) calls_known_cong[OF c(2)] by simp
  ultimately have "\<forall>i \<in> set (module_insts M'). reports_declared S prefix (virus_suffixes S M) (m_globals M') i"
    using check_virus_calls_reports[OF _ _ c(1)] by blast
  then show ?thesis using a by (intro exI[of _ prefix] conjI)
qed

section \<open>An instance of the parameters\<close>

text \<open>
  Strings as constant arrays behind variables with a name that is new: longer than all the
  others together.
\<close>

definition fresh_name :: "gvar list \<Rightarrow> string" where
  "fresh_name gs = replicate (Suc (sum_list (map (\<lambda>g. length (gv_name g)) gs))) CHR ''s''"

definition string_konst :: "string \<Rightarrow> konst" where
  "string_konst s = KData (map (\<lambda>c. KInt 8 (of_char c)) s)"

fun konst_string :: "konst \<Rightarrow> string option" where
  "konst_string (KData ks) = Some (takeWhile (\<lambda>c. c \<noteq> CHR 0x00)
     (map (\<lambda>k. case k of KInt w n \<Rightarrow> char_of n | _ \<Rightarrow> CHR 0x00) ks))"
| "konst_string k = None"

definition string_variable :: "string \<Rightarrow> string \<Rightarrow> gvar" where
  "string_variable name s = \<lparr>gv_name = name, gv_ty = ArrayTy (length s) (IntTy 8), gv_isConstant = True,
     gv_init = Some (string_konst s), gv_initUnused = True, gv_threadLocal = False, gv_hasSection = False\<rparr>"

fun pointed_string :: "gvar list \<Rightarrow> konst \<Rightarrow> string option" where
  "pointed_string gs (KGlobal n) =
     Option.bind (Option.bind (find (\<lambda>g. gv_name g = n) gs) gv_init) konst_string"
| "pointed_string gs k = None"

definition constant_strings :: strings where
  "constant_strings = \<lparr>getConstantStringInfo = pointed_string, getValueStringInfo = (\<lambda>gs v. None),
     getAsInteger = (\<lambda>s. if s \<noteq> [] \<and> list_all isdigit s then Some (decimal_value s) else None),
     CreateGlobalStringPtr = (\<lambda>gs s. (string_variable (fresh_name gs) s, PtrTy (IntTy 8), KGlobal (fresh_name gs)))\<rparr>"

lemma fresh_name_new: "g \<in> set gs \<Longrightarrow> gv_name g \<noteq> fresh_name gs"
proof -
  assume "g \<in> set gs"
  then have "length (gv_name g) \<le> sum_list (map (\<lambda>g. length (gv_name g)) gs)"
    by (intro member_le_sum_list) auto
  then show ?thesis by (auto simp: fresh_name_def)
qed

lemma konst_string_konst: "CHR 0x00 \<notin> set s \<Longrightarrow> konst_string (string_konst s) = Some s"
  by (auto simp: string_konst_def comp_def takeWhile_eq_all_conv)

lemma find_append_new: "\<forall>g \<in> set gs. \<not> P g \<Longrightarrow> P h \<Longrightarrow> find P (gs @ h # hs) = Some h"
  by (induction gs) auto

lemma constant_strings_laws: "strings_laws constant_strings"
proof -
  have "find (\<lambda>g. gv_name g = fresh_name gs) (gs @ string_variable (fresh_name gs) s # hs)
      = Some (string_variable (fresh_name gs) s)" for gs s hs
    using fresh_name_new by (intro find_append_new) (auto simp: string_variable_def)
  then show ?thesis
    by (auto simp: strings_laws_def constant_strings_def string_variable_def konst_string_konst)
qed

definition virus_call :: "string \<Rightarrow> inst" where
  "virus_call v = \<lparr>inst_id = 0, inst_ty = IntTy 32, inst_kind = Call \<lparr>fn_name = setvirusname,
     fn_ty = FunTy (IntTy 32) [PtrTy (IntTy 8), IntTy 32] False, fn_isDeclaration = True, fn_isVarArg = False,
     fn_sameCallingConv = True, fn_intrinsic = None, fn_arg_size = 2\<rparr>
     [VConst (PtrTy (IntTy 8)) (KGlobal v), VConst (IntTy 32) (KInt 32 0)]\<rparr>"

definition plain_function :: "string \<Rightarrow> inst list list \<Rightarrow> mfunction" where
  "plain_function f bs = \<lparr>mf_ty = FunTy (IntTy 32) [] False, mf_isDeclaration = (bs = []), mf_unused = False,
     mf_body = \<lparr>f_name = f, f_args = [], f_ret = IntTy 32, f_structRet = False, f_blocks = bs\<rparr>\<rparr>"

text \<open>A module with the prefix BC.Test and the suffix A, which reports the string \<open>s\<close>.\<close>

definition names_module :: "string \<Rightarrow> lmodule" where
  "names_module s = \<lparr>m_globals = [string_variable ''__clambc_virusname_prefix'' ''BC.Test'',
       (string_variable ''__clambc_virusnames'' [])\<lparr>gv_init := Some (KArray [KGlobal ''a''])\<rparr>,
       string_variable ''a'' ''A'', string_variable ''param'' s],
     m_functions = [plain_function setvirusname [], plain_function ''entrypoint'' [[virus_call ''param'']]],
     m_logicalSignature = [], m_virusnames = [], m_internal = [], m_funcmin = [], m_funcmax = []\<rparr>"

theorem reported_names_declared_witness:
  "\<exists>M'. compileVirusNames constant_strings (names_module ''A'') = Done (True, ''BC.Test.{A}'', M')
    \<and> virus_prefix constant_strings (names_module ''A'') = Some ''BC.Test''
    \<and> virus_suffixes constant_strings (names_module ''A'') = [''A'']
    \<and> module_insts M' \<noteq> []
    \<and> (\<forall>i \<in> set (module_insts M'). reports_declared constant_strings ''BC.Test'' [''A''] (m_globals M') i)"
proof -
  have "(case compileVirusNames constant_strings (names_module ''A'') of
      Done (v, vn, M') \<Rightarrow> v \<and> vn = ''BC.Test.{A}'' \<and> module_insts M' \<noteq> [] | _ \<Rightarrow> False)"
    by code_simp
  then obtain M' where c: "compileVirusNames constant_strings (names_module ''A'') = Done (True, ''BC.Test.{A}'', M')"
      "module_insts M' \<noteq> []"
    by (auto split: compiled.splits prod.splits)
  have p: "virus_prefix constant_strings (names_module ''A'') = Some ''BC.Test''"
    "virus_suffixes constant_strings (names_module ''A'') = [''A'']" by code_simp+
  have "calls_known (names_module ''A'')" by code_simp
  then show ?thesis using reported_names_declared[OF constant_strings_laws _ c(1)] c p by auto
qed

section \<open>The documented forms\<close>

text \<open>
  The comment of the code names three forms: prefix and suffix with a dot between them, the
  suffix, and nothing. The first is always refused, since the dot stays when the prefix is taken
  off and no suffix has a dot.
\<close>

theorem qualified_name_refused:
  assumes "value_string S gs (args ! 0) = Some (prefix @ ''.'' @ s)"
    and "\<forall>n \<in> set names. validateVirusName n True"
  shows "check_call S prefix names gs args = None"
proof -
  have "''.'' @ s \<notin> set names"
    using assms(2) by (auto simp: validateVirusName_def)
  moreover have "strip_prefix prefix (prefix @ ''.'' @ s) = ''.'' @ s"
    by (simp add: strip_prefix_def startswith_def)
  ultimately show ?thesis using assms(1) by (auto simp: check_call_def Let_def)
qed

theorem qualified_name_refused_witness:
  "check_call constant_strings ''BC.Test'' [''A''] [string_variable ''p'' ''BC.Test.A'']
     [VConst (PtrTy (IntTy 8)) (KGlobal ''p''), VConst (IntTy 32) (KInt 32 9)] = None"
proof (rule qualified_name_refused[where s = "''A''"])
  show "value_string constant_strings [string_variable ''p'' ''BC.Test.A'']
      ([VConst (PtrTy (IntTy 8)) (KGlobal ''p''), VConst (IntTy 32) (KInt 32 9)] ! 0) = Some (''BC.Test'' @ ''.'' @ ''A'')"
    by code_simp
  show "\<forall>n \<in> set [''A'']. validateVirusName n True" by code_simp
qed

end
