(* ===== verification/BC_LogicRoutes.thy ===== *)
theory BC_LogicRoutes
  imports BC_LogicCompile
begin

text \<open>
  The routes to a phi node: the enumeration of \<^verbatim>\<open>populateRoutes\<close> ends, meets every path
  that visits no block twice, and any two of its routes disagree on a branch, so that at most
  one of them can be taken.
\<close>

section \<open>The routes as a tree\<close>

text \<open>The same enumeration without the index into the vector of routes.\<close>

fun routes_from :: "bfunction \<Rightarrow> nat \<Rightarrow> nat \<Rightarrow> nat \<Rightarrow> route \<Rightarrow> route list" where
  "routes_from f stop 0 cur r = [r]"
| "routes_from f stop (Suc fuel) cur r =
     (if cur = stop \<or> cur \<in> set (map pBasicBlock r) then [r]
      else case getTerminator f cur of
        Some (CondBr c t e) \<Rightarrow>
          (let ts = routes_from f stop fuel t (r @ [LogicalPHIHelper cur True]);
               es = routes_from f stop fuel e (r @ [LogicalPHIHelper cur False])
           in hd ts # hd es # tl ts @ tl es)
      | Some (Br t) \<Rightarrow> routes_from f stop fuel t (r @ [LogicalPHIHelper cur True])
      | _ \<Rightarrow> [r])"

lemma routes_from_not_Nil [simp]: "routes_from f stop fuel cur r \<noteq> []"
  by (induction f stop fuel cur r rule: routes_from.induct)
    (auto simp: Let_def split: option.splits kind.splits)

lemma routes_from_cond:
  assumes "cur \<noteq> stop" "cur \<notin> set (map pBasicBlock r)" "getTerminator f cur = Some (CondBr c t e)"
  shows "set (routes_from f stop (Suc fuel) cur r)
    = set (routes_from f stop fuel t (r @ [LogicalPHIHelper cur True]))
      \<union> set (routes_from f stop fuel e (r @ [LogicalPHIHelper cur False]))"
proof -
  have set_hd_tl: "set xs = insert (hd xs) (set (tl xs))" if "xs \<noteq> []" for xs :: "route list"
    using that by (cases xs) auto
  show ?thesis
    using assms set_hd_tl[OF routes_from_not_Nil[of f stop fuel t "r @ [LogicalPHIHelper cur True]"]]
      set_hd_tl[OF routes_from_not_Nil[of f stop fuel e "r @ [LogicalPHIHelper cur False]"]]
    by (auto simp: Let_def)
qed

lemma getTerminator_bound: "getTerminator f b = Some k \<Longrightarrow> b < length (f_blocks f)"
  by (auto simp: getTerminator_def split: option.splits)

text \<open>A route names blocks of the function and no block twice.\<close>

definition route_ok :: "bfunction \<Rightarrow> route \<Rightarrow> bool" where
  "route_ok f r \<longleftrightarrow> distinct (map pBasicBlock r)
     \<and> set (map pBasicBlock r) \<subseteq> {..<length (f_blocks f)}"

lemma route_ok_Nil [simp]: "route_ok f []"
  by (simp add: route_ok_def)

lemma route_ok_extend:
  assumes "route_ok f r" "cur \<notin> set (map pBasicBlock r)" "getTerminator f cur = Some k"
  shows "route_ok f (r @ [LogicalPHIHelper cur d])" "length r < length (f_blocks f)"
proof -
  show *: "route_ok f (r @ [LogicalPHIHelper cur d])"
    using assms getTerminator_bound[of f cur] by (auto simp: route_ok_def)
  let ?bs = "map pBasicBlock (r @ [LogicalPHIHelper cur d])"
  have "length ?bs = card (set ?bs)" "set ?bs \<subseteq> {..<length (f_blocks f)}"
    using * distinct_card[of ?bs] by (auto simp: route_ok_def)
  then have "length ?bs \<le> length (f_blocks f)"
    using card_mono[of "{..<length (f_blocks f)}" "set ?bs"] by simp
  then show "length r < length (f_blocks f)" by simp
qed

text \<open>One conditional branch: both calls work on their own route and append behind the others.\<close>

lemma populateRoutes_cond:
  assumes idx: "idx < length routes" and r: "r = routes ! idx"
    and new: "cur \<noteq> stop" "cur \<notin> set (map pBasicBlock r)"
    and k: "getTerminator f cur = Some (CondBr c t e)"
    and IH: "\<And>b d xs j. j < length xs \<Longrightarrow> xs ! j = r @ [LogicalPHIHelper cur d] \<Longrightarrow>
      populateRoutes f stop fuel b xs j
        = (let R = routes_from f stop fuel b (r @ [LogicalPHIHelper cur d]) in Some (xs[j := hd R] @ tl R))"
  shows "populateRoutes f stop (Suc fuel) cur routes idx
    = (let R = routes_from f stop (Suc fuel) cur r in Some (routes[idx := hd R] @ tl R))"
proof -
  let ?t = "r @ [LogicalPHIHelper cur True]" and ?e = "r @ [LogicalPHIHelper cur False]"
  let ?Rt = "routes_from f stop fuel t ?t" and ?Re = "routes_from f stop fuel e ?e"
  let ?routes1 = "routes[idx := ?t] @ [?e]"
  let ?routes2 = "routes[idx := hd ?Rt] @ ?e # tl ?Rt"
  have "populateRoutes f stop fuel t ?routes1 idx = Some ?routes2"
    using IH[of idx ?routes1 True t] idx by (simp add: Let_def nth_append list_update_append)
  moreover have "populateRoutes f stop fuel e ?routes2 (length routes)
      = Some (routes[idx := hd ?Rt] @ hd ?Re # tl ?Rt @ tl ?Re)"
    using IH[of "length routes" ?routes2 False e] by (simp add: Let_def nth_append list_update_append)
  ultimately show ?thesis using new k by (simp add: Let_def flip: r)
qed

lemma populateRoutes_tree:
  "idx < length routes \<Longrightarrow> route_ok f (routes ! idx) \<Longrightarrow>
   length (f_blocks f) - length (routes ! idx) < fuel \<Longrightarrow>
   populateRoutes f stop fuel cur routes idx
     = (let R = routes_from f stop fuel cur (routes ! idx) in Some (routes[idx := hd R] @ tl R))"
proof (induction fuel arbitrary: cur routes idx)
  case (Suc fuel)
  let ?r = "routes ! idx"
  show ?case
  proof (cases "cur = stop \<or> cur \<in> set (map pBasicBlock ?r) \<or> getTerminator f cur = None")
    case False
    then have new: "cur \<noteq> stop" "cur \<notin> set (map pBasicBlock ?r)" by auto
    obtain k where k: "getTerminator f cur = Some k" using False by auto
    have IH: "populateRoutes f stop fuel b xs j
        = (let R = routes_from f stop fuel b (?r @ [LogicalPHIHelper cur d]) in Some (xs[j := hd R] @ tl R))"
      if "j < length xs" "xs ! j = ?r @ [LogicalPHIHelper cur d]" for b d xs j
      using that Suc route_ok_extend[OF Suc.prems(2) new(2) k] by simp
    show ?thesis
    proof (cases "(\<exists>c t e. k = CondBr c t e) \<or> (\<exists>t. k = Br t)")
      case True
      then show ?thesis
        using populateRoutes_cond[OF Suc.prems(1) refl new _ IH] IH[of idx _ True] Suc.prems(1) new k
        by (auto simp: Let_def)
    qed (use new k in \<open>cases k; auto simp: Let_def\<close>)
  qed (use Suc.prems(1) in \<open>auto simp: Let_def\<close>)
qed simp

section \<open>The enumeration ends\<close>

lemma populateRoutes_mono:
  "populateRoutes f stop fuel cur routes idx = Some R \<Longrightarrow> fuel \<le> fuel' \<Longrightarrow>
   populateRoutes f stop fuel' cur routes idx = Some R"
proof (induction fuel arbitrary: cur routes idx R fuel')
  case (Suc fuel)
  obtain n where n: "fuel' = Suc n" "fuel \<le> n" using Suc.prems(2) by (cases fuel') auto
  note IH = Suc.IH[OF _ n(2)]
  show ?case
  proof (cases "cur = stop \<or> cur \<in> set (map pBasicBlock (routes ! idx)) \<or> getTerminator f cur = None")
    case False
    then obtain k where k: "cur \<noteq> stop" "cur \<notin> set (map pBasicBlock (routes ! idx))"
      "getTerminator f cur = Some k" by auto
    then show ?thesis
      using Suc.prems(1) n(1) IH by (cases k) (auto simp: Let_def split: option.splits)
  qed (use Suc.prems(1) n(1) in \<open>auto simp del: set_map split: if_splits\<close>)
qed simp

text \<open>
  C23: \<^verbatim>\<open>populateRoutes\<close> always ends: no route can be longer than the number of blocks, so
  one unit of fuel more than that number is enough for every function, with loops or without,
  and more fuel does not change the result.
\<close>

theorem populateRoutes_terminates:
  assumes "length (f_blocks f) < fuel"
  shows "\<exists>routes. populateRoutes f stop fuel cur [[]] 0 = Some routes
    \<and> (\<forall>fuel'\<ge>fuel. populateRoutes f stop fuel' cur [[]] 0 = Some routes)"
proof -
  obtain routes where "populateRoutes f stop fuel cur [[]] 0 = Some routes"
    using populateRoutes_tree[of 0 "[[]]" f fuel stop cur] assms by (simp add: Let_def)
  then show ?thesis using populateRoutes_mono by blast
qed

text \<open>A block that branches to itself.\<close>

definition spin :: bfunction where
  "spin = \<lparr>f_name = ''spin'', f_args = [], f_ret = IntTy 1, f_structRet = False,
     f_blocks = [[\<lparr>inst_id = 0, inst_ty = VoidTy, inst_kind = Br 0\<rparr>]]\<rparr>"

theorem populateRoutes_terminates_witness:
  "\<exists>routes. populateRoutes spin 7 2 0 [[]] 0 = Some routes
    \<and> (\<forall>fuel'\<ge>2. populateRoutes spin 7 fuel' 0 [[]] 0 = Some routes)"
  by (rule populateRoutes_terminates) (simp add: spin_def)

section \<open>Which routes are found\<close>

lemma routes_from_extends:
  "r' \<in> set (routes_from f stop fuel cur r) \<Longrightarrow> set r \<subseteq> set r'"
proof (induction f stop fuel cur r rule: routes_from.induct)
  case (2 f stop fuel cur r)
  show ?case
  proof (cases "cur = stop \<or> cur \<in> set (map pBasicBlock r)")
    case False
    then have new: "cur \<noteq> stop" "cur \<notin> set (map pBasicBlock r)" by auto
    show ?thesis
    proof (cases "getTerminator f cur")
      case (Some k)
      then show ?thesis using 2 new routes_from_cond[OF new] by (cases k) fastforce+
    qed (use 2 new in simp)
  qed (use 2 in auto)
qed simp

text \<open>A path from a block to another, as the branches taken.\<close>

fun is_path :: "bfunction \<Rightarrow> nat \<Rightarrow> nat \<Rightarrow> route \<Rightarrow> bool" where
  "is_path f stop cur [] = (cur = stop)"
| "is_path f stop cur (h # p) = (cur \<noteq> stop \<and> pBasicBlock h = cur \<and> (case getTerminator f cur of
      Some (CondBr c t e) \<Rightarrow> is_path f stop (if isTrue h then t else e) p
    | Some (Br t) \<Rightarrow> isTrue h \<and> is_path f stop t p
    | _ \<Rightarrow> False))"

text \<open>The other direction of a conditional branch.\<close>

definition opposite :: "LogicalPHIHelper \<Rightarrow> LogicalPHIHelper" where
  "opposite h = LogicalPHIHelper (pBasicBlock h) (\<not> isTrue h)"

definition conditional :: "bfunction \<Rightarrow> LogicalPHIHelper \<Rightarrow> bool" where
  "conditional f h \<longleftrightarrow> getCondition f h \<noteq> None"

lemma routes_complete:
  "is_path f stop cur p \<Longrightarrow> distinct (map pBasicBlock (r @ p)) \<Longrightarrow> length p < fuel \<Longrightarrow>
   r @ p \<in> set (routes_from f stop fuel cur r)
   \<and> (\<forall>r'\<in>set (routes_from f stop fuel cur r).
        r' = r @ p \<or> (\<exists>h\<in>set p. conditional f h \<and> opposite h \<in> set r'))"
proof (induction p arbitrary: cur r fuel)
  case Nil
  then show ?case by (cases fuel) auto
next
  case (Cons h p)
  then obtain n where n: "fuel = Suc n" "length p < n" by (cases fuel) auto
  have new: "cur \<noteq> stop" "cur \<notin> set (map pBasicBlock r)" "pBasicBlock h = cur"
    using Cons.prems by auto
  have h: "h = LogicalPHIHelper cur (isTrue h)" using new by (cases h) auto
  obtain k where k: "getTerminator f cur = Some k" using Cons.prems(1) by (cases "getTerminator f cur") auto
  show ?case
  proof (cases k)
    case (Br t)
    then have "is_path f stop t p" "h = LogicalPHIHelper cur True" using Cons.prems(1) k h by auto
    then show ?thesis
      using Cons.IH[of t "r @ [h]" n] Cons.prems(2) n new k Br by auto
  next
    case (CondBr c t e)
    let ?b = "\<lambda>d. if d then t else e"
    have p: "is_path f stop (?b (isTrue h)) p" using Cons.prems(1) k CondBr by simp
    have cond: "conditional f h" using k CondBr new by (simp add: conditional_def getCondition_def)
    let ?R = "\<lambda>d. set (routes_from f stop n (?b d) (r @ [LogicalPHIHelper cur d]))"
    have R: "set (routes_from f stop fuel cur r) = ?R (isTrue h) \<union> ?R (\<not> isTrue h)"
      unfolding n(1) using routes_from_cond[OF new(1,2), of f c t e n] k CondBr by auto
    have "opposite h \<in> set r'" if "r' \<in> ?R (\<not> isTrue h)" for r'
      using routes_from_extends[OF that] by (simp add: opposite_def new)
    moreover have "r @ h # p \<in> ?R (isTrue h)
      \<and> (\<forall>r'\<in>?R (isTrue h). r' = r @ h # p \<or> (\<exists>g\<in>set p. conditional f g \<and> opposite g \<in> set r'))"
      using Cons.IH[OF p, of "r @ [h]" n] Cons.prems(2) n(2) h by simp
    ultimately show ?thesis using R cond by auto
  qed (use Cons.prems(1) k in auto)
qed

lemma path_route_ok: "is_path f stop cur p \<Longrightarrow> distinct (map pBasicBlock p) \<Longrightarrow> length p \<le> length (f_blocks f)"
proof -
  assume p: "is_path f stop cur p" "distinct (map pBasicBlock p)"
  have "set (map pBasicBlock p) \<subseteq> {..<length (f_blocks f)}"
    using p(1) by (induction f stop cur p rule: is_path.induct)
      (auto split: option.splits kind.splits if_splits dest!: getTerminator_bound)
  then have "card (set (map pBasicBlock p)) \<le> length (f_blocks f)"
    using card_mono[of "{..<length (f_blocks f)}"] by fastforce
  then show ?thesis using distinct_card[OF p(2)] by simp
qed

lemma populateRoutes_complete:
  assumes "populateRoutes f stop (Suc (length (f_blocks f))) 0 [[]] 0 = Some routes"
    and "is_path f stop 0 p" "distinct (map pBasicBlock p)"
  shows "p \<in> set routes"
    and "\<forall>r\<in>set routes. r = p \<or> (\<exists>h\<in>set p. conditional f h \<and> opposite h \<in> set r)"
proof -
  let ?R = "routes_from f stop (Suc (length (f_blocks f))) 0 []"
  have "routes = hd ?R # tl ?R"
    using populateRoutes_tree[of 0 "[[]]" f "Suc (length (f_blocks f))" stop 0] assms(1)
    by (simp add: Let_def del: routes_from.simps populateRoutes.simps)
  then have "routes = ?R" using hd_Cons_tl[OF routes_from_not_Nil] by metis
  then show "p \<in> set routes"
    "\<forall>r\<in>set routes. r = p \<or> (\<exists>h\<in>set p. conditional f h \<and> opposite h \<in> set r)"
    using routes_complete[OF assms(2), of "[]" "Suc (length (f_blocks f))"] assms(3)
      path_route_ok[OF assms(2,3)] by (auto simp del: routes_from.simps)
qed

end
