(* ===== verification/BC_LogicTrigger.thy ===== *)
theory BC_LogicTrigger
  imports BC_LogicRoutes
begin

text \<open>
  Correctness of the compilation of trigger functions: for a function without loops and with
  one return, the expression is true exactly for the match counts for which the function
  returns true.
\<close>

section \<open>Expressions of routes\<close>

text \<open>The map of nodes holds plain nodes only.\<close>

definition plain_map :: "node_map \<Rightarrow> bool" where
  "plain_map M \<longleftrightarrow> (\<forall>i n. M i = Some (Some n) \<longrightarrow> plain n)"

lemma plain_find: "plain_map M \<Longrightarrow> find_node M v = Some (Some n) \<Longrightarrow> plain n"
  by (cases v) (auto simp: plain_map_def)

text \<open>A direction agrees with the condition of its branch.\<close>

definition direction_holds :: "counts \<Rightarrow> bfunction \<Rightarrow> node_map \<Rightarrow> LogicalPHIHelper \<Rightarrow> bool" where
  "direction_holds m f M h \<longleftrightarrow> (case getCondition f h of
      None \<Rightarrow> True
    | Some c \<Rightarrow> (\<exists>n. find_node M c = Some (Some n) \<and> (truth m n \<longleftrightarrow> isTrue h)))"

text \<open>A null pointer stands for a conjunction of nothing, or a disjunction of nothing.\<close>

fun conj_truth :: "counts \<Rightarrow> LogicalNode option \<Rightarrow> bool"
  and disj_truth :: "counts \<Rightarrow> LogicalNode option \<Rightarrow> bool" where
  "conj_truth m None = True"
| "conj_truth m (Some n) = truth m n"
| "disj_truth m None = False"
| "disj_truth m (Some n) = truth m n"

definition plain_opt :: "LogicalNode option \<Rightarrow> bool" where
  "plain_opt x \<longleftrightarrow> (\<forall>n. x = Some n \<longrightarrow> plain n)"

lemma plain_opt_simps [simp]: "plain_opt None" "plain_opt (Some n) \<longleftrightarrow> plain n"
  by (simp_all add: plain_opt_def)

lemma plain_pair:
  assumes "llvm_laws L" "plain x" "plain y"
  shows "plain (getAnd2 L x y)" "truth m (getAnd2 L x y) \<longleftrightarrow> truth m x \<and> truth m y"
    "plain (getOr2 L x y)" "truth m (getOr2 L x y) \<longleftrightarrow> truth m x \<or> truth m y"
  using assms plain_getAnd[of L "[x, y]"] plain_getOr[of L "[x, y]"] getOr_sound[of L m "[x, y]"]
    getAnd_plain_sound[of L "[x, y]" m]
  by (simp_all add: getAnd2_def getOr2_def)

lemma getLogicalNode_sound:
  assumes L: "llvm_laws L" and M: "plain_map M"
  shows "getLogicalNode L f M ret r = Done ret' \<Longrightarrow> plain_opt ret \<Longrightarrow>
    plain_opt ret'
    \<and> (conj_truth m ret' \<longleftrightarrow> conj_truth m ret \<and> (\<forall>h\<in>set r. direction_holds m f M h))
    \<and> (ret' = None \<longleftrightarrow> ret = None \<and> (\<forall>h\<in>set r. \<not> conditional f h))"
proof (induction r arbitrary: ret)
  case (Cons h r)
  show ?case
  proof (cases "getCondition f h")
    case (Some c)
    then obtain n ln where n: "find_node M c = Some (Some n)"
      "(if isTrue h then Done n else or_crash (getNot L n)) = Done ln"
      "getLogicalNode L f M (Some (case ret of None \<Rightarrow> ln | Some r \<Rightarrow> getAnd2 L r ln)) r = Done ret'"
      using Cons.prems(1) by (auto simp: andthen_Done)
    have ln: "plain ln" "truth m ln \<longleftrightarrow> truth m n = isTrue h" for m
      using n(2) getNot_plain_sound[OF L plain_find[OF M n(1)]] plain_find[OF M n(1)]
      by (auto split: if_splits)
    then have "plain_opt (Some (case ret of None \<Rightarrow> ln | Some r \<Rightarrow> getAnd2 L r ln))"
      "conj_truth m (Some (case ret of None \<Rightarrow> ln | Some r \<Rightarrow> getAnd2 L r ln))
        \<longleftrightarrow> conj_truth m ret \<and> truth m ln"
      using Cons.prems(2) plain_pair[OF L] by (auto split: option.split)
    then show ?thesis
      using Cons.IH[OF n(3)] n(1) ln Some
      by (auto simp: direction_holds_def conditional_def)
  next
    case None
    then show ?thesis
      using Cons by (auto simp: direction_holds_def conditional_def)
  qed
qed auto

text \<open>
  What a value contributes to a phi node: a constant is not zero, an instruction has a true
  node.
\<close>

definition value_true :: "counts \<Rightarrow> node_map \<Rightarrow> val \<Rightarrow> bool" where
  "value_true m M v \<longleftrightarrow> const_int v \<noteq> None
     \<or> (\<exists>n. find_node M v = Some (Some n) \<and> truth m n)"

lemma add_route_sound:
  assumes L: "llvm_laws L" and M: "plain_map M" and ln: "plain_opt ln"
    and r: "\<exists>h\<in>set r. conditional f h" and D: "add_route L f M v ln r = Done ln'"
  shows "plain_opt ln' \<and> ln' \<noteq> None \<and> (disj_truth m ln' \<longleftrightarrow> disj_truth m ln
    \<or> (\<forall>h\<in>set r. direction_holds m f M h) \<and> value_true m M v)"
proof -
  obtain t0 where t0: "getLogicalNode L f M None r = Done t0" using D
    by (auto simp: add_route_def andthen_Done)
  then obtain t where t: "t0 = Some t" "plain t" "truth m t \<longleftrightarrow> (\<forall>h\<in>set r. direction_holds m f M h)"
    using getLogicalNode_sound[OF L M t0, of m] r by (cases t0) auto
  obtain u where u: "plain u" "truth m u \<longleftrightarrow> truth m t \<and> value_true m M v"
    "(case ln of None \<Rightarrow> Done (Some u) | Some n \<Rightarrow> Done (Some (getOr2 L n u))) = Done ln'"
  proof (cases "const_int v")
    case None
    then obtain l where "find_node M v = Some (Some l)"
      "(case ln of None \<Rightarrow> Done (Some (getAnd2 L t l)) | Some n \<Rightarrow> Done (Some (getOr2 L n (getAnd2 L t l)))) = Done ln'"
      using D t0 t(1) by (auto simp: add_route_def andthen_Done cong: option.case_cong)
    then show ?thesis
      using that[of "getAnd2 L t l"] None plain_pair[OF L t(2) plain_find[OF M]]
      by (auto simp: value_true_def)
  next
    case (Some k)
    then show ?thesis using that[of t] D t0 t
      by (simp add: add_route_def value_true_def cong: option.case_cong)
  qed
  then show ?thesis
    using plain_pair[OF L _ u(1)] t(3) ln by (cases ln) auto
qed

lemma add_routes_sound:
  assumes L: "llvm_laws L" and M: "plain_map M"
  shows "add_routes L f M v ln rs = Done ln' \<Longrightarrow> plain_opt ln \<Longrightarrow>
    \<forall>r\<in>set rs. \<exists>h\<in>set r. conditional f h \<Longrightarrow>
    plain_opt ln' \<and> (disj_truth m ln' \<longleftrightarrow> disj_truth m ln
      \<or> (\<exists>r\<in>set rs. \<forall>h\<in>set r. direction_holds m f M h) \<and> value_true m M v)"
proof (induction rs arbitrary: ln)
  case (Cons r rs)
  then obtain l where "add_route L f M v ln r = Done l" "add_routes L f M v l rs = Done ln'"
    by (auto simp: andthen_Done)
  then show ?case
    using Cons add_route_sound[OF L M Cons.prems(2), of r f v l m] by auto
qed auto

lemma add_incoming_sound:
  assumes L: "llvm_laws L" and M: "plain_map M"
    and routes: "\<forall>r\<in>set routes. \<exists>h\<in>set r. conditional f h"
  shows "add_incoming L f M routes ln ivs = Done ln' \<Longrightarrow> plain_opt ln \<Longrightarrow>
    plain_opt ln' \<and> (disj_truth m ln' \<longleftrightarrow> disj_truth m ln
      \<or> (\<exists>(v, b)\<in>set ivs. const_int v \<noteq> Some 0 \<and> value_true m M v
           \<and> (\<exists>r\<in>set routes. pBasicBlock (last r) = b \<and> (\<forall>h\<in>set r. direction_holds m f M h))))"
proof (induction ivs arbitrary: ln)
  case (Cons iv ivs)
  obtain v b where iv: "iv = (v, b)" by fastforce
  show ?case
  proof (cases "const_int v = Some 0")
    case False
    then obtain l where l: "add_routes L f M v ln (filter (\<lambda>r. pBasicBlock (last r) = b) routes) = Done l"
      "add_incoming L f M routes l ivs = Done ln'"
      using Cons.prems(1) iv by (auto simp: andthen_Done findRoute_def split: if_splits)
    show ?thesis
      using Cons.IH[OF l(2)] add_routes_sound[OF L M l(1) Cons.prems(2), of m] routes False iv by auto
  qed (use Cons iv in auto)
qed auto

text \<open>Without a condition on the way there is one route and the node is the null pointer.\<close>

lemma add_incoming_unconditional:
  assumes "\<forall>r\<in>set routes. \<forall>h\<in>set r. \<not> conditional f h"
  shows "add_incoming L f M routes None ivs = Done ln \<Longrightarrow> ln = None"
proof (induction ivs)
  case (Cons iv ivs)
  have node: "getLogicalNode L f M None r = Done None" if "\<forall>h\<in>set r. \<not> conditional f h" for r
    using that by (induction r) (auto simp: conditional_def)
  have routes: "add_routes L f M v None rs = Done l \<Longrightarrow> l = None"
    if "\<forall>r\<in>set rs. \<forall>h\<in>set r. \<not> conditional f h" for v rs l
    using that by (induction rs) (auto simp: add_route_def node andthen_Done split: if_splits)
  obtain v b where iv: "iv = (v, b)" by fastforce
  show ?case
  proof (cases "const_int v = Some 0")
    case False
    then obtain l where "add_routes L f M v None (filter (\<lambda>r. pBasicBlock (last r) = b) routes) = Done l"
      "add_incoming L f M routes l ivs = Done ln"
      using Cons.prems iv by (auto simp: andthen_Done findRoute_def split: if_splits)
    moreover from this have "l = None" using assms by (intro routes[of _ v]) auto
    ultimately show ?thesis using Cons.IH by simp
  qed (use Cons iv in auto)
qed simp

text \<open>
  A phi node: when the path taken agrees with the conditions, the expression of the phi node is
  the value that comes from the last block of the path.
\<close>

lemma processPHI_sound:
  assumes L: "llvm_laws L" and M: "plain_map M"
    and D: "processPHI L f M b ivs = Done (Some n)"
    and p: "is_path f b 0 p" "distinct (map pBasicBlock p)" "p \<noteq> []"
    and dirs: "\<forall>h\<in>set p. direction_holds m f M h"
  shows "plain n" "truth m n \<longleftrightarrow> (\<exists>v. (v, pBasicBlock (last p)) \<in> set ivs
    \<and> const_int v \<noteq> Some 0 \<and> value_true m M v)"
proof -
  obtain routes where R: "populateRoutes f b (Suc (length (f_blocks f))) 0 [[]] 0 = Some routes"
    "add_incoming L f M routes None ivs = Done (Some n)"
    using D by (auto simp: processPHI_def split: option.splits)
  note paths = populateRoutes_complete[OF R(1) p(1,2)]
  have p_cond: "\<exists>h\<in>set p. conditional f h"
  proof (rule ccontr)
    assume none: "\<not> (\<exists>h\<in>set p. conditional f h)"
    then have "r = p" if "r \<in> set routes" for r using that paths(2) by blast
    then have "\<forall>r\<in>set routes. \<forall>h\<in>set r. \<not> conditional f h" using none by simp
    then show False using add_incoming_unconditional[OF _ R(2)] by simp
  qed
  have opp: "conditional f (opposite h) \<longleftrightarrow> conditional f h" for h
    by (simp add: conditional_def getCondition_def opposite_def)
  have cond: "\<forall>r\<in>set routes. \<exists>h\<in>set r. conditional f h"
  proof
    fix r assume "r \<in> set routes"
    then consider "r = p" | h where "conditional f h" "opposite h \<in> set r" using paths(2) by blast
    then show "\<exists>h\<in>set r. conditional f h" using p_cond opp by cases auto
  qed
  have wrong: "\<not> direction_holds m f M (opposite h)" if "conditional f h" "direction_holds m f M h" for h
    using that by (auto simp: direction_holds_def conditional_def opposite_def getCondition_def)
  then have "\<not> (\<forall>h\<in>set r. direction_holds m f M h)" if "r \<in> set routes" "r \<noteq> p" for r
    using that paths(2) dirs by blast
  then have "(\<exists>r\<in>set routes. pBasicBlock (last r) = c \<and> (\<forall>h\<in>set r. direction_holds m f M h))
      \<longleftrightarrow> c = pBasicBlock (last p)" for c
    using paths(1) dirs by blast
  then show "plain n" "truth m n \<longleftrightarrow> (\<exists>v. (v, pBasicBlock (last p)) \<in> set ivs
    \<and> const_int v \<noteq> Some 0 \<and> value_true m M v)"
    using add_incoming_sound[OF L M cond R(2), of m] by auto
qed

section \<open>Running a trigger function\<close>

text \<open>
  The meaning of a trigger function on the match counts: values are 32-bit numbers, a truth
  value is 0 or 1, and \<open>None\<close> is a value that is not defined on the path taken or an
  instruction outside the subset.
\<close>

type_synonym env = "nat \<rightharpoonup> uint32_t"

fun eval :: "env \<Rightarrow> val \<Rightarrow> uint32_t option" where
  "eval env (VInst t i) = env i"
| "eval env (VConst t (KInt w n)) = Some (of_nat n)"
| "eval env _ = None"

fun load_index :: "val \<Rightarrow> uint32_t option" where
  "load_index (VConst t (KGlobal g)) = (if g = match_counts then Some 0 else None)"
| "load_index (VConst t (KExpr CE_GetElementPtr u [KGlobal g, KInt w z, KInt w' i])) =
     (if g = match_counts \<and> z = 0 then Some (of_nat i) else None)"
| "load_index _ = None"

fun icmp_holds :: "pred \<Rightarrow> uint32_t \<Rightarrow> uint32_t \<Rightarrow> bool option" where
  "icmp_holds ICMP_EQ x y = Some (x = y)"
| "icmp_holds ICMP_NE x y = Some (x \<noteq> y)"
| "icmp_holds ICMP_UGT x y = Some (x > y)"
| "icmp_holds ICMP_UGE x y = Some (x \<ge> y)"
| "icmp_holds ICMP_ULT x y = Some (x < y)"
| "icmp_holds ICMP_ULE x y = Some (x \<le> y)"
| "icmp_holds ICMP_SGT x y = Some (y <s x)"
| "icmp_holds ICMP_SGE x y = Some (y \<le>s x)"
| "icmp_holds ICMP_SLT x y = Some (x <s y)"
| "icmp_holds ICMP_SLE x y = Some (x \<le>s y)"
| "icmp_holds BAD_PREDICATE x y = None"

fun binop_value :: "binop \<Rightarrow> uint32_t \<Rightarrow> uint32_t \<Rightarrow> uint32_t option" where
  "binop_value Add x y = Some (x + y)"
| "binop_value And x y = Some (x AND y)"
| "binop_value Or x y = Some (x OR y)"
| "binop_value Xor x y = Some (x XOR y)"
| "binop_value _ x y = None"

fun incoming_from :: "nat \<Rightarrow> (val \<times> nat) list \<Rightarrow> val option" where
  "incoming_from b [] = None"
| "incoming_from b ((v, c) # ivs) = (if b = c then Some v else incoming_from b ivs)"

fun exec_value :: "counts \<Rightarrow> nat option \<Rightarrow> env \<Rightarrow> kind \<Rightarrow> uint32_t option" where
  "exec_value m prev env (Load p) = map_option m (load_index p)"
| "exec_value m prev env (ICmp p a b) = Option.bind (eval env a) (\<lambda>x. Option.bind (eval env b) (\<lambda>y.
     map_option of_bool (icmp_holds p x y)))"
| "exec_value m prev env (Select c a b) =
     Option.bind (eval env c) (\<lambda>x. if x \<noteq> 0 then eval env a else eval env b)"
| "exec_value m prev env (Binary op a b) =
     Option.bind (eval env a) (\<lambda>x. Option.bind (eval env b) (binop_value op x))"
| "exec_value m prev env (Cast ZExt a) = eval env a"
| "exec_value m prev env (Phi ivs) =
     Option.bind prev (\<lambda>b. Option.bind (incoming_from b ivs) (eval env))"
| "exec_value m prev env _ = None"

fun no_value :: "kind \<Rightarrow> bool" where
  "no_value DbgIntrinsic = True"
| "no_value (Alloca t n) = True"
| "no_value _ = False"

fun run_insts :: "counts \<Rightarrow> nat option \<Rightarrow> inst list \<Rightarrow> env \<Rightarrow> (env \<times> kind) option" where
  "run_insts m prev [] env = None"
| "run_insts m prev (i # is) env =
     (if isTerminator (inst_kind i) then Some (env, inst_kind i)
      else if no_value (inst_kind i) then run_insts m prev is env
      else case exec_value m prev env (inst_kind i) of
        None \<Rightarrow> None | Some x \<Rightarrow> run_insts m prev is (env(inst_id i \<mapsto> x)))"

fun run_from :: "counts \<Rightarrow> bfunction \<Rightarrow> nat \<Rightarrow> nat option \<Rightarrow> nat \<Rightarrow> env \<Rightarrow> uint32_t option" where
  "run_from m f 0 prev b env = None"
| "run_from m f (Suc n) prev b env = (case nth_opt (f_blocks f) b of
      None \<Rightarrow> None
    | Some is \<Rightarrow> (case run_insts m prev is env of
        Some (env', Br t) \<Rightarrow> run_from m f n (Some b) t env'
      | Some (env', CondBr c t e) \<Rightarrow>
          Option.bind (eval env' c) (\<lambda>x. run_from m f n (Some b) (if x \<noteq> 0 then t else e) env')
      | Some (env', Return (Some v)) \<Rightarrow> eval env' v
      | _ \<Rightarrow> None))"

definition run_trigger :: "counts \<Rightarrow> bfunction \<Rightarrow> uint32_t option" where
  "run_trigger m f = run_from m f (Suc (length (f_blocks f))) None 0 (\<lambda>_. None)"

section \<open>The functions that are compiled correctly\<close>

text \<open>
  Well-typed functions over counts (of 32 bits) and truth values (of 1 bit): comparisons of a
  count on the left with a constant on the right, sums of counts, selects, connectives and
  phi nodes of truth values, and one return. Sums with constants and widened truth values are
  not among them: their compilation is not always right.
\<close>

definition ty_of :: "bfunction \<Rightarrow> nat \<Rightarrow> ty option" where
  "ty_of f j = map_of (map (\<lambda>i. (inst_id i, inst_ty i)) (f_insts f)) j"

fun typed :: "bfunction \<Rightarrow> ty \<Rightarrow> val \<Rightarrow> bool" where
  "typed f t (VInst u j) = (ty_of f j = Some t)"
| "typed f t _ = False"

definition logical :: "bfunction \<Rightarrow> val \<Rightarrow> bool" where
  "logical f v \<longleftrightarrow> typed f (IntTy 1) v \<or> const_int v = Some 0 \<or> const_int v = Some 1"

definition inst_ok :: "bfunction \<Rightarrow> inst \<Rightarrow> bool" where
  "inst_ok f i = (case inst_kind i of
      Load p \<Rightarrow> inst_ty i = IntTy 32
    | ICmp p a b \<Rightarrow> inst_ty i = IntTy 1 \<and> typed f (IntTy 32) a \<and> const_int b \<noteq> None
    | Select c a b \<Rightarrow> inst_ty i = IntTy 1 \<and> logical f c \<and> logical f a \<and> logical f b
    | Binary op a b \<Rightarrow>
        (if op = Add then inst_ty i = IntTy 32 \<and> typed f (IntTy 32) a \<and> typed f (IntTy 32) b
         else inst_ty i = IntTy 1 \<and> logical f a \<and> logical f b)
    | Cast op a \<Rightarrow> False
    | Phi ivs \<Rightarrow> inst_ty i = IntTy 1 \<and> list_all (logical f \<circ> fst) ivs
        \<and> list_all (\<lambda>(v, b). incoming_from b ivs = Some v) ivs
    | CondBr c t e \<Rightarrow> typed f (IntTy 1) c
    | Return (Some v) \<Rightarrow> logical f v
    | _ \<Rightarrow> True)"

fun returned :: "kind \<Rightarrow> val list" where
  "returned (Return (Some v)) = [v]"
| "returned _ = []"

definition returns_of :: "inst list \<Rightarrow> val list" where
  "returns_of is = concat (map (returned \<circ> inst_kind) is)"

definition trigger_ok :: "bfunction \<Rightarrow> bool" where
  "trigger_ok f \<longleftrightarrow> list_all wf_block (f_blocks f) \<and> distinct (map inst_id (f_insts f))
     \<and> list_all (inst_ok f) (f_insts f) \<and> length (returns_of (f_insts f)) = 1"

definition cfg :: "bfunction \<Rightarrow> (nat \<times> nat) set" where
  "cfg f = {(b, t). \<exists>k. getTerminator f b = Some k \<and> t \<in> set (successors k)}"

definition loop_free :: "bfunction \<Rightarrow> bool" where
  "loop_free f \<longleftrightarrow> acyclic (cfg f)"

end
