(* ===== verification/BC_LogicCorrect.thy ===== *)
theory BC_LogicCorrect
  imports BC_LogicTrigger
begin

text \<open>
  The proof that trigger functions are compiled correctly: the node of an instruction depends
  only on entries of the map that never change, so every instruction can be read as an
  equation about the final map; a run of the function then keeps the values of the
  instructions equal to the meanings of their nodes.
\<close>

section \<open>Entries of the map never change\<close>

lemma find_mono: "M \<subseteq>\<^sub>m M' \<Longrightarrow> find_node M v = Some y \<Longrightarrow> find_node M' v = Some y"
  by (cases v) (auto simp: map_le_def dom_def)

lemma const_find: "const_int v = Some k \<Longrightarrow> find_node M v = None"
  by (cases v) auto

named_theorems node_mono \<open>a node computed from a map stays the same when the map grows\<close>

lemma processICmp_mono [node_mono]:
  "processICmp L M p a b = Done n \<Longrightarrow> M \<subseteq>\<^sub>m M' \<Longrightarrow> processICmp L M' p a b = Done n"
  by (auto simp: processICmp_def Let_def andthen_Done split_beta split: option.splits if_splits
      dest: find_mono)

lemma select_part_mono [node_mono]:
  "select_part L M c v = Done n \<Longrightarrow> M \<subseteq>\<^sub>m M' \<Longrightarrow> select_part L M' c v = Done n"
proof (cases "find_node M v")
  case None
  assume a: "select_part L M c v = Done n"
  then obtain k where "const_int v = Some k" using None by (auto simp: select_part_def split: option.splits)
  then show ?thesis using a None const_find[of v k] by (simp add: select_part_def)
qed (auto simp: select_part_def andthen_Done dest: find_mono)

lemma processSelect_mono [node_mono]:
  assumes "processSelect L M c t e = Done n" "M \<subseteq>\<^sub>m M'"
  shows "processSelect L M' c t e = Done n"
proof -
  have "\<exists>y. find_node M' v = Some y" if "find_node M v \<noteq> None" for v
    using that find_mono[OF assms(2)] by fastforce
  moreover have "find_node M c \<noteq> None" "find_node M t \<noteq> None \<or> find_node M e \<noteq> None"
    using assms(1) by (auto simp: processSelect_def split: if_splits)
  moreover have "find_node M c = Some (Some x) \<Longrightarrow> find_node M' c = Some (Some x)" for x
    using find_mono[OF assms(2)] by blast
  ultimately show ?thesis
    using assms(1) select_part_mono[OF _ assms(2)]
    by (auto simp: processSelect_def andthen_Done split: if_splits)
qed

lemma processAdd_mono [node_mono]:
  "processAdd M a b = Done n \<Longrightarrow> M \<subseteq>\<^sub>m M' \<Longrightarrow> processAdd M' a b = Done n"
  by (auto simp: processAdd_def andthen_Done split: option.splits if_splits dest: find_mono)

lemma processLogic_mono [node_mono]:
  "processLogic op M a b = Done n \<Longrightarrow> M \<subseteq>\<^sub>m M' \<Longrightarrow> processLogic op M' a b = Done n"
  by (auto simp: processLogic_def andthen_Done split: if_splits dest: find_mono)

lemma processXor_mono [node_mono]:
  "processXor L M a b = Done n \<Longrightarrow> M \<subseteq>\<^sub>m M' \<Longrightarrow> processXor L M' a b = Done n"
  by (auto simp: processXor_def andthen_Done split: if_splits dest: find_mono)

lemma processZExt_mono [node_mono]:
  "processZExt M t a = Done n \<Longrightarrow> M \<subseteq>\<^sub>m M' \<Longrightarrow> processZExt M' t a = Done n"
  by (auto simp: processZExt_def andthen_Done split: if_splits dest: find_mono)

lemma getLogicalNode_mono:
  "getLogicalNode L f M ret r = Done n \<Longrightarrow> M \<subseteq>\<^sub>m M' \<Longrightarrow> getLogicalNode L f M' ret r = Done n"
proof (induction r arbitrary: ret)
  case (Cons h r)
  then show ?case
    by (cases "getCondition f h"; cases "isTrue h") (fastforce simp: andthen_Done dest: find_mono)+
qed simp

lemma add_route_mono:
  "add_route L f M v ln r = Done n \<Longrightarrow> M \<subseteq>\<^sub>m M' \<Longrightarrow> add_route L f M' v ln r = Done n"
proof -
  assume a: "add_route L f M v ln r = Done n" "M \<subseteq>\<^sub>m M'"
  then obtain t where t: "getLogicalNode L f M None r = Done t" by (auto simp: add_route_def andthen_Done)
  show ?thesis
  proof (cases "const_int v")
    case None
    then obtain l where l: "find_node M v = Some (Some l)" using a t
      by (auto simp: add_route_def andthen_Done)
    show ?thesis
      using a(1) t getLogicalNode_mono[OF t a(2)] l find_mono[OF a(2) l] None
      by (simp add: add_route_def deref_def)
  next
    case (Some k)
    then show ?thesis using a(1) t getLogicalNode_mono[OF t a(2)] by (simp add: add_route_def)
  qed
qed

lemma add_routes_mono:
  "add_routes L f M v ln rs = Done n \<Longrightarrow> M \<subseteq>\<^sub>m M' \<Longrightarrow> add_routes L f M' v ln rs = Done n"
  by (induction rs arbitrary: ln) (auto simp: andthen_Done dest: add_route_mono)

lemma processPHI_mono [node_mono]:
  assumes "processPHI L f M b ivs = Done n" "M \<subseteq>\<^sub>m M'"
  shows "processPHI L f M' b ivs = Done n"
proof -
  have "add_incoming L f M routes ln ivs = Done n \<Longrightarrow> add_incoming L f M' routes ln ivs = Done n" for routes ln
  proof (induction ivs arbitrary: ln)
    case (Cons iv ivs)
    then show ?case
      by (cases iv) (auto simp: andthen_Done split: if_splits dest: add_routes_mono[OF _ assms(2)])
  qed simp
  then show ?thesis
    using assms(1) by (auto simp: processPHI_def simp del: populateRoutes.simps split: option.splits)
qed

lemma instruction_node_mono:
  assumes "instruction_node L f M b i = Done n" "M \<subseteq>\<^sub>m M'"
  shows "instruction_node L f M' b i = Done n"
proof (cases "inst_kind i")
  case (Binary op x y)
  then show ?thesis using assms by (cases op) (auto simp: andthen_Done dest: node_mono)
next
  case (Cast op x)
  then show ?thesis using assms by (cases op) (auto simp: andthen_Done dest: node_mono)
qed (use assms in \<open>auto simp: andthen_Done dest: node_mono\<close>)

section \<open>Nodes of the right form\<close>

abbreviation sum_node :: "LogicalNode \<Rightarrow> bool" where
  "sum_node n \<equiv> plain_count n \<and> kind n \<in> {LOG_SUBSIGNATURE, LOG_ADDSUM}"

definition good_map :: "bfunction \<Rightarrow> node_map \<Rightarrow> bool" where
  "good_map f M \<longleftrightarrow> (\<forall>i n. M i = Some (Some n) \<longrightarrow>
     plain n \<and> (ty_of f i = Some (IntTy 32) \<longrightarrow> sum_node n))"

lemma good_plain_map: "good_map f M \<Longrightarrow> plain_map M"
  by (auto simp: good_map_def plain_map_def)

lemma good_find:
  assumes "good_map f M" "find_node M v = Some (Some n)"
  shows "plain n" "typed f (IntTy 32) v \<Longrightarrow> sum_node n"
  using assms by (cases v; auto simp: good_map_def)+

lemma typed_find: "typed f t v \<Longrightarrow> const_int v = None \<and> \<not> isa_Constant v"
  by (cases v) auto

lemma processLoad_node: "processLoad p = Done n \<Longrightarrow> \<exists>j. n = getSubSig j"
  by (auto split: list.splits if_splits konst.splits elim!: processLoad.elims)

lemma sum_node_subsig: "sum_node (getSubSig j)"
  using plain_node(3) by (simp add: getSubSig_def)

lemma compare_node_sound:
  assumes L: "llvm_laws L" and c: "plain_count c" and D: "compare_node L p c v = Done n"
  shows "plain n" "icmp_holds p (num m c) v = Some (truth m n)"
proof -
  have ge: "v \<noteq> 0 \<Longrightarrow> num m c > v - 1 \<longleftrightarrow> num m c \<ge> v" by unat_arith
  have le: "v \<noteq> - 1 \<Longrightarrow> num m c < v + 1 \<longleftrightarrow> num m c \<le> v"
    using region_ugt(1)[of v "- 1" 0] inc_le[of v "num m c"]
    by (auto simp: word_order.not_eq_extremum not_less[symmetric] intro: order_le_less_trans)
  note N = getNot_plain_sound[OF L plain_comparisons(1)[OF c]]
  show "plain n"
    using D N plain_comparisons[OF c] by (cases p) (auto simp: compare_node_def split: if_splits)
  show "icmp_holds p (num m c) v = Some (truth m n)"
    using D N plain_comparisons_sound[OF c] ge le
    by (cases p) (auto simp: compare_node_def split: if_splits)
qed

lemma getAdd_sum_node:
  assumes "sum_node l" "sum_node r" "getAdd l r = SumNode n"
  shows "sum_node n" "num m n = num m l + num m r"
proof -
  show "num m n = num m l + num m r" using getAdd_sound[OF assms(3)] assms(1,2) by auto
  show "sum_node n"
  proof -
    let ?parts = "\<lambda>x. if kind x = LOG_SUBSIGNATURE then [x] else children x"
    have parts: "?parts x \<noteq> [] \<and> (\<forall>c\<in>set (?parts x). kind c = LOG_SUBSIGNATURE \<and> children c = [])"
      if "sum_node x" for x using that by (auto simp: plain_count_def list_all_iff)
    define X where "X = (if kind r = LOG_SUBSIGNATURE then
        (if kind l = LOG_SUBSIGNATURE then [l, r] else r # children l)
      else if kind l = LOG_SUBSIGNATURE then l # children r else children l @ children r)"
    have X: "set X = set (?parts l) \<union> set (?parts r)" by (auto simp: X_def)
    have n: "n = LogicalNode LOG_ADDSUM no_op no_op (sort_nodes X)"
      using assms(1,2) assms(3)[unfolded getAdd.simps[of l r]]
      by (simp add: X_def swap_subsig_def split: if_splits) auto
    have "\<forall>c\<in>set X. kind c = LOG_SUBSIGNATURE \<and> children c = []"
      using parts[OF assms(1)] parts[OF assms(2)] unfolding X by blast
    moreover have "X \<noteq> []" using parts[OF assms(1)] X by (metis Un_empty set_empty)
    ultimately show ?thesis by (simp add: n plain_count_def list_all_iff)
  qed
qed

lemma processSelect_parts:
  assumes "processSelect L M c x y = Done n"
  obtains cond notcond n1 n2 where "find_node M c = Some (Some cond)" "getNot L cond = Some notcond"
    "select_part L M cond x = Done n1" "select_part L M notcond y = Done n2"
    "n1 \<noteq> None \<or> n2 \<noteq> None"
    "n = (case (n1, n2) of (Some a, Some b) \<Rightarrow> getOr2 L a b | (Some a, None) \<Rightarrow> a | (None, Some b) \<Rightarrow> b
       | (None, None) \<Rightarrow> n)"
  using assms that
  by (auto simp: processSelect_def andthen_Done split: if_splits option.splits)

lemma select_part_plain:
  assumes "llvm_laws L" "good_map f M" "plain c" "select_part L M c v = Done n"
  shows "plain_opt n"
  using assms(4) plain_pair(1)[OF assms(1,3)] good_find(1)[OF assms(2)] assms(3)
  by (auto simp: select_part_def andthen_Done split: option.splits if_splits)

lemma add_incoming_plain:
  assumes L: "llvm_laws L" and M: "plain_map M"
  shows "add_incoming L f M routes ln ivs = Done ln' \<Longrightarrow> plain_opt ln \<Longrightarrow> plain_opt ln'"
proof (induction ivs arbitrary: ln)
  case (Cons iv ivs)
  have one: "plain_opt l'" if D: "add_route L f M v l r = Done l'" and l: "plain_opt l" for v l r l'
  proof -
    obtain t where t: "getLogicalNode L f M None r = Done t"
      using D by (auto simp: add_route_def andthen_Done)
    moreover have "plain_opt t" using getLogicalNode_sound[OF L M t] by simp
    ultimately show ?thesis
      using D l plain_pair(1,3)[OF L] plain_find[OF M]
      by (cases t; cases l) (auto simp: add_route_def andthen_Done split: if_splits option.splits)
  qed
  have all: "plain_opt l'" if "add_routes L f M v l rs = Done l'" "plain_opt l" for v l rs l'
    using that by (induction rs arbitrary: l) (auto simp: andthen_Done dest: one)
  show ?case
    using Cons by (cases iv) (auto simp: andthen_Done split: if_splits dest: all)
qed simp

lemma processAdd_parts:
  assumes "processAdd M x y = Done n" "const_int y = None"
  obtains l r where "find_node M x = Some (Some l)" "find_node M y = Some (Some r)" "getAdd l r = SumNode n"
proof -
  obtain l r where lr: "find_node M x = Some (Some l)" "find_node M y = Some (Some r)"
    using assms by (fastforce simp: processAdd_def andthen_Done split: if_splits)
  then have "getAdd l r = SumNode n"
    using assms by (cases "getAdd l r") (auto simp: processAdd_def deref_def split: if_splits)
  then show ?thesis using lr that by blast
qed

lemma instruction_node_good:
  assumes L: "llvm_laws L" and M: "good_map f M" and i: "inst_ok f i"
    and D: "instruction_node L f M b i = Done (Some n)"
  shows "plain n \<and> (inst_ty i = IntTy 32 \<longrightarrow> sum_node n)"
proof (cases "inst_kind i")
  case (Load p)
  then obtain j where "n = getSubSig j" using D processLoad_node by (auto simp: andthen_Done)
  then show ?thesis using sum_node_subsig plain_countD(4) by blast
next
  case (ICmp p x y)
  then have x: "typed f (IntTy 32) x" "inst_ty i = IntTy 1" using i by (simp_all add: inst_ok_def)
  obtain c v where "find_node M x = Some (Some c)" "compare_node L p c v = Done n"
    using D ICmp typed_find[OF x(1)]
    by (auto simp: andthen_Done processICmp_def split: option.splits if_splits)
  then have "plain n" using compare_node_sound(1)[OF L] good_find(2)[OF M _ x(1)] by blast
  then show ?thesis using x by simp
next
  case (Select c x y)
  then have "processSelect L M c x y = Done n" "inst_ty i = IntTy 1"
    using D i by (auto simp: andthen_Done inst_ok_def)
  then show ?thesis
  proof (elim processSelect_parts)
    fix cond notcond n1 n2
    assume a: "find_node M c = Some (Some cond)" "getNot L cond = Some notcond"
      "select_part L M cond x = Done n1" "select_part L M notcond y = Done n2" "n1 \<noteq> None \<or> n2 \<noteq> None"
      "n = (case (n1, n2) of (Some a, Some b) \<Rightarrow> getOr2 L a b | (Some a, None) \<Rightarrow> a | (None, Some b) \<Rightarrow> b
         | (None, None) \<Rightarrow> n)" and ty: "inst_ty i = IntTy 1"
    have "plain cond" "plain notcond"
      using good_find(1)[OF M a(1)] getNot_plain_sound[OF L _ a(2)] by auto
    then have "plain_opt n1" "plain_opt n2"
      using select_part_plain[OF L M _ a(3)] select_part_plain[OF L M _ a(4)] by auto
    then show ?thesis using a(5,6) plain_pair(3)[OF L] ty by (cases n1; cases n2) auto
  qed
next
  case (Binary op x y)
  show ?thesis
  proof (cases "op = Add")
    case True
    then have xy: "typed f (IntTy 32) x" "typed f (IntTy 32) y" using i Binary by (simp_all add: inst_ok_def)
    then obtain l r where "find_node M x = Some (Some l)" "find_node M y = Some (Some r)" "getAdd l r = SumNode n"
      using D Binary True typed_find[OF xy(2)] by (auto simp: andthen_Done elim: processAdd_parts)
    then have "sum_node n" using getAdd_sum_node(1) good_find(2)[OF M] xy by blast
    then show ?thesis using plain_countD(4) by blast
  next
    case False
    then have ty: "inst_ty i = IntTy 1" using i Binary by (simp add: inst_ok_def)
    have "plain n"
      using D Binary False good_find(1)[OF M] plain_pair(1,3)[OF L]
      by (cases op) (auto simp: andthen_Done processLogic_def processXor_def split: if_splits
          dest!: conjunct1[OF getNot_plain_sound[OF L, rotated]])
    then show ?thesis using ty by simp
  qed
next
  case (Phi ivs)
  then obtain routes where "add_incoming L f M routes None ivs = Done (Some n)"
    using D by (auto simp: processPHI_def simp del: populateRoutes.simps split: option.splits)
  then have "plain_opt (Some n)" using add_incoming_plain[OF L good_plain_map[OF M]] by fastforce
  moreover have "inst_ty i = IntTy 1" using i Phi by (simp add: inst_ok_def)
  ultimately show ?thesis by simp
qed (use D i in \<open>auto simp: inst_ok_def andthen_Done split: castop.splits\<close>)

section \<open>What a block and a function leave in the map\<close>

definition terminated :: "inst list \<Rightarrow> bool" where
  "terminated is \<longleftrightarrow> list_all (\<lambda>i. \<not> isTerminator (inst_kind i)) (butlast is)"

lemma terminated_Cons:
  "terminated (i # is) \<Longrightarrow> terminated is \<and> (isTerminator (inst_kind i) \<longrightarrow> is = [])"
  by (cases "is") (auto simp: terminated_def)

text \<open>The state after a block or several, as far as the proof uses it.\<close>

definition entered :: "llvm \<Rightarrow> bfunction \<Rightarrow> nat \<Rightarrow> node_map \<Rightarrow> inst \<Rightarrow> bool" where
  "entered L f b M i \<longleftrightarrow>
     (\<forall>x. M (inst_id i) = Some x \<longrightarrow> instruction_node L f M b i = Done x)
   \<and> (\<forall>c t e. inst_kind i = CondBr c t e \<longrightarrow> (\<exists>n. find_node M c = Some (Some n)))"

declare instruction_node.simps [simp del]

lemma entered_mono:
  assumes "entered L f b M i" "M \<subseteq>\<^sub>m M'" "M' (inst_id i) = M (inst_id i)"
  shows "entered L f b M' i"
proof -
  have "instruction_node L f M' b i = Done x" if "M' (inst_id i) = Some x" for x
    using assms that instruction_node_mono by (metis entered_def)
  moreover have "\<exists>n. find_node M' c = Some (Some n)" if "inst_kind i = CondBr c t e" for c t e
    using assms(1,2) that find_mono unfolding entered_def by metis
  ultimately show ?thesis by (simp add: entered_def)
qed

text \<open>
  What the work on instructions with new numbers does to the map: it grows by some of these
  numbers and keeps its form.
\<close>

definition grows :: "bfunction \<Rightarrow> inst list \<Rightarrow> node_map \<Rightarrow> node_map \<Rightarrow> bool" where
  "grows f is M M' \<longleftrightarrow> M \<subseteq>\<^sub>m M' \<and> dom M' \<subseteq> dom M \<union> inst_id ` set is
     \<and> (good_map f M \<longrightarrow> good_map f M')"

lemma grows_refl: "grows f is M M"
  by (auto simp: grows_def)

lemma grows_trans: "grows f is M M' \<Longrightarrow> grows f js M' M'' \<Longrightarrow> grows f (is @ js) M M''"
  unfolding grows_def image_Un set_append using map_le_trans by blast

lemma grows_outside:
  assumes "grows f is M M'" "j \<notin> inst_id ` set is"
  shows "M' j = M j"
proof (cases "M j")
  case None
  then show ?thesis using assms by (auto simp: grows_def dom_def)
next
  case (Some x)
  then show ?thesis using assms(1) by (auto simp: grows_def map_le_def dom_def)
qed

lemma grows_entry:
  assumes L: "llvm_laws L" and i: "inst_ok f i" "ty_of f (inst_id i) = Some (inst_ty i)"
    and D: "instruction_node L f M b i = Done x" and new: "inst_id i \<notin> dom M"
  shows "grows f [i] M (M(inst_id i \<mapsto> x))"
proof -
  have "M \<subseteq>\<^sub>m M(inst_id i \<mapsto> x)" using new by (auto simp: map_le_def)
  moreover have "good_map f (M(inst_id i \<mapsto> x))" if "good_map f M"
    using that instruction_node_good[OF L that i(1)] D i(2) by (auto simp: good_map_def)
  ultimately show ?thesis by (auto simp: grows_def)
qed

text \<open>What a return adds to the exit nodes.\<close>

definition exits :: "llvm \<Rightarrow> node_map \<Rightarrow> val list \<Rightarrow> compiler \<Rightarrow> compiler \<Rightarrow> bool" where
  "exits L M vs s s' \<longleftrightarrow> (case vs of
      [] \<Rightarrow> exitNodesOr s' = exitNodesOr s \<and> exitNodesAnd s' = exitNodesAnd s
    | v # _ \<Rightarrow> (case const_int v of
        Some k \<Rightarrow> (if k = 0
          then exitNodesOr s' = exitNodesOr s @ [getFalse] \<and> exitNodesAnd s' = exitNodesAnd s
          else exitNodesOr s' = exitNodesOr s \<and> exitNodesAnd s' = exitNodesAnd s @ [getTrue])
      | None \<Rightarrow> (\<exists>n. find_node M v = Some (Some n)
          \<and> exitNodesOr s' = exitNodesOr s @ [getAnd_set L [n]] \<and> exitNodesAnd s' = exitNodesAnd s)))"

lemma exits_map: "exits L M vs (s\<lparr>Map := X\<rparr>) s' = exits L M vs s s'"
  by (cases vs) (simp_all add: exits_def split: option.split)

lemma processRet_exits:
  assumes "processRet L v s = Done s'"
  shows "Map s' = Map s" "exits L (Map s) [v] s s'"
proof -
  have "getNot L (getAnd_set L []) = Some getFalse"
    by (simp add: getAnd_set_def getTrue_def)
  then show "Map s' = Map s" "exits L (Map s) [v] s s'"
    using assms by (auto simp: processRet_def exits_def andthen_Done or_crash_def getAnd_set_def
        split: option.splits if_splits)
qed

lemma returns_of_simps [simp]:
  "returns_of [] = []" "returns_of (i # is) = returned (inst_kind i) @ returns_of is"
  "returns_of (is @ js) = returns_of is @ returns_of js"
  by (simp_all add: returns_of_def)

text \<open>An instruction that is not a terminator and has a value.\<close>

lemma processBB_value:
  assumes "\<not> isTerminator (inst_kind i)" "\<not> no_value (inst_kind i)"
  shows "processBB L f b valid (i # is) s = (case instruction_node L f (Map s) b i of
      Crash \<Rightarrow> Crash
    | Reject \<Rightarrow> (if clears_valid (inst_kind i) then processBB L f b False is s else Reject)
    | Done n \<Rightarrow> processBB L f b valid is (s\<lparr>Map := (Map s)(inst_id i \<mapsto> n)\<rparr>))"
  using assms by (cases "inst_kind i") simp_all

lemma processBB_terminator:
  assumes "isTerminator (inst_kind i)" "processBB L f b valid [i] s = Done s'"
  shows "Map s' = Map s \<and> exits L (Map s) (returned (inst_kind i)) s s'
    \<and> (\<forall>c t e. inst_kind i = CondBr c t e \<longrightarrow> (\<exists>n. find_node (Map s) c = Some (Some n)))"
proof (cases "inst_kind i")
  case (Return r)
  then obtain v where v: "r = Some v" using assms(2) by (cases r) auto
  then have "processRet L v s = Done s'" using assms(2) Return by (auto simp: andthen_Done split: if_splits)
  then show ?thesis using processRet_exits Return v by simp
next
  case (CondBr c t e)
  then show ?thesis using assms(2) by (auto simp: andthen_Done exits_def split: if_splits)
qed (use assms in \<open>auto simp: exits_def instruction_node.simps\<close>)

definition numbered :: "bfunction \<Rightarrow> inst list \<Rightarrow> bool" where
  "numbered f is \<longleftrightarrow> distinct (map inst_id is)
     \<and> (\<forall>i\<in>set is. inst_ok f i \<and> ty_of f (inst_id i) = Some (inst_ty i))"

lemma processBB_map:
  assumes L: "llvm_laws L"
  shows "processBB L f b valid is s = Done s' \<Longrightarrow> terminated is \<Longrightarrow> numbered f is \<Longrightarrow>
    \<forall>i\<in>set is. inst_id i \<notin> dom (Map s) \<Longrightarrow>
    grows f is (Map s) (Map s') \<and> (\<forall>i\<in>set is. entered L f b (Map s') i)
      \<and> exits L (Map s') (returns_of is) s s'"
proof (induction "is" arbitrary: s valid)
  case Nil
  then show ?case by (auto simp: grows_refl exits_def split: if_splits)
next
  case (Cons i "is")
  have t: "terminated is" "numbered f is" and last: "isTerminator (inst_kind i) \<Longrightarrow> is = []"
    using terminated_Cons[OF Cons.prems(2)] Cons.prems(3) by (auto simp: numbered_def)
  have i: "inst_ok f i" "ty_of f (inst_id i) = Some (inst_ty i)" "inst_id i \<notin> inst_id ` set is"
    using Cons.prems(3) by (auto simp: numbered_def)
  have new: "inst_id i \<notin> dom (Map s)" "\<forall>j\<in>set is. inst_id j \<notin> dom (Map s)" using Cons.prems(4) by auto
  show ?case
  proof (cases "isTerminator (inst_kind i)")
    case True
    then have nil: "is = []" using last by simp
    then have "Map s' = Map s \<and> exits L (Map s) (returns_of (i # is)) s s'
      \<and> (\<forall>c t e. inst_kind i = CondBr c t e \<longrightarrow> (\<exists>n. find_node (Map s) c = Some (Some n)))"
      using processBB_terminator[OF True, of L f b valid s s'] Cons.prems(1) by (simp del: processBB.simps)
    then show ?thesis using new(1) nil by (auto simp: grows_refl entered_def dom_def)
  next
    case False
    note go = Cons.IH[OF _ t]
    have skip: ?thesis if s': "processBB L f b w is s = Done s'" for w
    proof -
      have g: "grows f is (Map s) (Map s')" using go[OF s' new(2)] by simp
      then have "Map s' (inst_id i) = None" using grows_outside[OF g i(3)] new(1) by auto
      moreover have "grows f (i # is) (Map s) (Map s')" using g by (auto simp: grows_def)
      ultimately show ?thesis
        using go[OF s' new(2)] False by (cases "inst_kind i") (auto simp: entered_def)
    qed
    show ?thesis
    proof (cases "no_value (inst_kind i)")
      case True
      then have "processBB L f b valid is s = Done s'" using Cons.prems(1) by (cases "inst_kind i") auto
      then show ?thesis by (rule skip)
    next
      case val: False
      show ?thesis
      proof (cases "instruction_node L f (Map s) b i")
        case (Done n)
        let ?s = "s\<lparr>Map := (Map s)(inst_id i \<mapsto> n)\<rparr>"
        have s': "processBB L f b valid is ?s = Done s'"
          using Cons.prems(1) processBB_value[OF False val] Done by simp
        have "\<forall>j\<in>set is. inst_id j \<notin> dom (Map ?s)" using new i(3) by (auto simp: rev_image_eqI)
        note IH = go[OF s' this]
        have g: "grows f is (Map ?s) (Map s')" using IH by (rule conjunct1)
        have g1: "grows f [i] (Map s) (Map ?s)"
          using grows_entry[OF L i(1,2) Done new(1)] by simp
        have gg: "grows f (i # is) (Map s) (Map s')" using grows_trans[OF g1 g] by simp
        have "Map s' (inst_id i) = Some n" using grows_outside[OF g i(3)] by simp
        moreover have "instruction_node L f (Map s') b i = Done n"
          using instruction_node_mono[OF Done] gg by (simp add: grows_def)
        ultimately have "entered L f b (Map s') i" using False by (auto simp: entered_def)
        moreover have "returned (inst_kind i) = []" using False by (cases "inst_kind i") auto
        ultimately show ?thesis using gg IH by (simp add: exits_map)
      qed (use Cons.prems(1) processBB_value[OF False val] skip in \<open>auto split: if_splits\<close>)
    qed
  qed
qed

lemma exits_mono: "exits L M vs s s' \<Longrightarrow> M \<subseteq>\<^sub>m M' \<Longrightarrow> exits L M' vs s s'"
  by (cases vs) (auto simp: exits_def split: option.splits dest: find_mono)

lemma exits_append:
  assumes "exits L M vs s s1" "exits L M ws s1 s'" "length (vs @ ws) \<le> 1"
  shows "exits L M (vs @ ws) s s'"
proof (cases vs)
  case Nil
  then show ?thesis
    using assms by (cases ws) (auto simp: exits_def split: option.splits)
next
  case (Cons v us)
  then have "ws = []" "us = []" using assms(3) by auto
  then show ?thesis using assms Cons by (auto simp: exits_def split: option.splits)
qed

lemma processBlocks_map:
  assumes L: "llvm_laws L"
  shows "processBlocks L f b bs s = Done s' \<Longrightarrow> \<forall>is\<in>set bs. terminated is \<Longrightarrow> numbered f (concat bs) \<Longrightarrow>
    \<forall>i\<in>set (concat bs). inst_id i \<notin> dom (Map s) \<Longrightarrow> length (returns_of (concat bs)) \<le> 1 \<Longrightarrow>
    grows f (concat bs) (Map s) (Map s')
    \<and> (\<forall>k<length bs. \<forall>i\<in>set (bs ! k). entered L f (b + k) (Map s') i)
    \<and> exits L (Map s') (returns_of (concat bs)) s s'"
proof (induction bs arbitrary: b s)
  case Nil
  then show ?case by (simp add: grows_refl exits_def)
next
  case (Cons "is" bs)
  obtain s1 where s1: "processBB L f b True is s = Done s1" "processBlocks L f (Suc b) bs s1 = Done s'"
    using Cons.prems(1) by (auto simp: andthen_Done)
  have n: "numbered f is" "numbered f (concat bs)"
    "\<forall>i\<in>set is. inst_id i \<notin> inst_id ` set (concat bs)" "\<forall>i\<in>set (concat bs). inst_id i \<notin> inst_id ` set is"
    using Cons.prems(3) by (auto simp: numbered_def disjoint_iff)
  have B: "grows f is (Map s) (Map s1)" "\<forall>i\<in>set is. entered L f b (Map s1) i"
    "exits L (Map s1) (returns_of is) s s1"
    using processBB_map[OF L s1(1) _ n(1)] Cons.prems(2,4) by simp_all
  have "\<forall>i\<in>set (concat bs). Map s1 (inst_id i) = None"
    using grows_outside[OF B(1)] n(4) Cons.prems(4) by auto
  then have "\<forall>i\<in>set (concat bs). inst_id i \<notin> dom (Map s1)" by (simp add: domIff)
  then have R: "grows f (concat bs) (Map s1) (Map s')"
    "\<forall>k<length bs. \<forall>i\<in>set (bs ! k). entered L f (Suc b + k) (Map s') i"
    "exits L (Map s') (returns_of (concat bs)) s1 s'"
    using Cons.IH[OF s1(2) _ n(2)] Cons.prems(2,5) by simp_all
  have le: "Map s1 \<subseteq>\<^sub>m Map s'" using R(1) by (simp add: grows_def)
  have "\<forall>i\<in>set is. entered L f b (Map s') i"
    using B(2) le entered_mono grows_outside[OF R(1)] n(3) by blast
  then have "\<forall>k<length (is # bs). \<forall>i\<in>set ((is # bs) ! k). entered L f (b + k) (Map s') i"
    using R(2) by (auto simp: nth_Cons split: nat.splits)
  moreover have "exits L (Map s') (returns_of (concat (is # bs))) s s'"
    using exits_append[OF exits_mono[OF B(3) le] R(3)] Cons.prems(5) by simp
  ultimately show ?case using grows_trans[OF B(1) R(1)] by simp
qed

section \<open>Values and nodes\<close>

text \<open>
  A value of the run and a node agree: a count is the number of its node, a truth value is 0
  or 1 and tells whether its node is true.
\<close>

definition agrees :: "counts \<Rightarrow> ty \<Rightarrow> LogicalNode \<Rightarrow> uint32_t \<Rightarrow> bool" where
  "agrees m t n x \<longleftrightarrow> (if t = IntTy 32 then num m n = x else x = of_bool (truth m n))"

definition env_agrees :: "counts \<Rightarrow> bfunction \<Rightarrow> node_map \<Rightarrow> env \<Rightarrow> bool" where
  "env_agrees m f M env \<longleftrightarrow> (\<forall>i x n t. env i = Some x \<longrightarrow> M i = Some (Some n) \<longrightarrow>
     ty_of f i = Some t \<longrightarrow> agrees m t n x)"

lemma eval_typed:
  assumes "env_agrees m f M env" "typed f t v" "eval env v = Some x" "find_node M v = Some (Some n)"
  shows "agrees m t n x"
  using assms by (cases v) (auto simp: env_agrees_def)

text \<open>A truth value that is an instruction or a constant.\<close>

lemma eval_logical:
  assumes "env_agrees m f M env" "logical f v" "eval env v = Some x"
  shows "find_node M v = Some (Some n) \<Longrightarrow> x = of_bool (truth m n)"
    and "const_int v = Some k \<Longrightarrow> k \<le> 1 \<and> x = of_nat k"
proof -
  show "x = of_bool (truth m n)" if "find_node M v = Some (Some n)"
  proof -
    have "typed f (IntTy 1) v" using assms(2) that const_find by (auto simp: logical_def)
    from eval_typed[OF assms(1) this assms(3) that] show ?thesis by (simp add: agrees_def)
  qed
  show "k \<le> 1 \<and> x = of_nat k" if "const_int v = Some k"
    using assms(2,3) that by (cases v rule: const_int.cases) (auto simp: logical_def)
qed

lemma processLoad_index:
  assumes "processLoad p = Done n" "load_index p = Some j"
  shows "n = getSubSig j"
  using assms by (cases p rule: load_index.cases) (auto split: if_splits)

lemma select_part_truth:
  assumes L: "llvm_laws L" and M: "good_map f M" and c: "plain c" and D: "select_part L M c v = Done r"
  shows "disj_truth m r \<Longrightarrow> truth m c"
    and "env_agrees m f M env \<Longrightarrow> logical f v \<Longrightarrow> eval env v = Some x \<Longrightarrow> truth m c \<Longrightarrow>
      x = of_bool (disj_truth m r)"
proof -
  consider (node) n where "find_node M v = Some (Some n)" "r = Some (getAnd2 L c n)"
    | (one) "const_int v = Some 1" "r = Some c" | (zero) "const_int v = Some 0" "r = None"
    using D by (auto simp: select_part_def andthen_Done split: option.splits if_splits)
  then show "disj_truth m r \<Longrightarrow> truth m c"
    using plain_pair(2)[OF L c] good_find(1)[OF M] by cases auto
  assume a: "env_agrees m f M env" "logical f v" "eval env v = Some x" "truth m c"
  show "x = of_bool (disj_truth m r)"
    using \<open>select_part L M c v = Done r\<close>
  proof -
    consider (node) n where "find_node M v = Some (Some n)" "r = Some (getAnd2 L c n)"
      | (one) "const_int v = Some 1" "r = Some c" | (zero) "const_int v = Some 0" "r = None"
      using D by (auto simp: select_part_def andthen_Done split: option.splits if_splits)
    then show ?thesis
      using plain_pair(2)[OF L c good_find(1)[OF M]] eval_logical[OF a(1-3)] a(4) by cases auto
  qed
qed

lemma select_agrees:
  assumes L: "llvm_laws L" and M: "good_map f M" and env: "env_agrees m f M env"
    and ok: "logical f c" "logical f a" "logical f b"
    and D: "processSelect L M c a b = Done n"
    and x: "exec_value m prev env (Select c a b) = Some x"
  shows "x = of_bool (truth m n)"
  using D
proof (rule processSelect_parts)
  fix cond notcond n1 n2
  assume p: "find_node M c = Some (Some cond)" "getNot L cond = Some notcond"
    "select_part L M cond a = Done n1" "select_part L M notcond b = Done n2" "n1 \<noteq> None \<or> n2 \<noteq> None"
    "n = (case (n1, n2) of (Some a, Some b) \<Rightarrow> getOr2 L a b | (Some a, None) \<Rightarrow> a | (None, Some b) \<Rightarrow> b
       | (None, None) \<Rightarrow> n)"
  have plain: "plain cond" "plain notcond" and neg: "truth m notcond \<longleftrightarrow> \<not> truth m cond"
    using good_find(1)[OF M p(1)] getNot_plain_sound[OF L _ p(2)] by auto
  have "plain_opt n1" "plain_opt n2"
    using select_part_plain[OF L M _ p(3)] select_part_plain[OF L M _ p(4)] plain by auto
  then have n: "truth m n \<longleftrightarrow> disj_truth m n1 \<or> disj_truth m n2"
    using p(5,6) plain_pair(4)[OF L] by (cases n1; cases n2) auto
  obtain y where y: "eval env c = Some y" using x by (cases "eval env c") auto
  then have "y = of_bool (truth m cond)" using eval_logical(1)[OF env ok(1)] p(1) by blast
  then show ?thesis
    using x y n neg select_part_truth[OF L M plain(1) p(3), of m] select_part_truth[OF L M plain(2) p(4), of m]
      env ok by (cases "truth m cond") auto
qed

lemma binary_agrees:
  assumes L: "llvm_laws L" and M: "good_map f M" and env: "env_agrees m f M env" and i: "inst_ok f i"
    and k: "inst_kind i = Binary op a b" and D: "instruction_node L f M bl i = Done (Some n)"
    and x: "exec_value m prev env (Binary op a b) = Some x"
  shows "agrees m (inst_ty i) n x"
proof -
  obtain y z where v: "eval env a = Some y" "eval env b = Some z" "binop_value op y z = Some x"
    using x by (auto simp: bind_eq_Some_conv)
  show ?thesis
  proof (cases "op = Add")
    case True
    then have t: "inst_ty i = IntTy 32" "typed f (IntTy 32) a" "typed f (IntTy 32) b"
      using i k by (simp_all add: inst_ok_def)
    have "processAdd M a b = Done n" using D k True by (auto simp: instruction_node.simps andthen_Done)
    then obtain l r where lr: "find_node M a = Some (Some l)" "find_node M b = Some (Some r)"
      "getAdd l r = SumNode n" using typed_find[OF t(3)] by (auto elim: processAdd_parts)
    have "num m l = y" "num m r = z"
      using eval_typed[OF env t(2) v(1) lr(1)] eval_typed[OF env t(3) v(2) lr(2)] by (simp_all add: agrees_def)
    then show ?thesis
      using getAdd_sum_node(2)[OF _ _ lr(3)] good_find(2)[OF M lr(1) t(2)] good_find(2)[OF M lr(2) t(3)]
        v(3) True t(1) by (simp add: agrees_def)
  next
    case False
    then have t: "inst_ty i = IntTy 1" "logical f a" "logical f b" using i k by (simp_all add: inst_ok_def)
    note ev = eval_logical[OF env t(2) v(1)] eval_logical[OF env t(3) v(2)]
    have logic: "\<exists>l r. find_node M a = Some (Some l) \<and> find_node M b = Some (Some r) \<and> n = g l r"
      if "processLogic g M a b = Done n" for g
      using that by (auto simp: processLogic_def andthen_Done split: if_splits)
    consider "op = And" | "op = Or" | "op = Xor" using v(3) False by (cases op) auto
    then have "x = of_bool (truth m n)"
    proof cases
      case 1
      then obtain l r where "find_node M a = Some (Some l)" "find_node M b = Some (Some r)" "n = getAnd2 L l r"
        using D k logic[of "getAnd2 L"] by (auto simp: instruction_node.simps andthen_Done)
      then show ?thesis
        using plain_pair(2)[OF L] good_find(1)[OF M] ev(1,3) v(3) 1 by auto
    next
      case 2
      then obtain l r where "find_node M a = Some (Some l)" "find_node M b = Some (Some r)" "n = getOr2 L l r"
        using D k logic[of "getOr2 L"] by (auto simp: instruction_node.simps andthen_Done)
      then show ?thesis
        using plain_pair(4)[OF L] good_find(1)[OF M] ev(1,3) v(3) 2 by auto
    next
      case 3
      then obtain l where l: "find_node M a = Some (Some l)" "getNot L l = Some n" "const_int b = Some 1"
        using D k by (auto simp: instruction_node.simps andthen_Done processXor_def split: if_splits)
      have "truth m n \<longleftrightarrow> \<not> truth m l"
        using getNot_plain_sound[OF L good_find(1)[OF M l(1)] l(2)] by blast
      moreover have "y = of_bool (truth m l)" "z = 1" using ev(1)[OF l(1)] ev(4)[OF l(3)] by simp_all
      ultimately show ?thesis using v(3) 3 by (cases "truth m l") simp_all
    qed
    then show ?thesis by (simp add: agrees_def t(1))
  qed
qed

lemma add_incoming_found:
  "add_incoming L f M routes ln ivs = Done ln' \<Longrightarrow> (v, b) \<in> set ivs \<Longrightarrow> const_int v = None \<Longrightarrow>
   r \<in> set routes \<Longrightarrow> pBasicBlock (last r) = b \<Longrightarrow> \<exists>n. find_node M v = Some (Some n)"
proof (induction ivs arbitrary: ln)
  case (Cons iv ivs)
  obtain w c where iv: "iv = (w, c)" by fastforce
  have found: "\<exists>n. find_node M v = Some (Some n)" if "add_routes L f M v l rs = Done l'" "rs \<noteq> []" for l l' rs
    using that Cons.prems(3) by (cases rs) (auto simp: add_route_def andthen_Done)
  show ?case
  proof (cases "(v, b) = (w, c)")
    case True
    then obtain l where "add_routes L f M v ln (filter (\<lambda>r. pBasicBlock (last r) = b) routes) = Done l"
      using Cons.prems(1,3) iv by (auto simp: andthen_Done findRoute_def split: if_splits)
    moreover have "filter (\<lambda>r. pBasicBlock (last r) = b) routes \<noteq> []"
      using Cons.prems(4,5) by (auto simp: filter_empty_conv)
    ultimately show ?thesis by (rule found)
  next
    case False
    then have "(v, b) \<in> set ivs" using Cons.prems(2) iv by auto
    moreover obtain l where "add_incoming L f M routes l ivs = Done ln'"
      using Cons.prems(1) iv by (auto simp: andthen_Done split: if_splits)
    ultimately show ?thesis using Cons.IH Cons.prems(3-5) by blast
  qed
qed simp

text \<open>A path to a block, with the last block on it, whose directions agree with the nodes.\<close>

definition arrived :: "counts \<Rightarrow> bfunction \<Rightarrow> node_map \<Rightarrow> nat \<Rightarrow> route \<Rightarrow> nat option \<Rightarrow> bool" where
  "arrived m f M b p prev \<longleftrightarrow> is_path f b 0 p \<and> distinct (map pBasicBlock p)
     \<and> (\<forall>h\<in>set p. direction_holds m f M h)
     \<and> prev = (if p = [] then None else Some (pBasicBlock (last p)))"

lemma incoming_from_in: "incoming_from b ivs = Some v \<Longrightarrow> (v, b) \<in> set ivs"
  by (induction b ivs rule: incoming_from.induct) (auto split: if_splits)

lemma phi_agrees:
  assumes L: "llvm_laws L" and M: "good_map f M" and env: "env_agrees m f M env"
    and path: "arrived m f M b p prev"
    and ok: "list_all (logical f \<circ> fst) ivs" "list_all (\<lambda>(v, b). incoming_from b ivs = Some v) ivs"
    and D: "processPHI L f M b ivs = Done (Some n)"
    and x: "exec_value m prev env (Phi ivs) = Some x"
  shows "x = of_bool (truth m n)"
proof -
  obtain c v where v: "prev = Some c" "incoming_from c ivs = Some v" "eval env v = Some x"
    using x by (auto simp: bind_eq_Some_conv)
  then have p: "is_path f b 0 p" "distinct (map pBasicBlock p)" "p \<noteq> []"
    "\<forall>h\<in>set p. direction_holds m f M h" and c: "c = pBasicBlock (last p)"
    using path by (auto simp: arrived_def split: if_splits)
  have "(v, c) \<in> set ivs" using incoming_from_in v(2) by blast
  then have lv: "logical f v" and only: "\<And>w. (w, c) \<in> set ivs \<Longrightarrow> w = v"
    using ok v(2) by (auto simp: list_all_iff)
  have n: "truth m n \<longleftrightarrow> const_int v \<noteq> Some 0 \<and> value_true m M v"
    using processPHI_sound(2)[OF L good_plain_map[OF M] D p] only \<open>(v, c) \<in> set ivs\<close> c by blast
  obtain routes where R: "populateRoutes f b (Suc (length (f_blocks f))) 0 [[]] 0 = Some routes"
    "add_incoming L f M routes None ivs = Done (Some n)"
    using D by (auto simp: processPHI_def simp del: populateRoutes.simps split: option.splits)
  show ?thesis
  proof (cases "const_int v")
    case None
    then obtain l where l: "find_node M v = Some (Some l)"
      using add_incoming_found[OF R(2) \<open>(v, c) \<in> set ivs\<close> None populateRoutes_complete(1)[OF R(1) p(1,2)]] c
      by blast
    then show ?thesis using n None eval_logical(1)[OF env lv v(3) l] by (simp add: value_true_def)
  next
    case (Some k)
    then have "k \<le> 1" "x = of_nat k" using eval_logical(2)[OF env lv v(3)] by auto
    then show ?thesis using n Some by (cases "k = 0") (auto simp: value_true_def le_Suc_eq)
  qed
qed

lemma icmp_agrees:
  assumes L: "llvm_laws L" and M: "good_map f M" and env: "env_agrees m f M env"
    and ok: "typed f (IntTy 32) a"
    and D: "processICmp L M p a b = Done n"
    and x: "exec_value m prev env (ICmp p a b) = Some x"
  shows "x = of_bool (truth m n)"
proof -
  obtain y z r where v: "eval env a = Some y" "eval env b = Some z" "icmp_holds p y z = Some r" "x = of_bool r"
    using x by (auto simp: bind_eq_Some_conv)
  obtain k c where k: "const_int b = Some k" "find_node M a = Some (Some c)"
    "compare_node L p c (of_nat k) = Done n"
    using D typed_find[OF ok] by (auto simp: processICmp_def andthen_Done split: option.splits if_splits)
  then have "z = of_nat k" using v(2) by (cases b rule: const_int.cases) auto
  moreover have "num m c = y" using eval_typed[OF env ok v(1) k(2)] by (simp add: agrees_def)
  ultimately show ?thesis
    using compare_node_sound(2)[OF L _ k(3)] good_find(2)[OF M k(2) ok] v(3,4) by auto
qed

lemma value_agrees:
  assumes L: "llvm_laws L" and M: "good_map f M" and env: "env_agrees m f M env" and i: "inst_ok f i"
    and path: "arrived m f M b p prev"
    and D: "instruction_node L f M b i = Done (Some n)"
    and x: "exec_value m prev env (inst_kind i) = Some x"
  shows "agrees m (inst_ty i) n x"
proof (cases "inst_kind i")
  case (Load q)
  then obtain j where j: "load_index q = Some j" "x = m j" using x by auto
  have "processLoad q = Done n" using D Load by (auto simp: instruction_node.simps andthen_Done)
  then have "n = getSubSig j" using processLoad_index j(1) by blast
  then show ?thesis using i Load j(2) by (simp add: agrees_def inst_ok_def getSubSig_def)
next
  case (ICmp q a c)
  then have "processICmp L M q a c = Done n" "typed f (IntTy 32) a" "inst_ty i = IntTy 1"
    using D i by (auto simp: instruction_node.simps andthen_Done inst_ok_def)
  then show ?thesis using icmp_agrees[OF L M env] x ICmp by (simp add: agrees_def)
next
  case (Select c s e)
  then have "processSelect L M c s e = Done n" "logical f c" "logical f s" "logical f e" "inst_ty i = IntTy 1"
    using D i by (auto simp: instruction_node.simps andthen_Done inst_ok_def)
  then show ?thesis using select_agrees[OF L M env] x Select by (simp add: agrees_def)
next
  case (Binary op s e)
  then show ?thesis using binary_agrees[OF L M env i Binary D] x by simp
next
  case (Phi ivs)
  then have "processPHI L f M b ivs = Done (Some n)" "list_all (logical f \<circ> fst) ivs"
    "list_all (\<lambda>(v, b). incoming_from b ivs = Some v) ivs" "inst_ty i = IntTy 1"
    using D i by (auto simp: instruction_node.simps inst_ok_def)
  then show ?thesis using phi_agrees[OF L M env path] x Phi by (simp add: agrees_def)
qed (use x i D in \<open>auto simp: inst_ok_def\<close>)

section \<open>Runs\<close>

definition block_ok :: "llvm \<Rightarrow> bfunction \<Rightarrow> nat \<Rightarrow> node_map \<Rightarrow> inst list \<Rightarrow> bool" where
  "block_ok L f b M is \<longleftrightarrow> (\<forall>i\<in>set is. entered L f b M i \<and> inst_ok f i
     \<and> ty_of f (inst_id i) = Some (inst_ty i))"

lemma env_agrees_update:
  assumes "env_agrees m f M env" "ty_of f i = Some t" "\<And>n. M i = Some (Some n) \<Longrightarrow> agrees m t n x"
  shows "env_agrees m f M (env(i \<mapsto> x))"
  using assms by (auto simp: env_agrees_def)

lemma run_insts_agrees:
  assumes L: "llvm_laws L" and M: "good_map f M" and path: "arrived m f M b p prev"
  shows "run_insts m prev is env = Some (env', k) \<Longrightarrow> block_ok L f b M is \<Longrightarrow> terminated is \<Longrightarrow>
    env_agrees m f M env \<Longrightarrow> env_agrees m f M env' \<and> is \<noteq> [] \<and> k = inst_kind (last is)"
proof (induction "is" arbitrary: env)
  case (Cons i "is")
  have t: "terminated is" "isTerminator (inst_kind i) \<Longrightarrow> is = []"
    using terminated_Cons[OF Cons.prems(3)] by auto
  have b: "block_ok L f b M is" "entered L f b M i" "inst_ok f i" "ty_of f (inst_id i) = Some (inst_ty i)"
    using Cons.prems(2) by (auto simp: block_ok_def)
  show ?case
  proof (cases "isTerminator (inst_kind i)")
    case True
    then show ?thesis using Cons.prems(1,4) t(2) by auto
  next
    case False
    show ?thesis
    proof (cases "no_value (inst_kind i)")
      case True
      then have "env_agrees m f M env' \<and> is \<noteq> [] \<and> k = inst_kind (last is)"
        using Cons False b(1) t(1) by auto
      then show ?thesis by auto
    next
      case val: False
      then obtain x where x: "exec_value m prev env (inst_kind i) = Some x"
        "run_insts m prev is (env(inst_id i \<mapsto> x)) = Some (env', k)"
        using Cons.prems(1) False by (auto split: option.splits)
      have "agrees m (inst_ty i) n x" if "M (inst_id i) = Some (Some n)" for n
        using value_agrees[OF L M Cons.prems(4) b(3) path _ x(1)] b(2) that by (auto simp: entered_def)
      then have "env_agrees m f M env' \<and> is \<noteq> [] \<and> k = inst_kind (last is)"
        using Cons.IH[OF x(2) b(1) t(1)] env_agrees_update[OF Cons.prems(4) b(4)] by blast
      then show ?thesis by auto
    qed
  qed
qed simp

lemma path_reaches: "is_path f b cur p \<Longrightarrow> h \<in> set p \<Longrightarrow> (pBasicBlock h, b) \<in> (cfg f)\<^sup>+"
proof (induction p arbitrary: cur h)
  case (Cons g p)
  obtain k where k: "getTerminator f cur = Some k"
    using Cons.prems(1) by (cases "getTerminator f cur") auto
  obtain t where t: "t \<in> set (successors k)" "is_path f b t p"
    using Cons.prems(1) k by (cases k) (auto split: if_splits)
  have edge: "(cur, t) \<in> cfg f" using k t(1) by (auto simp: cfg_def)
  have "(cur, b) \<in> (cfg f)\<^sup>+"
  proof (cases p)
    case Nil
    then show ?thesis using edge t(2) by auto
  next
    case (Cons g' p')
    then have "(t, b) \<in> (cfg f)\<^sup>+" using t(2) Cons.IH[OF t(2), of g'] by auto
    then show ?thesis using edge by (rule trancl_into_trancl2[rotated])
  qed
  then show ?case using Cons.prems Cons.IH[OF t(2)] by auto
qed simp

lemma is_path_snoc:
  "is_path f b cur p \<Longrightarrow> t \<notin> insert b (pBasicBlock ` set p) \<Longrightarrow> is_path f t b [h] \<Longrightarrow>
   is_path f t cur (p @ [h])"
proof (induction p arbitrary: cur)
  case (Cons g p)
  then obtain k where "getTerminator f cur = Some k" by (cases "getTerminator f cur") auto
  then show ?case using Cons by (cases k) (auto split: if_splits)
qed auto

text \<open>One branch further: in a function without loops the path stays a path without repetitions.\<close>

lemma arrived_step:
  assumes a: "arrived m f M b p prev" and b: "b \<notin> pBasicBlock ` set p" and lf: "loop_free f"
    and t: "getTerminator f b = Some k" "t \<in> set (successors k)"
    and h: "pBasicBlock h = b" "direction_holds m f M h"
      "k = CondBr c s e \<and> t = (if isTrue h then s else e) \<or> k = Br t \<and> isTrue h"
  shows "arrived m f M t (p @ [h]) (Some b)" "t \<notin> pBasicBlock ` set (p @ [h])"
proof -
  have edge: "(b, t) \<in> cfg f" using t by (auto simp: cfg_def)
  have "(t, t) \<notin> (cfg f)\<^sup>+" using lf by (simp add: loop_free_def acyclic_def)
  moreover have "(pBasicBlock g, t) \<in> (cfg f)\<^sup>+" if "g \<in> set p" for g
    using path_reaches[of f b 0 p] a that edge by (auto simp: arrived_def intro: trancl_into_trancl)
  ultimately have new: "t \<notin> insert b (pBasicBlock ` set p)" using edge by auto
  have "is_path f t b [h]" using t h new by auto
  then have "is_path f t 0 (p @ [h])" using is_path_snoc[OF _ new] a by (auto simp: arrived_def)
  then show "arrived m f M t (p @ [h]) (Some b)" using a b h by (auto simp: arrived_def)
  show "t \<notin> pBasicBlock ` set (p @ [h])" using new h(1) by auto
qed

lemma run_from_agrees:
  assumes L: "llvm_laws L" and M: "good_map f M" and lf: "loop_free f"
    and blocks: "\<And>b is. nth_opt (f_blocks f) b = Some is \<Longrightarrow> block_ok L f b M is \<and> terminated is"
  shows "run_from m f fuel prev b env = Some x \<Longrightarrow> arrived m f M b p prev \<Longrightarrow>
    b \<notin> pBasicBlock ` set p \<Longrightarrow> env_agrees m f M env \<Longrightarrow>
    \<exists>v env'. v \<in> set (returns_of (f_insts f)) \<and> logical f v \<and> eval env' v = Some x \<and> env_agrees m f M env'"
proof (induction fuel arbitrary: prev b env p)
  case (Suc fuel)
  obtain "is" where bl: "nth_opt (f_blocks f) b = Some is"
    using Suc.prems(1) by (cases "nth_opt (f_blocks f) b") auto
  obtain env' k where r: "run_insts m prev is env = Some (env', k)"
    using Suc.prems(1) bl by (auto split: option.splits)
  have env: "env_agrees m f M env'" and k: "is \<noteq> []" "k = inst_kind (last is)"
    using run_insts_agrees[OF L M Suc.prems(2) r] blocks[OF bl] Suc.prems(4) by auto
  have last: "last is \<in> set is" "entered L f b M (last is)" "inst_ok f (last is)"
    using blocks[OF bl] k(1) by (auto simp: block_ok_def)
  have T: "getTerminator f b = Some k" unfolding getTerminator_def bl using k by simp
  show ?case
  proof (cases k)
    case (Br t)
    let ?h = "LogicalPHIHelper b True"
    have "direction_holds m f M ?h" using T Br by (simp add: direction_holds_def getCondition_def)
    then show ?thesis
      using Suc.IH[of "Some b" t env' "p @ [?h]"] arrived_step[OF Suc.prems(2,3) lf T, of t ?h] Suc.prems(1)
        bl r Br env by auto
  next
    case (CondBr c s e)
    obtain y where y: "eval env' c = Some y" using Suc.prems(1) bl r CondBr by (cases "eval env' c") auto
    let ?h = "LogicalPHIHelper b (y \<noteq> 0)"
    have "typed f (IntTy 1) c" using last(3) k(2)[symmetric] CondBr by (simp add: inst_ok_def)
    moreover obtain n where n: "find_node M c = Some (Some n)"
      using last(2) k(2)[symmetric] CondBr by (auto simp: entered_def)
    ultimately have "y = of_bool (truth m n)" using eval_typed[OF env _ y n] by (simp add: agrees_def)
    then have "direction_holds m f M ?h"
      using T CondBr n by (simp add: direction_holds_def getCondition_def)
    then show ?thesis
      using Suc.IH[of "Some b" "if y \<noteq> 0 then s else e" env' "p @ [?h]"]
        arrived_step[OF Suc.prems(2,3) lf T, of "if y \<noteq> 0 then s else e" ?h c s e] Suc.prems(1)
        bl r CondBr env y by (auto split: if_splits)
  next
    case (Return rv)
    then obtain v where v: "rv = Some v" "eval env' v = Some x" using Suc.prems(1) bl r by (cases rv) auto
    have "logical f v" using last(3) k(2)[symmetric] Return v by (simp add: inst_ok_def)
    moreover have "last is \<in> set (f_insts f)"
      using last(1) bl nth_mem by (fastforce simp: f_insts_def)
    then have "v \<in> set (returns_of (f_insts f))"
      using k(2) Return v(1) unfolding returns_of_def by force
    ultimately show ?thesis using v(2) env by blast
  qed (use Suc.prems(1) bl r in auto)
qed simp

section \<open>Compilation is correct\<close>

lemma ty_of_inst:
  assumes "distinct (map inst_id (f_insts f))" "i \<in> set (f_insts f)"
  shows "ty_of f (inst_id i) = Some (inst_ty i)"
  unfolding ty_of_def using assms by (intro map_of_is_SomeI) (auto simp: comp_def)

text \<open>The nodes of the exits of a function with one return.\<close>

lemma exits_truth:
  assumes L: "llvm_laws L" and e: "exits L M [v] s s'" "exitNodesOr s = []" "exitNodesAnd s = []"
    and M: "good_map f M" and env: "env_agrees m f M env" "logical f v" "eval env v = Some x"
  shows "x = of_bool (truth m (getAnd2 L (getOr_set L (exitNodesOr s')) (getAnd_set L (exitNodesAnd s'))))"
proof -
  have nodes: "\<exists>n. x = of_bool (truth m n) \<and> plain n
      \<and> (exitNodesOr s' = [n] \<and> exitNodesAnd s' = [] \<or> exitNodesOr s' = [] \<and> exitNodesAnd s' = [n])"
  proof (cases "const_int v")
    case None
    then obtain n where n: "find_node M v = Some (Some n)" "exitNodesOr s' = [getAnd_set L [n]]" "exitNodesAnd s' = []"
      using e by (auto simp: exits_def)
    have "plain (getAnd_set L [n])" "truth m (getAnd_set L [n]) = truth m n"
      using plain_getAnd[OF L, of "[n]"] getAnd_plain_sound[OF L, of "[n]" m] good_find(1)[OF M n(1)]
      by (simp_all add: getAnd_set_def)
    then show ?thesis using n eval_logical(1)[OF env n(1)] by auto
  next
    case (Some k)
    then have "k \<le> 1" "x = of_nat k" using eval_logical(2)[OF env] by auto
    then have k: "k = 0 \<and> x = 0 \<or> k = 1 \<and> x = 1" by (auto simp: le_Suc_eq)
    show ?thesis
    proof (cases "k = 0")
      case True
      then have "exitNodesOr s' = [getFalse]" "exitNodesAnd s' = []" using e Some by (simp_all add: exits_def)
      then show ?thesis using k True plain_node(2) by (intro exI[of _ getFalse]) simp
    next
      case False
      then have "exitNodesOr s' = []" "exitNodesAnd s' = [getTrue]" using e Some by (simp_all add: exits_def)
      then show ?thesis using k False plain_node(1) by (intro exI[of _ getTrue]) simp
    qed
  qed
  then obtain n where n: "x = of_bool (truth m n)" "plain n"
    "exitNodesOr s' = [n] \<and> exitNodesAnd s' = [] \<or> exitNodesOr s' = [] \<and> exitNodesAnd s' = [n]" by blast
  then have "truth m (getAnd2 L (getOr_set L (exitNodesOr s')) (getAnd_set L (exitNodesAnd s'))) = truth m n"
    using plain_pair(2)[OF L plain_getOr[OF L, of "[n]"] plain_node(1)] getOr_sound[OF L, of m "[n]"]
      plain_pair(2)[OF L plain_node(1) plain_getAnd[OF L, of "[n]"]] getAnd_plain_sound[OF L, of "[n]" m]
    by (auto simp: getOr_set_def getAnd_set_def)
  then show ?thesis using n(1) by simp
qed

lemma compile_run:
  assumes L: "llvm_laws L" and ok: "trigger_ok f" and lf: "loop_free f"
    and D: "compile L True f = Done n" and R: "run_trigger m f = Some x"
  shows "x = of_bool (truth m n)"
proof -
  let ?s0 = "\<lparr>Map = (\<lambda>_. None), exitNodesOr = [], exitNodesAnd = []\<rparr>"
  obtain s where s: "processBlocks L f 0 (f_blocks f) ?s0 = Done s"
    "n = getAnd2 L (getOr_set L (exitNodesOr s)) (getAnd_set L (exitNodesAnd s))"
    using D by (auto simp: compile_def andthen_Done)
  have f: "\<forall>is\<in>set (f_blocks f). wf_block is" "distinct (map inst_id (f_insts f))"
    "\<forall>i\<in>set (f_insts f). inst_ok f i" "length (returns_of (f_insts f)) = 1"
    using ok by (auto simp: trigger_ok_def list_all_iff)
  have num: "numbered f (concat (f_blocks f))"
    using f(2,3) ty_of_inst[OF f(2)] by (simp add: numbered_def f_insts_def)
  have ter: "\<forall>is\<in>set (f_blocks f). terminated is" using f(1) by (auto simp: wf_block_def terminated_def)
  have P: "grows f (f_insts f) (\<lambda>_. None) (Map s)"
    "\<forall>k<length (f_blocks f). \<forall>i\<in>set (f_blocks f ! k). entered L f k (Map s) i"
    "exits L (Map s) (returns_of (f_insts f)) ?s0 s"
    using processBlocks_map[OF L s(1) ter num] f(4) by (simp_all add: f_insts_def)
  have M: "good_map f (Map s)" using P(1) by (simp add: grows_def good_map_def)
  have blocks: "block_ok L f b (Map s) is \<and> terminated is" if "nth_opt (f_blocks f) b = Some is" for b "is"
    using that P(2) ter f(3) ty_of_inst[OF f(2)] by (fastforce simp: block_ok_def f_insts_def)
  have "arrived m f (Map s) 0 [] None" "env_agrees m f (Map s) (\<lambda>_. None)"
    by (simp_all add: arrived_def env_agrees_def)
  then obtain v env where v: "v \<in> set (returns_of (f_insts f))" "logical f v" "eval env v = Some x"
    "env_agrees m f (Map s) env"
    using run_from_agrees[OF L M lf blocks R[unfolded run_trigger_def], of "[]"] by auto
  have "returns_of (f_insts f) = [v]" using v(1) f(4) by (cases "returns_of (f_insts f)") auto
  then show ?thesis using exits_truth[OF L _ _ _ M v(4,2,3)] P(3) s(2) by simp
qed


text \<open>
  A sample function: \<^verbatim>\<open>count(0) > 2 && count(1) + count(2) == 3\<close>, with a branch and a phi
  node as the optimiser leaves it.
\<close>

definition count_load :: "nat \<Rightarrow> nat \<Rightarrow> inst" where
  "count_load k j = \<lparr>inst_id = k, inst_ty = IntTy 32, inst_kind = Load (VConst (PtrTy (IntTy 32))
     (KExpr CE_GetElementPtr (PtrTy (IntTy 32)) [KGlobal match_counts, KInt 64 0, KInt 64 j]))\<rparr>"

definition value_inst :: "nat \<Rightarrow> ty \<Rightarrow> kind \<Rightarrow> inst" where
  "value_inst k t b = \<lparr>inst_id = k, inst_ty = t, inst_kind = b\<rparr>"

definition sample_trigger :: bfunction where
  "sample_trigger = \<lparr>f_name = ''logical_trigger'', f_args = [], f_ret = IntTy 1, f_structRet = False,
     f_blocks =
      [[count_load 0 0,
        value_inst 1 (IntTy 1) (ICmp ICMP_UGT (VInst (IntTy 32) 0) (VConst (IntTy 32) (KInt 32 2))),
        value_inst 2 VoidTy (CondBr (VInst (IntTy 1) 1) 1 2)],
       [count_load 3 1, count_load 4 2,
        value_inst 5 (IntTy 32) (Binary Add (VInst (IntTy 32) 3) (VInst (IntTy 32) 4)),
        value_inst 6 (IntTy 1) (ICmp ICMP_EQ (VInst (IntTy 32) 5) (VConst (IntTy 32) (KInt 32 3))),
        value_inst 7 VoidTy (Br 2)],
       [value_inst 8 (IntTy 1) (Phi [(VConst (IntTy 1) (KInt 1 0), 0), (VInst (IntTy 1) 6, 1)]),
        value_inst 9 VoidTy (Return (Some (VInst (IntTy 1) 8)))]]\<rparr>"

definition sample_counts :: counts where
  "sample_counts i = (if i = 0 then 3 else if i = 1 then 2 else 1)"

definition sample_node :: LogicalNode where
  "sample_node = LogicalNode LOG_AND no_op no_op
     [LogicalNode LOG_GT 2 no_op [getSubSig 0],
      LogicalNode LOG_EQ 3 no_op [LogicalNode LOG_ADDBOTH no_op no_op [getSubSig 1, getSubSig 2]]]"

text \<open>A function whose branches all go forward has no loops.\<close>

definition forward :: "bfunction \<Rightarrow> bool" where
  "forward f \<longleftrightarrow> list_all (\<lambda>b. case getTerminator f b of None \<Rightarrow> True
     | Some k \<Rightarrow> list_all (\<lambda>t. b < t) (successors k)) [0..<length (f_blocks f)]"

lemma forward_loop_free:
  assumes "forward f"
  shows "loop_free f"
proof -
  have "b < t" if "getTerminator f b = Some k" "t \<in> set (successors k)" for b k t
    using assms that getTerminator_bound[OF that(1)] by (force simp: forward_def list_all_iff)
  then have "cfg f \<subseteq> less_than" by (auto simp: cfg_def)
  then show ?thesis unfolding loop_free_def using wf_acyclic[OF wf_less_than] acyclic_subset by blast
qed

lemma sample_ok: "trigger_ok sample_trigger"
  by code_simp

lemma sample_run: "run_trigger sample_counts sample_trigger = Some 1"
  by code_simp

lemma sample_compiled: "compile insertion_llvm True sample_trigger = Done sample_node"
  by code_simp


definition two_returns :: bfunction where
  "two_returns = sample_trigger\<lparr>f_blocks :=
     [[count_load 0 0,
       value_inst 1 (IntTy 1) (ICmp ICMP_UGT (VInst (IntTy 32) 0) (VConst (IntTy 32) (KInt 32 2))),
       value_inst 2 VoidTy (CondBr (VInst (IntTy 1) 1) 1 2)],
      [value_inst 3 VoidTy (Return (Some (VConst (IntTy 1) (KInt 1 1))))],
      [count_load 4 1,
       value_inst 5 (IntTy 1) (ICmp ICMP_UGT (VInst (IntTy 32) 4) (VConst (IntTy 32) (KInt 32 4))),
       value_inst 6 VoidTy (Return (Some (VInst (IntTy 1) 5)))]]\<rparr>"


end
