(* ===== verification/BC_LogicFields.thy ===== *)
theory BC_LogicFields
  imports BC_LogicNames BC_LogicCorrect
begin

text \<open>
  The fields of a logical signature: names, attributes, expression and patterns are recovered
  by cutting the signature at its semicolons, the patterns are those of the module and the
  expression is the text of a node that means what the trigger function computes.
\<close>

section \<open>Cutting at semicolons\<close>

fun lsig_fields :: "string \<Rightarrow> string list" where
  "lsig_fields [] = [[]]"
| "lsig_fields (c # s) = (if c = CHR '';'' then [] # lsig_fields s
     else case lsig_fields s of f # fs \<Rightarrow> (c # f) # fs | [] \<Rightarrow> [])"

abbreviation no_semi :: "string \<Rightarrow> bool" where
  "no_semi s \<equiv> CHR '';'' \<notin> set s"

lemma fields_plain [simp]: "no_semi s \<Longrightarrow> lsig_fields s = [s]"
  by (induction s) auto

lemma fields_append [simp]: "no_semi s \<Longrightarrow> lsig_fields (s @ CHR '';'' # t) = s # lsig_fields t"
  by (induction s) auto

lemma semicolon_Cons: "(@) '';'' = (#) CHR '';''"
  by (rule ext) simp

lemma fields_concat: "no_semi s \<Longrightarrow> \<forall>t \<in> set ts. no_semi t \<Longrightarrow> lsig_fields (s @ concat (map (\<lambda>t. '';'' @ t) ts)) = s # ts"
  by (induction ts arbitrary: s) auto

section \<open>Texts without semicolons\<close>

lemma digit_plain: "list_all isdigit s \<Longrightarrow> no_semi s"
  by (auto simp: list_all_iff isdigit_def less_eq_char_def)

lemma decimal_plain [simp]: "no_semi (decimal n)"
  using decimal_digits[of n] digit_plain by (auto simp: list_all_iff)

lemma node2String_plain:
  "node2String n g = Some (s, g') \<Longrightarrow> no_semi s"
  "nodes2String sep ns g = Some (s, g') \<Longrightarrow> no_semi sep \<Longrightarrow> no_semi s"
proof (induction n g and sep ns g arbitrary: s g' and s g' rule: node2String_nodes2String.induct)
  case (1 k a b ns groups)
  show ?case
  proof (cases k)
    case LOG_ADDBOTH
    then show ?thesis using 1 by (auto split: list.splits)
  next
    case LOG_ADDSUM
    then show ?thesis using 1 by (auto split: list.splits)
  next
    case LOG_ADDUNIQ
    then show ?thesis using 1 by (auto split: list.splits)
  qed (use 1 in \<open>auto split: list.splits if_splits\<close>)
next
  case (3 sep n ns groups)
  then show ?case by (auto split: option.splits if_splits)
qed auto

lemma name_chars_plain: "validateVirusName s b \<Longrightarrow> no_semi s"
  by (auto simp: validateVirusName_def list_all_iff name_char_def isalnum_def isdigit_def isalpha_def less_eq_char_def)

lemma attribute_chars_plain: "list_all attribute_char s \<Longrightarrow> no_semi s"
  by (auto simp: attribute_char_def list_all_iff isalnum_def isdigit_def isalpha_def less_eq_char_def)

lemma comma_list_plain: "\<forall>n \<in> set ns. no_semi n \<Longrightarrow> no_semi (comma_list ns)"
  by (induction ns rule: comma_list.induct) auto

lemma virus_text_plain:
  assumes "validateVirusName prefix False" "\<forall>n \<in> set names. validateVirusName n True"
  shows "no_semi (virus_text M prefix names)"
proof -
  have "no_semi (comma_list (sort names))"
    using assms(2) name_chars_plain by (intro comma_list_plain) auto
  then have "no_semi (names_text prefix ks names)" for ks
    using name_chars_plain[OF assms(1)] by (simp add: names_text_def)
  then show ?thesis using name_chars_plain[OF assms(1)]
    by (auto simp: virus_text_def split: option.splits konst.splits)
qed

lemma attribute_text_plain:
  assumes "no_semi (a_icon1 a)" "no_semi (a_icon2 a)" "no_semi (a_container a)"
    and "\<forall>r. raw = Some r \<longrightarrow> list_all attribute_char r"
  shows "no_semi (attribute_text a raw)"
  using assms attribute_chars_plain by (auto simp: attribute_text_def split: option.splits)

section \<open>Patterns\<close>

text \<open>What the code relies on in LLVM: a decimal number is made of digits, and the string a
  constant points to ends before its first NUL.\<close>

definition text_laws :: "strings \<Rightarrow> bool" where
  "text_laws S \<longleftrightarrow> (\<forall>s n. getAsInteger S s = Some n \<longrightarrow> list_all isdigit s)
     \<and> (\<forall>gs k s. getConstantStringInfo S gs k = Some s \<longrightarrow> CHR 0x00 \<notin> set s)"

lemma integer_plain: "text_laws S \<Longrightarrow> getAsInteger S s = Some n \<Longrightarrow> no_semi s"
  using digit_plain by (auto simp: text_laws_def)

lemma find_char_Some: "find_char c s = Some k \<Longrightarrow> k < length s \<and> s = take k s @ c # drop (Suc k) s"
  by (induction s arbitrary: k) (auto split: if_splits)

lemma find_char_drop: "find_char c s = Some k \<Longrightarrow> k < length s \<and> drop k s = c # drop (Suc k) s"
  by (induction s arbitrary: k) (auto split: if_splits)

lemma find_char_prefix: "find_char c s = Some k \<Longrightarrow> find_char c (take k s @ c # t) = Some k"
  by (induction s arbitrary: k) (auto split: if_splits)

lemma pattern_chars_plain: "list_all pattern_char s \<Longrightarrow> no_semi s"
  by (auto simp: pattern_char_def list_all_iff isdigit_def less_eq_char_def)

lemma cut_plain:
  assumes "find_char c s = Some k" "no_semi (take k s)" "no_semi (drop (Suc k) s)" "c \<noteq> CHR '';''"
  shows "no_semi s"
  using find_char_Some[OF assms(1)] assms(2-4) by (metis Un_iff set_append set_ConsD)

text \<open>The first sign in an offset and what it splits.\<close>

definition first_sign :: "string \<Rightarrow> nat option" where
  "first_sign s = (case (find_char CHR ''+'' s, find_char CHR ''-'' s) of
     (None, n2) \<Rightarrow> n2 | (Some i, None) \<Rightarrow> Some i | (Some i, Some j) \<Rightarrow> Some (min i j))"

lemma first_sign_Some:
  assumes "first_sign s = Some k"
  shows "\<exists>c \<in> {CHR ''+'', CHR ''-''}. s = take k s @ c # drop (Suc k) s"
  using assms find_char_Some[of "CHR ''+''" s] find_char_Some[of "CHR ''-''" s]
  by (auto simp: first_sign_def min_def split: option.splits if_splits)

lemma sign_cut_plain:
  assumes "first_sign s = Some k" "no_semi (take k s)" "no_semi (drop (Suc k) s)"
  shows "no_semi s"
proof -
  obtain c where "c \<noteq> CHR '';''" "s = take k s @ c # drop (Suc k) s"
    using first_sign_Some[OF assms(1)] by auto
  then show ?thesis using assms(2,3) by (metis Un_iff set_append set_ConsD)
qed

lemma first_sign_EOF: "startswith s ''EOF-'' \<Longrightarrow> first_sign s = Some k \<Longrightarrow> no_semi (take k s)"
proof -
  assume "startswith s ''EOF-''" and k: "first_sign s = Some k"
  then obtain t where "s = ''EOF-'' @ t"
    by (metis append_take_drop_id startswith_def)
  then show ?thesis using k by (auto simp: first_sign_def split: option.splits)
qed

lemma anchored_offset_sign:
  "anchored_offset S s = (case first_sign s of
     None \<Rightarrow> Done False
   | Some k \<Rightarrow>
       (let anchor = take k s; ok = (getAsInteger S (drop (k + 1) s) \<noteq> None)
        in if startswith s ''EOF-'' \<or> anchor = ''EP'' \<or> anchor = ''SL'' then Done ok
           else if anchor = [] then Crash
           else if hd anchor = CHR ''S'' then Done (ok \<and> getAsInteger S (tl anchor) \<noteq> None)
           else Done False))"
  by (simp add: anchored_offset_def first_sign_def split: option.split)

lemma anchored_offset_plain:
  assumes "text_laws S" "anchored_offset S s = Done True"
  shows "no_semi s"
proof -
  obtain k where k: "first_sign s = Some k" using assms(2)
    by (auto simp: anchored_offset_sign split: option.splits)
  have d: "no_semi (drop (Suc k) s)"
    using assms k integer_plain by (auto simp: anchored_offset_sign Let_def split: if_splits)
  have "no_semi (take k s)"
  proof (cases "startswith s ''EOF-'' \<or> take k s = ''EP'' \<or> take k s = ''SL''")
    case True
    then show ?thesis using first_sign_EOF k by auto
  next
    case False
    then have "take k s \<noteq> []" "hd (take k s) = CHR ''S''" "\<exists>n. getAsInteger S (tl (take k s)) = Some n"
      using assms(2) k by (auto simp: anchored_offset_sign Let_def split: if_splits)
    then show ?thesis using integer_plain[OF assms(1)] by (cases "take k s") auto
  qed
  then show ?thesis using sign_cut_plain k d by blast
qed

lemma floating_offset_plain:
  assumes "text_laws S" "floating_offset S s = (True, t)" "no_semi t"
  shows "no_semi s"
proof (cases "find_char CHR '','' s")
  case None
  then show ?thesis using assms by (simp add: floating_offset_def)
next
  case (Some k)
  then show ?thesis using assms integer_plain[OF assms(1)] cut_plain[OF Some]
    by (auto simp: floating_offset_def split: if_splits)
qed

text \<open>An accepted offset \<open>t\<close> of the pattern \<open>s\<close> has no semicolon.\<close>

lemma validate_offset_plain:
  assumes "text_laws S" "validate_offset S s (take p s) = Done True" "find_char CHR '':'' s = Some p"
  shows "no_semi (take p s)"
proof -
  obtain t where f: "floating_offset S (take p s) = (True, t)" and t: "t \<noteq> []"
    and rest: "if s ! 0 = CHR ''*'' then s ! 1 = CHR '':''
      else if isdigit (s ! 0) then getAsInteger S t \<noteq> None
      else t = ''VI'' \<or> anchored_offset S t = Done True"
    using assms(2) by (auto simp: validate_offset_def andthen_Done split: prod.splits if_splits)
  show ?thesis
  proof (cases "s ! 0 = CHR ''*''")
    case True
    then have "p \<le> 1" using rest assms(3) find_char_Some[OF assms(3)]
      by (cases s; cases "tl s") (auto split: if_splits)
    then show ?thesis using True by (cases s; cases p) auto
  next
    case False
    then have "no_semi t" using rest integer_plain[OF assms(1)] anchored_offset_plain[OF assms(1)]
      by (auto split: if_splits)
    then show ?thesis using floating_offset_plain[OF assms(1) f] by blast
  qed
qed

lemma valid_pattern_plain:
  assumes "text_laws S" "CHR 0x00 \<notin> set s" "validateNDB S s = Done True"
  shows "no_semi s"
proof -
  have s: "takeWhile (\<lambda>c. c \<noteq> CHR 0x00) s = s" using assms(2) by (auto simp: takeWhile_eq_all_conv)
  show ?thesis
  proof (cases "find_char CHR '':'' s")
    case None
    then show ?thesis using assms(3) s pattern_chars_plain by (simp add: validateNDB_def)
  next
    case (Some p)
    have "andthen (validate_offset S s (take p s))
        (\<lambda>v. Done (v \<and> list_all pattern_char (drop (Suc p) s))) = Done True"
      using assms(3) unfolding validateNDB_def s Let_def Some by simp
    then have "validate_offset S s (take p s) = Done True" "list_all pattern_char (drop (Suc p) s)"
      by (auto simp: andthen_Done)
    then have "no_semi (take p s)" "no_semi (drop (Suc p) s)"
      using validate_offset_plain[OF assms(1) _ Some] pattern_chars_plain by blast+
    then show ?thesis by (rule cut_plain[OF Some]) simp
  qed
qed

lemma lower_pattern_nul: "CHR 0x00 \<notin> set s \<Longrightarrow> CHR 0x00 \<notin> set (lower_pattern s)"
proof -
  assume s: "CHR 0x00 \<notin> set s"
  have low: "tolower c \<noteq> CHR 0x00" if "c \<noteq> CHR 0x00" for c
  proof (cases "CHR ''A'' \<le> c \<and> c \<le> CHR ''Z''")
    case True
    then have "of_char c + (32 :: nat) < 256" "of_char (char_of (of_char c + (32 :: nat))) = of_char c + (32 :: nat)"
      by (simp_all add: less_eq_char_def)
    then have "of_char (tolower c) \<noteq> (0 :: nat)" using True by (simp add: tolower_def)
    then show ?thesis by auto
  qed (use that in \<open>auto simp: tolower_def\<close>)
  obtain p where p: "lower_pattern s = take p s @ map tolower (drop p s)"
    by (simp add: lower_pattern_def Let_def)
  have "CHR 0x00 \<notin> set (take p s)" using s by (meson in_set_takeD)
  moreover have "CHR 0x00 \<notin> tolower ` set (drop p s)"
  proof
    assume "CHR 0x00 \<in> tolower ` set (drop p s)"
    then obtain c where "c \<in> set (drop p s)" "tolower c = CHR 0x00" by (metis imageE)
    then show False using low[of c] s in_set_dropD by metis
  qed
  ultimately show ?thesis unfolding p set_append set_map by blast
qed

section \<open>The patterns of a module\<close>

fun pattern_operands :: "konst list \<Rightarrow> konst list" where
  "pattern_operands (c # s # ks) = c # pattern_operands ks"
| "pattern_operands ks = []"

fun pattern_ids :: "konst list \<Rightarrow> nat compiled list" where
  "pattern_ids (c # s # ks) = signature_id s # pattern_ids ks"
| "pattern_ids ks = []"

definition lowered :: "strings \<Rightarrow> gvar list \<Rightarrow> konst list \<Rightarrow> string list" where
  "lowered S gs ks = map lower_pattern (List.map_filter (getConstantStringInfo S gs) (pattern_operands ks))"

lemma lowered_simps [simp]:
  "lowered S gs [] = []" "lowered S gs [k] = []"
  "getConstantStringInfo S gs c = Some str \<Longrightarrow> lowered S gs (c # s # ks) = lower_pattern str # lowered S gs ks"
  by (simp_all add: lowered_def map_filter_simps)

lemma read_signatures_step:
  assumes "read_signatures S gs n (c # s # ks) subs v = Done r"
  shows "\<exists>k str w. signature_id s = Done k \<and> k < length subs \<and> getConstantStringInfo S gs c = Some str
    \<and> read_signatures S gs n ks (subs[k := lower_pattern str]) w = Done r"
  using assms by (auto simp: andthen_Done split: if_splits option.splits)

lemma read_signatures_subs:
  assumes "read_signatures S gs n ks subs v = Done (subs', v')"
  shows "length subs' = length subs \<and> set subs' \<subseteq> set subs \<union> set (lowered S gs ks)"
  using assms
proof (induction ks arbitrary: subs v rule: pattern_operands.induct)
  case (1 c s ks)
  then obtain k str w where "getConstantStringInfo S gs c = Some str"
      "read_signatures S gs n ks (subs[k := lower_pattern str]) w = Done (subs', v')"
    using read_signatures_step by blast
  then show ?case
    using 1(1)[of "subs[k := lower_pattern str]"] set_update_subset_insert[of subs k "lower_pattern str"] by auto
qed auto

lemma read_signatures_in_order:
  assumes "read_signatures S gs n ks subs v = Done (subs', v')" "even (length ks)"
    and "pattern_ids ks = map Done [j..<j + length ks div 2]" "length subs = j + length ks div 2"
  shows "subs' = take j subs @ lowered S gs ks"
  using assms
proof (induction ks arbitrary: subs v j rule: pattern_operands.induct)
  case (1 c s ks)
  obtain k str w where k: "signature_id s = Done k" "k < length subs" "getConstantStringInfo S gs c = Some str"
    and r: "read_signatures S gs n ks (subs[k := lower_pattern str]) w = Done (subs', v')"
    using read_signatures_step[OF 1(2)] by blast
  have upt: "[j..<j + length (c # s # ks) div 2] = j # [Suc j..<Suc j + length ks div 2]"
    by (simp add: upt_conv_Cons del: upt_Suc)
  have "k = j" "pattern_ids ks = map Done [Suc j..<Suc j + length ks div 2]"
    using 1(4) k(1) unfolding upt by simp_all
  then have "subs' = take (Suc j) (subs[j := lower_pattern str]) @ lowered S gs ks"
    using 1(1)[OF r] 1(3,5) by simp
  then show ?case using k \<open>k = j\<close> by (simp add: take_Suc_conv_app_nth)
qed auto

text \<open>The patterns that the variable \<^verbatim>\<open>Signatures\<close> of a module points to, and their numbers.\<close>

definition signature_operands :: "lmodule \<Rightarrow> konst list" where
  "signature_operands M = (case definitive M ''Signatures'' of Some (KStruct ks) \<Rightarrow> ks | _ \<Rightarrow> [])"

definition module_patterns :: "strings \<Rightarrow> lmodule \<Rightarrow> string list" where
  "module_patterns S M = (case getGlobalVariable M ''Signatures'' of
     None \<Rightarrow> []
   | Some g \<Rightarrow> lowered S (m_globals (replace_signatures g (signature_operands M) M)) (signature_operands M))"

lemma module_patterns_cong:
  assumes "getGlobalVariable M' ''Signatures'' = getGlobalVariable M ''Signatures''" "m_globals M' = m_globals M"
  shows "signature_operands M' = signature_operands M" "module_patterns S M' = module_patterns S M"
  using assms by (simp_all add: signature_operands_def module_patterns_def definitive_def replace_signatures_def
      make_internal_def split: option.split)

text \<open>What a compiled signature is made of.\<close>

lemma compileLogicalSignature_parts:
  assumes "compileLogicalSignature L S M f a knd vn = Done (sig, M')"
  shows "\<exists>node expr groups raw subs. compile L True (rename_fun ''Signatures'' ''_Signatures_'' f) = Done node
    \<and> node2String node 0 = Some (expr, groups) \<and> groups \<le> 64
    \<and> (\<forall>r. raw = Some r \<longrightarrow> list_all attribute_char r)
    \<and> sig = vn @ '';'' @ attribute_text a raw @ '';'' @ expr @ concat (map (\<lambda>s. '';'' @ s) subs)
    \<and> length subs = length (signature_operands M) div 2 \<and> set subs \<subseteq> insert [] (set (module_patterns S M))
    \<and> (pattern_ids (signature_operands M) = map Done [0..<length (signature_operands M) div 2]
        \<longrightarrow> subs = module_patterns S M)"
proof -
  obtain g where g: "getGlobalVariable M ''Signatures'' = Some g"
    using assms by (auto simp: compileLogicalSignature_def split: option.splits)
  obtain ks where ks: "gv_init g = Some (KStruct ks)"
    using assms g by (auto simp: compileLogicalSignature_def split: option.splits konst.splits)
  define N where "N = replace_signatures g ks M"
  have c: "(if odd (length ks) then Reject else
      andthen (read_signatures S (m_globals N) (length ks div 2) ks (replicate (length ks div 2) []) True)
        (\<lambda>(subs, valid). andthen (compile L (getGlobalVariable N match_counts \<noteq> None)
             (rename_fun ''Signatures'' ''_Signatures_'' f)) (\<lambda>node.
           if LogicalNode.kind node = LOG_TRUE \<or> LogicalNode.kind node = LOG_FALSE \<or> \<not> valid then Reject
           else andthen (signature_text S a vn node subs N) (\<lambda>sig.
             if fst (checkMinimum N sig (engine_min a) knd)
             then Done (sig, make_internal (f_name f) (internal_attributes S N)) else Reject)))) = Done (sig, M')"
    using assms unfolding compileLogicalSignature_def N_def by (simp only: g ks option.case konst.case Let_def)
  then have ev: "even (length ks)" by (auto split: if_splits)
  obtain subs valid where r: "read_signatures S (m_globals N) (length ks div 2) ks (replicate (length ks div 2) []) True
      = Done (subs, valid)" using c ev by (auto simp: andthen_Done)
  obtain node where n: "compile L (getGlobalVariable N match_counts \<noteq> None)
      (rename_fun ''Signatures'' ''_Signatures_'' f) = Done node" using c ev r by (auto simp: andthen_Done)
  have t: "signature_text S a vn node subs N = Done sig"
    using c ev r n by (auto simp: andthen_Done split: if_splits)
  have n': "compile L True (rename_fun ''Signatures'' ''_Signatures_'' f) = Done node"
    using n by (auto simp: compile_def split: if_splits)
  have o: "signature_operands M = ks" "module_patterns S M = lowered S (m_globals N) ks"
    using g ks by (simp_all add: signature_operands_def module_patterns_def definitive_def N_def)
  have "length subs = length ks div 2" "set subs \<subseteq> insert [] (set (lowered S (m_globals N) ks))"
    using read_signatures_subs[OF r] by (auto split: if_splits)
  moreover have "pattern_ids ks = map Done [0..<length ks div 2] \<longrightarrow> subs = lowered S (m_globals N) ks"
    using read_signatures_in_order[OF r ev, of 0] by simp
  moreover obtain expr groups where "node2String node 0 = Some (expr, groups)"
    using t by (auto simp: signature_text_def split: option.splits)
  ultimately show ?thesis using t n' o
    by (intro exI[of _ node] exI[of _ expr] exI[of _ groups]
        exI[of _ "Option.bind (definitive N ''__ldb_rawattrs'') (getConstantStringInfo S (m_globals N))"] exI[of _ subs])
      (auto simp: signature_text_def Let_def semicolon_Cons split: if_splits option.splits)
qed

section \<open>The signature of a module\<close>

lemma getGlobalVariable_internal [simp]:
  "getGlobalVariable (make_internal name M) n = (if n = name then None else getGlobalVariable M n)"
  by (auto simp: getGlobalVariable_def make_internal_def find_None_iff intro!: arg_cong[where f = "\<lambda>P. find P (m_globals M)"])

lemma make_internal_globals [simp]: "m_globals (make_internal name M) = m_globals M"
  by (simp add: make_internal_def)

definition attribute_string :: "strings \<Rightarrow> lmodule \<Rightarrow> string \<Rightarrow> string option" where
  "attribute_string S M name = Option.bind (definitive M name) (getConstantStringInfo S (m_globals M))"

lemma string_attribute_Done:
  assumes "string_attribute S name ok M = Done (s, v, M')"
  shows "m_globals M' = m_globals M" "n \<noteq> name \<Longrightarrow> getGlobalVariable M' n = getGlobalVariable M n"
    "v \<Longrightarrow> s = [] \<or> ok s" "s = [] \<or> attribute_string S M name = Some s"
  using assms by (auto simp: string_attribute_def attribute_string_def definitive_def split: option.splits)

lemma lowered_nul:
  "text_laws S \<Longrightarrow> p \<in> set (lowered S gs ks) \<Longrightarrow> CHR 0x00 \<notin> set p"
  by (auto simp: lowered_def map_filter_def text_laws_def intro!: lower_pattern_nul)

lemma module_patterns_plain:
  assumes "text_laws S" "\<forall>p \<in> set (module_patterns S M). validateNDB S p = Done True" "p \<in> set (module_patterns S M)"
  shows "no_semi p"
proof -
  have "CHR 0x00 \<notin> set p"
    using assms(1,3) lowered_nul by (auto simp: module_patterns_def split: option.splits)
  then show ?thesis using assms valid_pattern_plain by blast
qed

lemma target_step:
  assumes "(case definitive M ''__Target'' of None \<Rightarrow> Done (- 1, False, M)
    | Some k \<Rightarrow> andthen (int_of_konst k) (\<lambda>v. Done (v, True, make_internal ''__Target'' M))) = Done (t, v, M')"
  shows "m_globals M' = m_globals M" "n \<noteq> ''__Target'' \<Longrightarrow> getGlobalVariable M' n = getGlobalVariable M n"
  using assms by (auto simp: andthen_Done split: option.splits)

text \<open>The attributes are read and checked before the signature is compiled.\<close>

lemma logical_signature_parts:
  assumes "logical_signature L S knd mn mx vn f M = Done M'"
  shows "\<exists>a N sig M4. compileLogicalSignature L S N (mf_body f) a knd vn = Done (sig, M4)
    \<and> m_logicalSignature M' = sig \<and> a_min a = mn \<and> a_max a = mx
    \<and> m_globals N = m_globals M \<and> getGlobalVariable N ''Signatures'' = getGlobalVariable M ''Signatures''
    \<and> (a_icon1 a = [] \<or> validateVirusName (a_icon1 a) False) \<and> (a_icon2 a = [] \<or> validateVirusName (a_icon2 a) False)
    \<and> (a_container a = [] \<or> attribute_string S M ''__ldb_container'' = Some (a_container a))"
proof -
  obtain t v0 M0 where t: "(case definitive M ''__Target'' of None \<Rightarrow> Done (- 1, False, M)
      | Some k \<Rightarrow> andthen (int_of_konst k) (\<lambda>v. Done (v, True, make_internal ''__Target'' M))) = Done (t, v0, M0)"
    using assms unfolding logical_signature_def by (auto simp: andthen_Done)
  obtain i1 v1 M1 where i1: "string_attribute S ''__IconGroup1'' (\<lambda>s. validateVirusName s False) M0 = Done (i1, v1, M1)"
    using assms t unfolding logical_signature_def by (auto simp: andthen_Done)
  obtain i2 v2 M2 where i2: "string_attribute S ''__IconGroup2'' (\<lambda>s. validateVirusName s False) M1 = Done (i2, v2, M2)"
    using assms t i1 unfolding logical_signature_def by (auto simp: andthen_Done)
  obtain c v3 M3 where c: "string_attribute S ''__ldb_container'' (\<lambda>s. startswith s ''CL_TYPE_'') M2 = Done (c, v3, M3)"
    using assms t i1 i2 unfolding logical_signature_def by (auto simp: andthen_Done)
  let ?a = "\<lparr>a_target = t, a_min = mn, a_max = mx, a_icon1 = i1, a_icon2 = i2, a_container = c\<rparr>"
  obtain sig M4 where l: "compileLogicalSignature L S M3 (mf_body f) ?a knd vn = Done (sig, M4)" "v0 \<and> v1 \<and> v2 \<and> v3"
    "m_logicalSignature M' = sig"
    using assms t i1 i2 c unfolding logical_signature_def by (auto simp: andthen_Done Let_def split: if_splits)
  have g: "m_globals M3 = m_globals M" "getGlobalVariable M3 ''Signatures'' = getGlobalVariable M ''Signatures''"
    "attribute_string S M2 ''__ldb_container'' = attribute_string S M ''__ldb_container''"
    using target_step[OF t] string_attribute_Done(1,2)[OF i1] string_attribute_Done(1,2)[OF i2]
      string_attribute_Done(1,2)[OF c] by (simp_all add: attribute_string_def definitive_def)
  show ?thesis
    using l g string_attribute_Done(3)[OF i1] string_attribute_Done(3)[OF i2] string_attribute_Done(4)[OF c]
    by (intro exI[of _ ?a] exI[of _ M3] exI[of _ sig] exI[of _ M4]) simp
qed


lemma constant_strings_text: "text_laws constant_strings"
proof -
  have "CHR 0x00 \<notin> set s" if "konst_string k = Some s" for k s
    using that set_takeWhileD by (cases k) fastforce+
  then have "CHR 0x00 \<notin> set s" if "pointed_string gs k = Some s" for gs k s
    using that by (cases k) (auto simp: Option.bind_eq_Some_conv)
  then show ?thesis by (simp add: text_laws_def constant_strings_def)
qed

text \<open>A module with the sample trigger function and three patterns.\<close>

definition signature_module :: lmodule where
  "signature_module = (names_module ''A'')\<lparr>m_globals := m_globals (names_module ''A'') @
     [string_variable ''p0'' ''0:6A'', string_variable ''p1'' ''EP+4:62?3'', string_variable ''p2'' ''*:63'',
      (string_variable ''Signatures'' [])\<lparr>gv_init := Some (KStruct
        [KGlobal ''p0'', KZero (IntTy 32), KGlobal ''p1'', KStruct [KInt 32 1],
         KGlobal ''p2'', KStruct [KInt 32 2]])\<rparr>,
      string_variable match_counts [], (string_variable ''__Target'' [])\<lparr>gv_init := Some (KInt 16 1)\<rparr>]\<rparr>"

definition trigger_function :: mfunction where
  "trigger_function = (plain_function ''logical_trigger'' [])\<lparr>mf_body := sample_trigger\<rparr>"

definition sample_signature :: string where
  "sample_signature = ''BC.Test.{A};Engine:56-255,Target:1;((0>2)&((1|2)=3));0:6a;EP+4:62?3;*:63''"

lemma sample_signature_compiled:
  "case logical_signature insertion_llvm constant_strings 256 56 0 ''BC.Test.{A}'' trigger_function signature_module of
     Done M' \<Rightarrow> m_logicalSignature M' = sample_signature | _ \<Rightarrow> False"
  by code_simp


section \<open>Patterns that are not checked\<close>

text \<open>
  The verdict on a pattern replaces the verdict on the one before, so only the last pattern has
  to be valid: here a pattern that would start a new field is let through.
\<close>

lemma invalid_pattern_accepted:
  "validateNDB constant_strings ''zz;x'' = Done False"
  "read_signatures constant_strings [string_variable ''p0'' ''zz;x'', string_variable ''p1'' ''61''] 2
     [KGlobal ''p0'', KZero (IntTy 32), KGlobal ''p1'', KStruct [KInt 32 1]] [[], []] True
   = Done ([''zz;x'', ''61''], True)"
  by code_simp+

text \<open>A pattern numbered with the number of patterns passes the check and is written past the end.\<close>

lemma pattern_number_past_end:
  assumes "signature_id s = Done n" "length subs = n" "getConstantStringInfo S gs c = Some str"
    and "validateNDB S (lower_pattern str) = Done v"
  shows "read_signatures S gs n (c # s # ks) subs w = Crash"
  using assms by simp

text \<open>
  A pattern is in lower case from its colon on when it is checked, so the upper-case boundary
  marker L, which the check would let pass, is always refused.
\<close>

lemma boundary_marker_refused:
  assumes "find_char CHR '':'' s = Some p" "CHR ''L'' \<in> set (drop p s)" "CHR 0x00 \<notin> set s"
  shows "validateNDB S (lower_pattern s) \<noteq> Done True"
proof
  have l: "lower_pattern s = take p s @ map tolower (drop p s)" using assms(1) by (simp add: lower_pattern_def)
  have d: "drop p s = CHR '':'' # drop (Suc p) s" and pl: "p < length s"
    using find_char_drop[OF assms(1)] by simp_all
  have "tolower CHR '':'' = CHR '':''" "tolower CHR ''L'' = CHR ''l''" by code_simp+
  then have m: "map tolower (drop p s) = CHR '':'' # map tolower (drop (Suc p) s)"
    "CHR ''l'' \<in> set (map tolower (drop (Suc p) s))"
    using d assms(2) by (auto simp: rev_image_eqI)
  have n: "takeWhile (\<lambda>c. c \<noteq> CHR 0x00) (lower_pattern s) = lower_pattern s"
    using lower_pattern_nul[OF assms(3)] by (auto simp: takeWhile_eq_all_conv)
  assume v: "validateNDB S (lower_pattern s) = Done True"
  have f: "find_char CHR '':'' (lower_pattern s) = Some p"
    unfolding l m(1) by (rule find_char_prefix[OF assms(1)])
  have r: "drop (Suc p) (lower_pattern s) = map tolower (drop (Suc p) s)"
    unfolding l m(1) using pl by simp
  have "list_all pattern_char (map tolower (drop (Suc p) s))"
    using v unfolding validateNDB_def n Let_def f by (auto simp: andthen_Done r)
  then have "pattern_char CHR ''l''" using m(2) by (auto simp: list_all_iff)
  moreover have "\<not> pattern_char CHR ''l''" by code_simp
  ultimately show False by blast
qed

end
