(* ===== verification/BC_Intrinsics.thy ===== *)
theory BC_Intrinsics
  imports BC_CallGraph
begin

unbundle bit_operations_syntax

text \<open>
  The passes that replace what the interpreter of bytecodes does not have: intrinsics for
  minimum and maximum (\<^verbatim>\<open>ClamBCRemoveUnsupportedICMPIntrinsics.cpp\<close>), saturating subtraction
  (\<^verbatim>\<open>ClamBCRemoveUSUB.cpp\<close>) and funnel shifts (\<^verbatim>\<open>ClamBCRemoveFSHL.cpp\<close>), and the signed comparison
  with less or equal (\<^verbatim>\<open>ClamBCRemoveICMPSLE.cpp\<close>). The calls are redirected to functions that the
  passes generate; the theorems are that these functions compute the intrinsics, for all
  arguments, and that no call of a replaced intrinsic is left.
\<close>

section \<open>Calls of intrinsics\<close>

text \<open>\<^verbatim>\<open>gatherCallsToIntrinsic\<close>: which instructions call the intrinsic of a given name.\<close>

fun calls_intrinsic :: "string \<Rightarrow> BC_IR.kind \<Rightarrow> bool" where
  "calls_intrinsic name (Call c as) = (fn_intrinsic c \<noteq> None \<and> fn_name c = name)"
| "calls_intrinsic name k = False"

definition gatherCallsToIntrinsic :: "string \<Rightarrow> mfunction list \<Rightarrow> inst list" where
  "gatherCallsToIntrinsic name fs = concat (map (\<lambda>f.
     if mf_isDeclaration f then [] else filter (\<lambda>i. calls_intrinsic name (inst_kind i)) (f_insts (mf_body f))) fs)"

text \<open>
  \<^verbatim>\<open>replaceAllCalls\<close>: a call of the new function with the same arguments takes the place of each
  call; it keeps the number, so that its uses are uses of the new call. Creating a call whose
  arguments do not have the types of the parameters fails an assertion of LLVM.
\<close>

definition function_callee :: "mfunction \<Rightarrow> callee" where
  "function_callee h = \<lparr>fn_name = mf_name h, fn_ty = mf_ty h, fn_isDeclaration = False, fn_isVarArg = False,
     fn_sameCallingConv = True, fn_intrinsic = None, fn_arg_size = length (f_args (mf_body h))\<rparr>"

fun call_args :: "BC_IR.kind \<Rightarrow> val list" where
  "call_args (Call c as) = as"
| "call_args k = []"

definition replace_call :: "string \<Rightarrow> mfunction \<Rightarrow> inst \<Rightarrow> inst" where
  "replace_call name h i = (if calls_intrinsic name (inst_kind i)
     then \<lparr>inst_id = inst_id i, inst_ty = f_ret (mf_body h),
       inst_kind = Call (function_callee h) (call_args (inst_kind i))\<rparr> else i)"

definition well_typed_call :: "mfunction \<Rightarrow> inst \<Rightarrow> bool" where
  "well_typed_call h i \<longleftrightarrow> map val_ty (call_args (inst_kind i)) = f_args (mf_body h)"

definition map_function :: "(inst \<Rightarrow> inst) \<Rightarrow> mfunction \<Rightarrow> mfunction" where
  "map_function g f = (if mf_isDeclaration f then f
     else f\<lparr>mf_body := (mf_body f)\<lparr>f_blocks := map (map g) (f_blocks (mf_body f))\<rparr>\<rparr>)"

definition replaceAllCalls :: "string \<Rightarrow> mfunction \<Rightarrow> mfunction list \<Rightarrow> mfunction list compiled" where
  "replaceAllCalls name h fs = (if list_all (well_typed_call h) (gatherCallsToIntrinsic name fs)
     then Done (map (map_function (replace_call name h)) fs) else Crash)"

text \<open>\<^verbatim>\<open>replaceCalls\<close>: the new function goes to the end of the module; without calls nothing is done.\<close>

definition replaceCalls :: "string \<Rightarrow> mfunction compiled \<Rightarrow> mfunction list \<Rightarrow> mfunction list compiled" where
  "replaceCalls name helper fs =
     (if gatherCallsToIntrinsic name fs = [] then Done fs
      else andthen helper (\<lambda>h. andthen (replaceAllCalls name h fs) (\<lambda>fs'. Done (fs' @ [h]))))"

section \<open>The generated functions\<close>

definition new_function :: "string \<Rightarrow> ty list \<Rightarrow> ty \<Rightarrow> inst list list \<Rightarrow> mfunction" where
  "new_function name ps r bs = \<lparr>mf_ty = FunTy r ps False, mf_isDeclaration = False, mf_unused = False,
     mf_body = \<lparr>f_name = name, f_args = ps, f_ret = r, f_structRet = False, f_blocks = bs\<rparr>\<rparr>"

abbreviation an_inst :: "nat \<Rightarrow> ty \<Rightarrow> BC_IR.kind \<Rightarrow> inst" where
  "an_inst n t k \<equiv> \<lparr>inst_id = n, inst_ty = t, inst_kind = k\<rparr>"

text \<open>
  Minimum and maximum: a slot for the result, a comparison, and one block for each outcome.
\<close>

definition addFunction_icmp :: "ty \<Rightarrow> string \<Rightarrow> pred \<Rightarrow> mfunction" where
  "addFunction_icmp t name p = (let slot = VInst (PtrTy t) 0 in new_function name [t, t] t
     [[an_inst 0 (PtrTy t) (Alloca t (VConst (IntTy 32) (KInt 32 1))),
       an_inst 1 (IntTy 1) (ICmp p (VArg t 0) (VArg t 1)),
       an_inst 2 VoidTy (CondBr (VInst (IntTy 1) 1) 1 2)],
      [an_inst 3 VoidTy (Store (VArg t 0) slot), an_inst 4 VoidTy (Br 3)],
      [an_inst 5 VoidTy (Store (VArg t 1) slot), an_inst 6 VoidTy (Br 3)],
      [an_inst 7 t (Load slot), an_inst 8 VoidTy (Return (Some (VInst t 7)))]])"

definition addUSUB :: "nat \<Rightarrow> mfunction" where
  "addUSUB w = (let t = IntTy w; slot = VInst (PtrTy t) 0 in new_function ''.usub'' [t, t] t
     [[an_inst 0 (PtrTy t) (Alloca t (VConst (IntTy 32) (KInt 32 1))),
       an_inst 1 (IntTy 1) (ICmp ICMP_UGT (VArg t 0) (VArg t 1)),
       an_inst 2 VoidTy (CondBr (VInst (IntTy 1) 1) 1 2)],
      [an_inst 3 t (Binary Sub (VArg t 0) (VArg t 1)),
       an_inst 4 VoidTy (Store (VInst t 3) slot), an_inst 5 VoidTy (Br 3)],
      [an_inst 6 VoidTy (Store (VConst t (KInt w 0)) slot), an_inst 7 VoidTy (Br 3)],
      [an_inst 8 t (Load slot), an_inst 9 VoidTy (Return (Some (VInst t 8)))]])"

text \<open>The funnel shift in 64 bits; for 64-bit arguments it is not implemented.\<close>

definition addFunction_fshl :: "nat \<Rightarrow> string \<Rightarrow> mfunction compiled" where
  "addFunction_fshl w name = (if w = 64 then Crash else
     let t = IntTy w; i64 = IntTy 64; bits = VConst i64 (KInt 64 w) in Done (new_function name [t, t, t] t
     [[an_inst 0 i64 (Cast ZExt (VArg t 0)),
       an_inst 1 i64 (Binary Shl (VInst i64 0) bits),
       an_inst 2 i64 (Cast ZExt (VArg t 1)),
       an_inst 3 i64 (Binary Or (VInst i64 1) (VInst i64 2)),
       an_inst 4 i64 (Cast ZExt (VArg t 2)),
       an_inst 5 i64 (Binary URem (VInst i64 4) bits),
       an_inst 6 i64 (Binary Shl (VInst i64 3) (VInst i64 5)),
       an_inst 7 i64 (Binary LShr (VInst i64 6) bits),
       an_inst 8 t (Cast Trunc (VInst i64 7)),
       an_inst 9 VoidTy (Return (Some (VInst t 8)))]]))"

section \<open>The passes\<close>

text \<open>A pass is a sequence of such replacements.\<close>

type_synonym replacement = "string \<times> mfunction compiled"

fun replace_table :: "replacement list \<Rightarrow> mfunction list \<Rightarrow> mfunction list compiled" where
  "replace_table [] fs = Done fs"
| "replace_table ((name, helper) # ts) fs = andthen (replaceCalls name helper fs) (replace_table ts)"

definition icmp_intrinsics :: "(string \<times> string \<times> pred \<times> nat) list" where
  "icmp_intrinsics =
     [(''llvm.smin.i32'', ''.smin.32'', ICMP_SLT, 32), (''llvm.smin.i16'', ''.smin.16'', ICMP_SLT, 16),
      (''llvm.umin.i16'', ''.umin.16'', ICMP_ULT, 16), (''llvm.umin.i32'', ''.umin.32'', ICMP_ULT, 32),
      (''llvm.umax.i32'', ''.umax.32'', ICMP_UGT, 32), (''llvm.umax.i16'', ''.umax.16'', ICMP_UGT, 16),
      (''llvm.smax.i32'', ''.smax.32'', ICMP_SGT, 32), (''llvm.smax.i16'', ''.smax.16'', ICMP_SGT, 16)]"

definition icmp_table :: "replacement list" where
  "icmp_table = map (\<lambda>(name, new, p, w). (name, Done (addFunction_icmp (IntTy w) new p))) icmp_intrinsics"

definition run_icmp_intrinsics :: "mfunction list \<Rightarrow> mfunction list compiled" where
  "run_icmp_intrinsics = replace_table icmp_table"

definition usub_table :: "replacement list" where
  "usub_table = [(''llvm.usub.sat.i32'', Done (addUSUB 32))]"

definition run_usub :: "mfunction list \<Rightarrow> mfunction list compiled" where
  "run_usub = replace_table usub_table"

text \<open>The third line asks for a function on 16 bits for the intrinsic on 8 bits, as the code does.\<close>

definition fshl_table :: "replacement list" where
  "fshl_table = [(''llvm.fshl.i32'', addFunction_fshl 32 ''.fshl.i32''),
     (''llvm.fshl.i16'', addFunction_fshl 16 ''.fshl.i16''), (''llvm.fshl.i8'', addFunction_fshl 16 ''.fshl.i8'')]"

definition run_fshl :: "mfunction list \<Rightarrow> mfunction list compiled" where
  "run_fshl = replace_table fshl_table"

text \<open>\<^verbatim>\<open>swapOperands\<close> exchanges the operands and mirrors the predicate.\<close>

fun swapped :: "pred \<Rightarrow> pred" where
  "swapped ICMP_UGT = ICMP_ULT" | "swapped ICMP_ULT = ICMP_UGT"
| "swapped ICMP_UGE = ICMP_ULE" | "swapped ICMP_ULE = ICMP_UGE"
| "swapped ICMP_SGT = ICMP_SLT" | "swapped ICMP_SLT = ICMP_SGT"
| "swapped ICMP_SGE = ICMP_SLE" | "swapped ICMP_SLE = ICMP_SGE"
| "swapped p = p"

fun swapOperands :: "BC_IR.kind \<Rightarrow> BC_IR.kind" where
  "swapOperands (ICmp p a b) = ICmp (swapped p) b a"
| "swapOperands k = k"

fun is_sle :: "BC_IR.kind \<Rightarrow> bool" where
  "is_sle (ICmp p a b) = (p = ICMP_SLE)"
| "is_sle k = False"

definition run_icmp_sle :: "mfunction list \<Rightarrow> mfunction list" where
  "run_icmp_sle = map (map_function (\<lambda>i. if is_sle (inst_kind i)
     then i\<lparr>inst_kind := swapOperands (inst_kind i)\<rparr> else i))"

section \<open>Execution\<close>

text \<open>
  Integers of \<open>w\<close> bits are their unsigned values. A result is missing where LLVM leaves it
  undefined and for what the generated functions do not use.
\<close>

definition signed :: "nat \<Rightarrow> nat \<Rightarrow> int" where
  "signed w a = signed_take_bit (w - 1) (int a)"

fun pred_value :: "pred \<Rightarrow> nat \<Rightarrow> nat \<Rightarrow> nat \<Rightarrow> bool" where
  "pred_value ICMP_EQ w a b = (a = b)" | "pred_value ICMP_NE w a b = (a \<noteq> b)"
| "pred_value ICMP_UGT w a b = (a > b)" | "pred_value ICMP_UGE w a b = (a \<ge> b)"
| "pred_value ICMP_ULT w a b = (a < b)" | "pred_value ICMP_ULE w a b = (a \<le> b)"
| "pred_value ICMP_SGT w a b = (signed w a > signed w b)" | "pred_value ICMP_SGE w a b = (signed w a \<ge> signed w b)"
| "pred_value ICMP_SLT w a b = (signed w a < signed w b)" | "pred_value ICMP_SLE w a b = (signed w a \<le> signed w b)"
| "pred_value BAD_PREDICATE w a b = False"

fun binop_value :: "binop \<Rightarrow> nat \<Rightarrow> nat \<Rightarrow> nat \<Rightarrow> nat option" where
  "binop_value Add w a b = Some (take_bit w (a + b))"
| "binop_value Sub w a b = Some (nat (take_bit w (int a - int b)))"
| "binop_value Or w a b = Some (a OR b)"
| "binop_value URem w a b = (if b = 0 then None else Some (a mod b))"
| "binop_value Shl w a b = (if b < w then Some (take_bit w (push_bit b a)) else None)"
| "binop_value LShr w a b = (if b < w then Some (drop_bit b a) else None)"
| "binop_value _ w a b = None"

fun width :: "ty \<Rightarrow> nat" where
  "width (IntTy w) = w"
| "width t = 0"

fun operand_value :: "nat list \<Rightarrow> (nat \<Rightarrow> nat) \<Rightarrow> val \<Rightarrow> nat option" where
  "operand_value args env (VConst t (KInt w n)) = Some n"
| "operand_value args env (VArg t k) = (if k < length args then Some (args ! k) else None)"
| "operand_value args env (VInst t k) = Some (env k)"
| "operand_value args env v = None"

definition sign_extend :: "nat \<Rightarrow> nat \<Rightarrow> nat \<Rightarrow> nat" where
  "sign_extend v w x = nat (take_bit w (signed v x))"

fun inst_value :: "nat list \<Rightarrow> (nat \<Rightarrow> nat) \<Rightarrow> ty \<Rightarrow> BC_IR.kind \<Rightarrow> nat option" where
  "inst_value args env t (Binary op a b) = Option.bind (operand_value args env a) (\<lambda>x.
     Option.bind (operand_value args env b) (\<lambda>y. binop_value op (width t) x y))"
| "inst_value args env t (Cast ZExt a) = operand_value args env a"
| "inst_value args env t (Cast SExt a) =
     map_option (sign_extend (width (val_ty a)) (width t)) (operand_value args env a)"
| "inst_value args env t (Cast Trunc a) = map_option (take_bit (width t)) (operand_value args env a)"
| "inst_value args env t (ICmp p a b) = Option.bind (operand_value args env a) (\<lambda>x.
     map_option (\<lambda>y. of_bool (pred_value p (width (val_ty a)) x y)) (operand_value args env b))"
| "inst_value args env t k = None"

datatype progress = Goes nat | Returns nat

text \<open>A block, with the values of instructions and the contents of slots.\<close>

fun run_insts :: "nat list \<Rightarrow> inst list \<Rightarrow> (nat \<Rightarrow> nat) \<Rightarrow> (nat \<Rightarrow> nat)
    \<Rightarrow> (progress \<times> (nat \<Rightarrow> nat) \<times> (nat \<Rightarrow> nat)) option" where
  "run_insts args [] env slots = None"
| "run_insts args (i # is) env slots = (case inst_kind i of
     Alloca t n \<Rightarrow> run_insts args is env slots
   | Load (VInst t s) \<Rightarrow> run_insts args is (env(inst_id i := slots s)) slots
   | Store v (VInst t s) \<Rightarrow>
       Option.bind (operand_value args env v) (\<lambda>x. run_insts args is env (slots(s := x)))
   | Br b \<Rightarrow> Some (Goes b, env, slots)
   | CondBr c a b \<Rightarrow> map_option (\<lambda>x. (Goes (if x \<noteq> 0 then a else b), env, slots)) (operand_value args env c)
   | Return (Some v) \<Rightarrow> map_option (\<lambda>x. (Returns x, env, slots)) (operand_value args env v)
   | k \<Rightarrow> Option.bind (inst_value args env (inst_ty i) k) (\<lambda>x. run_insts args is (env(inst_id i := x)) slots))"

fun run_blocks :: "nat \<Rightarrow> nat list \<Rightarrow> inst list list \<Rightarrow> nat \<Rightarrow> (nat \<Rightarrow> nat) \<Rightarrow> (nat \<Rightarrow> nat) \<Rightarrow> nat option" where
  "run_blocks 0 args bs b env slots = None"
| "run_blocks (Suc fuel) args bs b env slots =
     (if b < length bs then
        (case run_insts args (bs ! b) env slots of
           None \<Rightarrow> None
         | Some (Returns x, _) \<Rightarrow> Some x
         | Some (Goes c, env, slots) \<Rightarrow> run_blocks fuel args bs c env slots)
      else None)"

text \<open>The generated functions have no loops: a step for every block is enough.\<close>

definition run_function :: "mfunction \<Rightarrow> nat list \<Rightarrow> nat option" where
  "run_function f args = (let bs = f_blocks (mf_body f) in
     run_blocks (length bs) args bs 0 (\<lambda>_. 0) (\<lambda>_. 0))"

section \<open>What the generated functions compute\<close>

lemma run_icmp_function:
  "run_function (addFunction_icmp (IntTy w) name p) [a, b] = Some (if pred_value p w a b then a else b)"
  by (simp add: run_function_def addFunction_icmp_def new_function_def Let_def eval_nat_numeral)

lemma run_usub_function:
  assumes "a < 2 ^ w" "b < 2 ^ w"
  shows "run_function (addUSUB w) [a, b] = Some (a - b)"
proof -
  have "nat (take_bit w (int a - int b)) = a - b" if "b < a"
  proof -
    have "int a - int b = int (a - b)" using that by simp
    moreover have "take_bit w (a - b) = a - b" using assms(1) by (intro take_bit_nat_eq_self) simp
    ultimately show ?thesis by (simp only: of_nat_take_bit [symmetric] nat_int)
  qed
  then show ?thesis
    by (simp add: run_function_def addUSUB_def new_function_def Let_def eval_nat_numeral)
qed

text \<open>The funnel shift: the upper part of the two words one after the other, shifted to the left.\<close>

definition fshl :: "nat \<Rightarrow> nat \<Rightarrow> nat \<Rightarrow> nat \<Rightarrow> nat" where
  "fshl w a b s = take_bit w (push_bit (s mod w) a) OR drop_bit (w - s mod w) b"

lemma bit_below: "b < 2 ^ w \<Longrightarrow> bit (b :: nat) n \<Longrightarrow> n < w"
  by (metis bit_take_bit_iff take_bit_nat_eq_self)

lemma fshl_in_64_bits:
  fixes a b :: nat
  assumes "0 < w" "w \<le> 32" "b < 2 ^ w" "k < w"
  shows "take_bit w (drop_bit w (take_bit 64 (push_bit k (take_bit 64 (push_bit w a) OR b))))
    = take_bit w (push_bit k a) OR drop_bit (w - k) b"
proof (rule bit_eqI)
  fix n
  have shift: "k \<le> w + n" "w + n - k - w = n - k" "w \<le> w + n - k \<longleftrightarrow> k \<le> n" "w - k + n = w + n - k"
    using assms(4) by auto
  show "bit (take_bit w (drop_bit w (take_bit 64 (push_bit k (take_bit 64 (push_bit w a) OR b))))) n
    = bit (take_bit w (push_bit k a) OR drop_bit (w - k) b) n"
    using assms shift bit_below[OF assms(3), of "w + n - k"]
    by (auto simp: bit_simps)
qed

lemma run_fshl_function:
  assumes "0 < w" "w \<le> 32" "b < 2 ^ w" "addFunction_fshl w name = Done h"
  shows "run_function h [a, b, s] = Some (fshl w a b s)"
proof -
  have "s mod w < w" "s mod w < 64" using mod_less_divisor[OF assms(1), of s] assms(2) by linarith+
  then show ?thesis
    using assms fshl_in_64_bits[OF assms(1-3), of "s mod w" a]
    by (auto simp: run_function_def addFunction_fshl_def new_function_def Let_def fshl_def)
qed

section \<open>What the intrinsics mean\<close>

text \<open>
  The documented results: minimum and maximum of the signed and the unsigned values, the
  difference or 0, the funnel shift. The last part of a name is the width of the arguments.
\<close>

definition smin :: "nat \<Rightarrow> nat \<Rightarrow> nat \<Rightarrow> nat" where
  "smin w a b = (if signed w a \<le> signed w b then a else b)"

definition smax :: "nat \<Rightarrow> nat \<Rightarrow> nat \<Rightarrow> nat" where
  "smax w a b = (if signed w a \<le> signed w b then b else a)"

definition two_args :: "(nat \<Rightarrow> nat \<Rightarrow> nat) \<Rightarrow> nat list \<Rightarrow> nat option" where
  "two_args f vs = (case vs of [a, b] \<Rightarrow> Some (f a b) | _ \<Rightarrow> None)"

definition three_args :: "(nat \<Rightarrow> nat \<Rightarrow> nat \<Rightarrow> nat) \<Rightarrow> nat list \<Rightarrow> nat option" where
  "three_args f vs = (case vs of [a, b, c] \<Rightarrow> Some (f a b c) | _ \<Rightarrow> None)"

definition intrinsic_table :: "(string \<times> nat \<times> nat \<times> (nat list \<Rightarrow> nat option)) list" where
  "intrinsic_table =
     [(''llvm.smin.i32'', 32, 2, two_args (smin 32)), (''llvm.smin.i16'', 16, 2, two_args (smin 16)),
      (''llvm.umin.i16'', 16, 2, two_args min), (''llvm.umin.i32'', 32, 2, two_args min),
      (''llvm.umax.i32'', 32, 2, two_args max), (''llvm.umax.i16'', 16, 2, two_args max),
      (''llvm.smax.i32'', 32, 2, two_args (smax 32)), (''llvm.smax.i16'', 16, 2, two_args (smax 16)),
      (''llvm.usub.sat.i32'', 32, 2, two_args (\<lambda>a b. a - b)),
      (''llvm.fshl.i32'', 32, 3, three_args (fshl 32)), (''llvm.fshl.i16'', 16, 3, three_args (fshl 16)),
      (''llvm.fshl.i8'', 8, 3, three_args (fshl 8))]"

definition all_replacements :: "replacement list" where
  "all_replacements = icmp_table @ usub_table @ fshl_table"

lemma signed_inj: "0 < w \<Longrightarrow> a < 2 ^ w \<Longrightarrow> b < 2 ^ w \<Longrightarrow> signed w a = signed w b \<longleftrightarrow> a = b"
proof -
  assume "0 < w" "a < 2 ^ w" "b < 2 ^ w"
  then have "take_bit w (int a) = int a" "take_bit w (int b) = int b"
    by (simp_all flip: of_nat_take_bit add: take_bit_nat_eq_self)
  moreover have "take_bit w (signed w x) = take_bit w (int x)" for x
    using \<open>0 < w\<close> by (simp add: signed_def take_bit_signed_take_bit)
  ultimately show ?thesis by (metis of_nat_eq_iff)
qed

lemma smin_signed: "signed w (smin w a b) = min (signed w a) (signed w b)"
  by (simp add: smin_def)

lemma smax_signed: "signed w (smax w a b) = max (signed w a) (signed w b)"
  by (simp add: smax_def)

text \<open>The helper of an entry computes the intrinsic on arguments of its width.\<close>

definition fits :: "nat \<Rightarrow> nat list \<Rightarrow> bool" where
  "fits w vs \<longleftrightarrow> list_all (\<lambda>v. v < 2 ^ w) vs"

definition computes :: "mfunction \<Rightarrow> nat \<Rightarrow> nat \<Rightarrow> (nat list \<Rightarrow> nat option) \<Rightarrow> bool" where
  "computes h w n f \<longleftrightarrow> (\<forall>vs. length vs = n \<longrightarrow> fits w vs \<longrightarrow> run_function h vs = f vs)"

lemma length_two: "length vs = 2 \<longleftrightarrow> (\<exists>a b. vs = [a, b])"
  by (auto simp: length_Suc_conv eval_nat_numeral)

lemma length_three: "length vs = 3 \<longleftrightarrow> (\<exists>a b c. vs = [a, b, c])"
  by (auto simp: length_Suc_conv eval_nat_numeral)

lemma icmp_computes:
  "0 < w \<Longrightarrow> computes (addFunction_icmp (IntTy w) name ICMP_SLT) w 2 (two_args (smin w))"
  "0 < w \<Longrightarrow> computes (addFunction_icmp (IntTy w) name ICMP_SGT) w 2 (two_args (smax w))"
  "computes (addFunction_icmp (IntTy w) name ICMP_ULT) w 2 (two_args min)"
  "computes (addFunction_icmp (IntTy w) name ICMP_UGT) w 2 (two_args max)"
  using signed_inj[of w]
  by (auto simp: computes_def length_two two_args_def run_icmp_function smin_def smax_def min_def max_def
      fits_def order_le_less)

lemma usub_computes: "computes (addUSUB w) w 2 (two_args (\<lambda>a b. a - b))"
  by (auto simp: computes_def length_two two_args_def run_usub_function fits_def)

lemma fshl_computes:
  "0 < w \<Longrightarrow> w \<le> 32 \<Longrightarrow> addFunction_fshl w name = Done h \<Longrightarrow> computes h w 3 (three_args (fshl w))"
  by (auto simp: computes_def length_three three_args_def run_fshl_function fits_def)

section \<open>The passes redirect the calls\<close>

text \<open>
  An entry of a table: its name is that of an intrinsic, and a helper with parameters of the
  right types computes it. Helpers are defined and call nothing.
\<close>

definition call_free :: "mfunction \<Rightarrow> bool" where
  "call_free h \<longleftrightarrow> \<not> mf_isDeclaration h
     \<and> list_all (\<lambda>i. case inst_kind i of Call c as \<Rightarrow> False | _ \<Rightarrow> True) (f_insts (mf_body h))"

definition entry_ok :: "replacement \<Rightarrow> bool" where
  "entry_ok e \<longleftrightarrow> (\<forall>h. snd e = Done h \<longrightarrow> call_free h \<and> (\<forall>w n f. (fst e, w, n, f) \<in> set intrinsic_table
     \<longrightarrow> f_args (mf_body h) = replicate n (IntTy w) \<longrightarrow> computes h w n f))"

lemma call_free_helpers [simp]:
  "call_free (addFunction_icmp t name p)" "call_free (addUSUB w)"
  "addFunction_fshl w name = Done h \<Longrightarrow> call_free h"
  by (auto simp: call_free_def addFunction_icmp_def addUSUB_def addFunction_fshl_def new_function_def
      f_insts_def Let_def split: if_splits)

lemma helper_args [simp]:
  "f_args (mf_body (addFunction_icmp t name p)) = [t, t]" "f_args (mf_body (addUSUB w)) = [IntTy w, IntTy w]"
  "addFunction_fshl w name = Done h \<Longrightarrow> f_args (mf_body h) = [IntTy w, IntTy w, IntTy w]"
  by (auto simp: addFunction_icmp_def addUSUB_def addFunction_fshl_def new_function_def Let_def split: if_splits)

lemma replicate_small [simp]: "replicate 2 x = [x, x]" "replicate 3 x = [x, x, x]"
  by (simp_all add: eval_nat_numeral)

lemma entries_ok: "\<forall>e \<in> set all_replacements. entry_ok e"
  by (simp add: all_replacements_def icmp_table_def icmp_intrinsics_def usub_table_def fshl_table_def entry_ok_def
      intrinsic_table_def icmp_computes usub_computes fshl_computes)

text \<open>What a table makes of one instruction.\<close>

fun redirect :: "replacement list \<Rightarrow> inst \<Rightarrow> inst" where
  "redirect [] i = i"
| "redirect ((name, helper) # ts) i =
     redirect ts (case helper of Done h \<Rightarrow> replace_call name h i | _ \<Rightarrow> i)"

lemma redirect_other: "\<forall>e \<in> set ts. \<not> calls_intrinsic (fst e) (inst_kind i) \<Longrightarrow> redirect ts i = i"
  by (induction ts i rule: redirect.induct) (auto simp: replace_call_def split: compiled.splits)

lemma replaced_not_intrinsic [simp]:
  "calls_intrinsic name (inst_kind i) \<Longrightarrow> \<not> calls_intrinsic name' (inst_kind (replace_call name h i))"
  by (simp add: replace_call_def function_callee_def)

lemma map_function_comp: "map_function g (map_function h f) = map_function (g \<circ> h) f"
  by (simp add: map_function_def)

lemma map_function_cong:
  "(\<And>i. \<not> mf_isDeclaration f \<Longrightarrow> i \<in> set (f_insts (mf_body f)) \<Longrightarrow> g i = h i) \<Longrightarrow> map_function g f = map_function h f"
proof -
  assume g: "\<And>i. \<not> mf_isDeclaration f \<Longrightarrow> i \<in> set (f_insts (mf_body f)) \<Longrightarrow> g i = h i"
  have "map (map g) (f_blocks (mf_body f)) = map (map h) (f_blocks (mf_body f))" if "\<not> mf_isDeclaration f"
    using g[OF that] by (auto simp: f_insts_def)
  then show ?thesis by (auto simp: map_function_def)
qed

lemma map_function_id: "map_function (\<lambda>i. i) f = f"
  by (simp add: map_function_def)

lemma map_call_free: "call_free h \<Longrightarrow> map_function (redirect ts) h = h"
proof -
  assume h: "call_free h"
  have "redirect ts i = i" if "i \<in> set (f_insts (mf_body h))" for i
    using h that by (intro redirect_other) (cases "inst_kind i"; auto simp: call_free_def list_all_iff)
  then show ?thesis using map_function_cong[of h "redirect ts" "\<lambda>i. i"] map_function_id by simp
qed

definition defined_insts :: "mfunction list \<Rightarrow> inst set" where
  "defined_insts fs = (\<Union>f \<in> {f \<in> set fs. \<not> mf_isDeclaration f}. set (f_insts (mf_body f)))"

lemma map_function_insts [simp]:
  "\<not> mf_isDeclaration f \<Longrightarrow> f_insts (mf_body (map_function g f)) = map g (f_insts (mf_body f))"
  "mf_isDeclaration (map_function g f) = mf_isDeclaration f"
  by (simp_all add: map_function_def f_insts_def map_concat)

lemma defined_insts_image: "i \<in> defined_insts fs \<Longrightarrow> g i \<in> defined_insts (map (map_function g) fs @ hs)"
  by (fastforce simp: defined_insts_def)

lemma defined_insts_map:
  "i \<in> defined_insts (map (map_function g) fs @ hs) \<Longrightarrow> (\<exists>j \<in> defined_insts fs. i = g j) \<or> i \<in> defined_insts hs"
  by (fastforce simp: defined_insts_def)

lemma gather_set: "set (gatherCallsToIntrinsic name fs) = {i \<in> defined_insts fs. calls_intrinsic name (inst_kind i)}"
  by (auto simp: gatherCallsToIntrinsic_def defined_insts_def split: if_splits)

text \<open>How one replacement changes a module.\<close>

lemma replaceCalls_Done:
  assumes "replaceCalls name helper fs = Done fs'"
  obtains "fs' = fs" "\<forall>i \<in> defined_insts fs. \<not> calls_intrinsic name (inst_kind i)"
  | h where "helper = Done h" "fs' = map (map_function (replace_call name h)) fs @ [h]"
    "\<forall>i \<in> defined_insts fs. calls_intrinsic name (inst_kind i) \<longrightarrow> well_typed_call h i"
proof (cases "gatherCallsToIntrinsic name fs = []")
  case True
  then show ?thesis using assms that(1) gather_set[of name fs] by (auto simp: replaceCalls_def)
next
  case False
  then show ?thesis using assms that(2) gather_set[of name fs]
    by (auto simp: replaceCalls_def replaceAllCalls_def list_all_iff split: if_splits compiled.splits
        elim!: andthen.elims)
qed

text \<open>How an instruction and its image under a pass are related.\<close>

definition redirected :: "replacement list \<Rightarrow> mfunction set \<Rightarrow> inst \<Rightarrow> inst \<Rightarrow> bool" where
  "redirected ts hs i i' \<longleftrightarrow>
     (if \<exists>e \<in> set ts. calls_intrinsic (fst e) (inst_kind i)
      then \<exists>e \<in> set ts. \<exists>h \<in> hs. snd e = Done h \<and> calls_intrinsic (fst e) (inst_kind i)
        \<and> well_typed_call h i \<and> i' = replace_call (fst e) h i
      else i' = i)"

lemma redirected_mono:
  "\<not> calls_intrinsic name (inst_kind i) \<Longrightarrow> redirected ts hs i i' \<Longrightarrow> redirected ((name, helper) # ts) (insert h hs) i i'"
  by (auto simp: redirected_def split: if_splits)

lemma replace_table_Done:
  assumes "replace_table ts fs = Done fs'" "\<forall>e \<in> set ts. \<forall>h. snd e = Done h \<longrightarrow> call_free h"
  shows "\<exists>hs. fs' = map (map_function (redirect ts)) fs @ hs \<and> (\<forall>h \<in> set hs. call_free h)
    \<and> (\<forall>i \<in> defined_insts fs. redirected ts (set hs) i (redirect ts i))"
  using assms
proof (induction ts arbitrary: fs)
  case Nil
  have "redirect [] = (\<lambda>i. i)" by (rule ext) simp
  then have "map (map_function (redirect [])) fs = fs" by (simp add: map_function_id map_idI)
  then show ?case using Nil by (intro exI[of _ "[]"]) (simp add: redirected_def del: redirect.simps, simp)
next
  case (Cons e ts)
  obtain name helper where e: "e = (name, helper)" by (cases e)
  then obtain fs1 where fs1: "replaceCalls name helper fs = Done fs1" "replace_table ts fs1 = Done fs'"
    using Cons.prems(1) by (cases "replaceCalls name helper fs") auto
  have free: "\<forall>e \<in> set ts. \<forall>h. snd e = Done h \<longrightarrow> call_free h" using Cons.prems(2) by simp
  obtain hs where hs: "fs' = map (map_function (redirect ts)) fs1 @ hs" "\<forall>h \<in> set hs. call_free h"
    "\<forall>i \<in> defined_insts fs1. redirected ts (set hs) i (redirect ts i)"
    using Cons.IH[OF fs1(2) free] by blast
  from fs1(1) show ?case
  proof (cases rule: replaceCalls_Done)
    case 1
    have same: "redirect (e # ts) i = redirect ts i" if "i \<in> defined_insts fs" for i
      using 1(2) that by (auto simp: e replace_call_def split: compiled.splits)
    then have "map (map_function (redirect (e # ts))) fs = map (map_function (redirect ts)) fs"
      by (auto intro!: map_function_cong simp: defined_insts_def simp del: redirect.simps)
    moreover have "redirected (e # ts) (set hs) i (redirect (e # ts) i)" if "i \<in> defined_insts fs" for i
      using hs(3) 1 that same[OF that] by (auto simp: redirected_def e simp del: redirect.simps split: if_splits)
    ultimately show ?thesis using hs 1 by auto
  next
    case (2 h)
    have h: "call_free h" using Cons.prems(2) e 2(1) by simp
    have step: "redirect (e # ts) = redirect ts \<circ> replace_call name h"
      using 2(1) by (simp add: e fun_eq_iff)
    have fs': "fs' = map (map_function (redirect (e # ts))) fs @ h # hs"
      using hs(1) 2(2) map_call_free[OF h] by (simp add: step map_function_comp)
    have "redirected (e # ts) (set (h # hs)) i (redirect (e # ts) i)" if i: "i \<in> defined_insts fs" for i
    proof (cases "calls_intrinsic name (inst_kind i)")
      case True
      then have "redirect (e # ts) i = replace_call name h i"
        by (simp add: step) (rule redirect_other, simp)
      then show ?thesis using True 2 i by (auto simp: redirected_def e)
    next
      case False
      then have "replace_call name h i = i" by (simp add: replace_call_def)
      moreover have "i \<in> defined_insts fs1"
        using defined_insts_image[OF i, of "replace_call name h" "[h]"] unfolding 2(2) \<open>replace_call name h i = i\<close> .
      moreover have "redirect (e # ts) i = redirect ts i"
        by (simp add: step \<open>replace_call name h i = i\<close> del: redirect.simps)
      ultimately show ?thesis using redirected_mono[of name i ts "set hs" "redirect ts i" helper h] hs(3) False
        by (simp add: e del: redirect.simps)
    qed
    then show ?thesis using fs' hs(2) h by (intro exI[of _ "h # hs"]) auto
  qed
qed

text \<open>The three passes follow each other in the pipeline of the compiler.\<close>

definition remove_intrinsics :: "mfunction list \<Rightarrow> mfunction list compiled" where
  "remove_intrinsics fs = andthen (run_icmp_intrinsics fs) (\<lambda>fs. andthen (run_usub fs) run_fshl)"

lemma replace_table_append:
  "replace_table (ts @ us) fs = andthen (replace_table ts fs) (replace_table us)"
proof (induction ts arbitrary: fs)
  case (Cons e ts)
  then show ?case by (cases e; cases "replaceCalls (fst e) (snd e) fs") auto
qed simp

lemma remove_intrinsics_table: "remove_intrinsics fs = replace_table all_replacements fs"
proof -
  have "replace_table (usub_table @ fshl_table)
      = (\<lambda>fs. andthen (replace_table usub_table fs) (replace_table fshl_table))"
    by (rule ext) (rule replace_table_append)
  then show ?thesis
    by (simp add: remove_intrinsics_def run_icmp_intrinsics_def run_usub_def run_fshl_def all_replacements_def
        replace_table_append)
qed

text \<open>Calls of intrinsics have arguments of the width in their name.\<close>

definition typed_intrinsics :: "mfunction list \<Rightarrow> bool" where
  "typed_intrinsics fs \<longleftrightarrow> list_all (\<lambda>f. list_all (\<lambda>i. list_all (\<lambda>(name, w, n, _).
     calls_intrinsic name (inst_kind i) \<longrightarrow> map val_ty (call_args (inst_kind i)) = replicate n (IntTy w))
     intrinsic_table) (f_insts (mf_body f))) fs"

lemma typed_intrinsicsD:
  "typed_intrinsics fs \<Longrightarrow> i \<in> defined_insts fs \<Longrightarrow> (name, w, n, f) \<in> set intrinsic_table
    \<Longrightarrow> calls_intrinsic name (inst_kind i) \<Longrightarrow> map val_ty (call_args (inst_kind i)) = replicate n (IntTy w)"
  by (fastforce simp: typed_intrinsics_def defined_insts_def list_all_iff)

lemma table_names: "fst ` set all_replacements = fst ` set intrinsic_table"
  by (simp add: all_replacements_def icmp_table_def icmp_intrinsics_def usub_table_def fshl_table_def intrinsic_table_def)

lemma call_free_not_intrinsic: "call_free h \<Longrightarrow> i \<in> set (f_insts (mf_body h)) \<Longrightarrow> \<not> calls_intrinsic name (inst_kind i)"
  by (cases "inst_kind i") (auto simp: call_free_def list_all_iff)

text \<open>
  C11: the passes for intrinsics keep the meaning of every call. When they succeed on a module
  whose intrinsics are called with arguments of their width, each call of a replaced intrinsic
  has become, in its place and with its number, a call of a generated function with the same
  arguments that returns the documented result of the intrinsic for all values of the
  arguments; all other instructions are as before, and no call of these intrinsics is left.
\<close>

theorem intrinsic_calls_redirected:
  assumes "remove_intrinsics fs = Done fs'" "typed_intrinsics fs"
  shows "\<exists>g hs. fs' = map (map_function g) fs @ hs
    \<and> (\<forall>i \<in> defined_insts fs. \<forall>(name, w, n, f) \<in> set intrinsic_table. calls_intrinsic name (inst_kind i)
        \<longrightarrow> (\<exists>h \<in> set hs. g i = replace_call name h i \<and> computes h w n f))
    \<and> (\<forall>i \<in> defined_insts fs. (\<forall>e \<in> set intrinsic_table. \<not> calls_intrinsic (fst e) (inst_kind i)) \<longrightarrow> g i = i)
    \<and> (\<forall>i \<in> defined_insts fs'. \<forall>e \<in> set intrinsic_table. \<not> calls_intrinsic (fst e) (inst_kind i))"
proof -
  let ?g = "redirect all_replacements"
  obtain hs where fs': "fs' = map (map_function ?g) fs @ hs" and free: "\<forall>h \<in> set hs. call_free h"
    and red: "\<forall>i \<in> defined_insts fs. redirected all_replacements (set hs) i (?g i)"
    using replace_table_Done[of all_replacements fs fs'] assms(1) entries_ok
    by (auto simp: remove_intrinsics_table entry_ok_def)
  have name: "calls_intrinsic a (inst_kind i) \<Longrightarrow> calls_intrinsic b (inst_kind i) \<Longrightarrow> a = b" for a b i
    by (cases "inst_kind i") auto
  have calls: "(\<exists>e \<in> set all_replacements. calls_intrinsic (fst e) k) \<longleftrightarrow> (\<exists>e \<in> set intrinsic_table. calls_intrinsic (fst e) k)" for k
    using table_names by (metis (no_types, opaque_lifting) imageE image_eqI)
  have replaced: "\<exists>h \<in> set hs. ?g i = replace_call n h i \<and> computes h w m f"
    if i: "i \<in> defined_insts fs" and t: "(n, w, m, f) \<in> set intrinsic_table" "calls_intrinsic n (inst_kind i)" for i n w m f
  proof -
    obtain e h where e: "e \<in> set all_replacements" "h \<in> set hs" "snd e = Done h" "calls_intrinsic (fst e) (inst_kind i)"
        "well_typed_call h i" "?g i = replace_call (fst e) h i"
      using red i t calls[of "inst_kind i"] unfolding redirected_def by (metis fst_conv)
    then have "fst e = n" using name t(2) by blast
    moreover have "computes h w m f"
      using entries_ok e(1,3,5) t typed_intrinsicsD[OF assms(2) i t] \<open>fst e = n\<close>
      by (auto simp: entry_ok_def well_typed_call_def)
    ultimately show ?thesis using e(2,6) by blast
  qed
  have other: "?g i = i" if "i \<in> defined_insts fs" "\<forall>e \<in> set intrinsic_table. \<not> calls_intrinsic (fst e) (inst_kind i)" for i
    using red that calls[of "inst_kind i"] by (auto simp: redirected_def)
  have none: "\<not> calls_intrinsic (fst e) (inst_kind i)" if i: "i \<in> defined_insts fs'" and e: "e \<in> set intrinsic_table" for i e
    using defined_insts_map[OF i[unfolded fs']]
  proof (elim disjE bexE)
    fix j assume j: "j \<in> defined_insts fs" "i = ?g j"
    show ?thesis
    proof (cases "\<exists>e \<in> set intrinsic_table. calls_intrinsic (fst e) (inst_kind j)")
      case True
      then obtain n w m f where "(n, w, m, f) \<in> set intrinsic_table" "calls_intrinsic n (inst_kind j)"
        by (metis prod_cases4 fst_conv)
      then show ?thesis using replaced[OF j(1)] j(2) by force
    next
      case False
      then show ?thesis using other[OF j(1)] j(2) e by simp
    qed
  next
    assume "i \<in> defined_insts hs"
    then show ?thesis using free call_free_not_intrinsic by (auto simp: defined_insts_def)
  qed
  show ?thesis using fs' replaced other none by (intro exI[of _ ?g] exI[of _ hs]) auto
qed

definition smin_call :: inst where
  "smin_call = an_inst 0 (IntTy 32) (Call \<lparr>fn_name = ''llvm.smin.i32'', fn_ty = FunTy (IntTy 32) [IntTy 32, IntTy 32] False,
     fn_isDeclaration = True, fn_isVarArg = False, fn_sameCallingConv = True, fn_intrinsic = Some I_other,
     fn_arg_size = 2\<rparr> [VArg (IntTy 32) 0, VArg (IntTy 32) 1])"

definition smin_caller :: mfunction where
  "smin_caller = new_function ''caller'' [IntTy 32, IntTy 32] (IntTy 32)
     [[smin_call, an_inst 1 VoidTy (Return (Some (VInst (IntTy 32) 0)))]]"

theorem intrinsic_calls_redirected_witness:
  "\<exists>fs'. remove_intrinsics [smin_caller] = Done fs' \<and> (\<exists>h \<in> set fs'. computes h 32 2 (two_args (smin 32)))
    \<and> (\<forall>i \<in> defined_insts fs'. \<not> calls_intrinsic ''llvm.smin.i32'' (inst_kind i))"
proof -
  have "case remove_intrinsics [smin_caller] of Done fs' \<Rightarrow> True | _ \<Rightarrow> False" by code_simp
  then obtain fs' where fs': "remove_intrinsics [smin_caller] = Done fs'" by (auto split: compiled.splits)
  have t: "typed_intrinsics [smin_caller]" by code_simp
  have i: "smin_call \<in> defined_insts [smin_caller]" "calls_intrinsic ''llvm.smin.i32'' (inst_kind smin_call)"
    by (simp_all add: defined_insts_def smin_caller_def new_function_def f_insts_def smin_call_def)
  have e: "(''llvm.smin.i32'', 32, 2, two_args (smin 32)) \<in> set intrinsic_table" by (simp add: intrinsic_table_def)
  show ?thesis using intrinsic_calls_redirected[OF fs' t] fs' i e by fastforce
qed

text \<open>
  The intrinsic on 8 bits is never replaced: its helper has parameters of 16 bits, and creating
  the call fails.
\<close>

theorem fshl_i8_crashes:
  assumes "typed_intrinsics fs" "i \<in> defined_insts fs" "calls_intrinsic ''llvm.fshl.i8'' (inst_kind i)"
  shows "replaceCalls ''llvm.fshl.i8'' (addFunction_fshl 16 ''.fshl.i8'') fs = Crash"
proof -
  have "map val_ty (call_args (inst_kind i)) = [IntTy 8, IntTy 8, IntTy 8]"
    using typed_intrinsicsD[OF assms(1,2) _ assms(3), of 8 3 "three_args (fshl 8)"]
    by (simp add: intrinsic_table_def)
  then have "\<not> well_typed_call h i" if "addFunction_fshl 16 ''.fshl.i8'' = Done h" for h
    using that by (auto simp: well_typed_call_def)
  moreover have "i \<in> set (gatherCallsToIntrinsic ''llvm.fshl.i8'' fs)" using assms(2,3) by (simp add: gather_set)
  moreover obtain h where "addFunction_fshl 16 ''.fshl.i8'' = Done h" by (simp add: addFunction_fshl_def Let_def)
  ultimately show ?thesis by (auto simp: replaceCalls_def replaceAllCalls_def list_all_iff)
qed

section \<open>Comparisons\<close>

lemma swapped_value: "pred_value (swapped p) w b a = pred_value p w a b"
  by (cases p) auto

text \<open>
  After the pass no signed comparison with less or equal is left in a defined function, and an
  exchanged comparison of operands of one type has the same value.
\<close>

theorem sle_removed:
  "i \<in> defined_insts (run_icmp_sle fs) \<Longrightarrow> \<not> is_sle (inst_kind i)"
proof -
  assume "i \<in> defined_insts (run_icmp_sle fs)"
  then obtain j where "i = (if is_sle (inst_kind j) then j\<lparr>inst_kind := swapOperands (inst_kind j)\<rparr> else j)"
    using defined_insts_map[of i _ fs "[]"] by (auto simp: run_icmp_sle_def defined_insts_def)
  then show ?thesis by (cases "inst_kind j") auto
qed

theorem swapped_comparison_value:
  assumes "val_ty a = val_ty b"
  shows "inst_value args env t (swapOperands (ICmp p a b)) = inst_value args env t (ICmp p a b)"
  using assms by (cases "operand_value args env a"; cases "operand_value args env b") (auto simp: swapped_value)

end
