(* ===== verification/BC_Verifier.thy ===== *)
theory BC_Verifier
  imports BC_LogicCompile
begin

text \<open>
  The verifier \<^verbatim>\<open>libclambcc/ClamBCVerifier.cpp\<close>, which every function passes before the logical
  signature is compiled: what it accepts exactly, that it keeps undefined values out of what it
  looks at, and what it overlooks.
\<close>

section \<open>The verifier\<close>

text \<open>
  What LLVM says of values and instructions that are not told apart in \<^theory_text>\<open>BC_IR\<close>: which other
  instructions are freeze instructions, and the function behind a cast of a called operand.
\<close>

record verifier_env =
  is_freeze :: "inst \<Rightarrow> bool"
  cast_callee :: "val \<Rightarrow> callee option"

text \<open>\<^verbatim>\<open>hasUndefsOrPoisonValues\<close>: undefined values as operands, and inside constant expressions.\<close>

fun isUndefOrPoisonValue :: "konst \<Rightarrow> bool" where
  "isUndefOrPoisonValue (KUndef t) = True"
| "isUndefOrPoisonValue k = False"

fun expr_has_undef :: "konst \<Rightarrow> bool" where
  "expr_has_undef (KExpr e t ks) = list_ex (\<lambda>k. isUndefOrPoisonValue k \<or> expr_has_undef k) ks"
| "expr_has_undef k = False"

fun operand_has_undef :: "val \<Rightarrow> bool" where
  "operand_has_undef (VConst t k) = (isUndefOrPoisonValue k \<or> expr_has_undef k)"
| "operand_has_undef v = False"

definition hasUndefsOrPoisonValues :: "inst \<Rightarrow> bool" where
  "hasUndefsOrPoisonValues i \<longleftrightarrow> list_ex operand_has_undef (operands (inst_kind i))"

text \<open>Calls; \<open>Reject\<close> is the stop for a call whose function is not known.\<close>

definition validateFunction :: "bool \<Rightarrow> bool" where
  "validateFunction vararg \<longleftrightarrow> \<not> vararg"

definition check_callee :: "callee \<Rightarrow> bool" where
  "check_callee c \<longleftrightarrow> fn_sameCallingConv c \<and> validateFunction (fn_isVarArg c)"

fun called :: "verifier_env \<Rightarrow> BC_IR.kind \<Rightarrow> callee option" where
  "called V (Call c as) = Some c"
| "called V (IndirectCall p as) = cast_callee V p"
| "called V k = None"

definition visitCallInst :: "verifier_env \<Rightarrow> BC_IR.kind \<Rightarrow> bool compiled" where
  "visitCallInst V k = (case called V k of None \<Rightarrow> Reject | Some c \<Rightarrow> Done (check_callee c))"

fun isHandled :: "verifier_env \<Rightarrow> inst \<Rightarrow> bool" where
  "isHandled V i = (case inst_kind i of
     Store v p \<Rightarrow> True | Load p \<Rightarrow> True | GetElementPtr p is \<Rightarrow> True | ICmp p a b \<Rightarrow> True
   | Return v \<Rightarrow> True | Binary op a b \<Rightarrow> True | Br b \<Rightarrow> True | CondBr c a b \<Rightarrow> True
   | Select c a b \<Rightarrow> True | Cast op a \<Rightarrow> True | Alloca t n \<Rightarrow> True | Unreachable \<Rightarrow> True
   | OtherInst vs \<Rightarrow> is_freeze V i | _ \<Rightarrow> False)"

text \<open>
  What the loop does with one instruction. A call of a debug intrinsic is a call of a declared
  function with its own calling convention, which is accepted.
\<close>

definition visit_inst :: "verifier_env \<Rightarrow> inst \<Rightarrow> bool compiled" where
  "visit_inst V i = (case inst_kind i of
     Phi ivs \<Rightarrow> Done True
   | DbgIntrinsic \<Rightarrow> Done True
   | Call c as \<Rightarrow> visitCallInst V (inst_kind i)
   | IndirectCall p as \<Rightarrow> visitCallInst V (inst_kind i)
   | InlineAsmCall t as \<Rightarrow> visitCallInst V (inst_kind i)
   | Switch v \<Rightarrow> Done False
   | _ \<Rightarrow> Done (isHandled V i))"

text \<open>
  The inner loop of \<^verbatim>\<open>walk\<close> over a block, with the variable \<^verbatim>\<open>bRet\<close>; \<open>Done None\<close> is the return from
  the whole function, and a refused instruction only ends the block.
\<close>

fun walk_insts :: "verifier_env \<Rightarrow> inst list \<Rightarrow> bool \<Rightarrow> bool option compiled" where
  "walk_insts V [] bRet = Done (Some bRet)"
| "walk_insts V (i # is) bRet =
     (if hasUndefsOrPoisonValues i then Done None
      else andthen (visit_inst V i) (\<lambda>b. if b then walk_insts V is True else Done (Some False)))"

fun walk_blocks :: "verifier_env \<Rightarrow> inst list list \<Rightarrow> bool \<Rightarrow> bool compiled" where
  "walk_blocks V [] bRet = Done bRet"
| "walk_blocks V (is # bs) bRet = andthen (walk_insts V is bRet) (\<lambda>r.
     case r of None \<Rightarrow> Done False | Some b \<Rightarrow> walk_blocks V bs b)"

definition walk :: "verifier_env \<Rightarrow> bfunction \<Rightarrow> bool compiled" where
  "walk V f = walk_blocks V (f_blocks f) True"

fun isVarArg :: "ty \<Rightarrow> bool" where
  "isVarArg (FunTy r ps va) = va"
| "isVarArg t = False"

definition run_verifier :: "verifier_env \<Rightarrow> mfunction \<Rightarrow> unit compiled" where
  "run_verifier V f = (if \<not> validateFunction (isVarArg (mf_ty f)) then Reject
     else andthen (walk V (mf_body f)) (\<lambda>ok. if ok then Done () else Reject))"

section \<open>What is accepted\<close>

text \<open>The instructions of a block that are looked at: up to the first that is refused.\<close>

fun looked_at :: "verifier_env \<Rightarrow> inst list \<Rightarrow> inst list" where
  "looked_at V [] = []"
| "looked_at V (i # is) = i # (if visit_inst V i = Done True then looked_at V is else [])"

text \<open>A block passes if nothing in it is refused, and is tolerated if at least no undefined value
  is met before something is refused and no call is unknown.\<close>

definition tolerated :: "verifier_env \<Rightarrow> inst list \<Rightarrow> bool" where
  "tolerated V is \<longleftrightarrow> list_all (\<lambda>i. \<not> hasUndefsOrPoisonValues i \<and> visit_inst V i \<noteq> Reject) (looked_at V is)"

definition passes :: "verifier_env \<Rightarrow> inst list \<Rightarrow> bool" where
  "passes V is \<longleftrightarrow> list_all (\<lambda>i. \<not> hasUndefsOrPoisonValues i \<and> visit_inst V i = Done True) is"

lemma visit_inst_no_crash: "visit_inst V i \<noteq> Crash"
  by (auto simp: visit_inst_def visitCallInst_def split: BC_IR.kind.splits option.splits)

lemma passes_tolerated: "passes V is \<Longrightarrow> tolerated V is"
  by (induction "is") (auto simp: passes_def tolerated_def)

lemma walk_insts_iff:
  "walk_insts V is b = Done (Some r) \<longleftrightarrow> tolerated V is \<and> r = (if is = [] then b else passes V is)"
proof (induction "is" arbitrary: b)
  case Nil
  then show ?case by (auto simp: tolerated_def)
next
  case (Cons i "is")
  show ?case
  proof (cases "visit_inst V i")
    case (Done v)
    then show ?thesis using Cons passes_tolerated[of V "is"]
      by (cases v) (auto simp: tolerated_def passes_def)
  qed (use visit_inst_no_crash[of V i] in \<open>auto simp: tolerated_def\<close>)
qed

lemma walk_blocks_iff:
  "walk_blocks V bs b = Done True \<longleftrightarrow> (\<forall>is \<in> set bs. tolerated V is)
     \<and> (case filter (\<lambda>is. is \<noteq> []) bs of [] \<Rightarrow> b | bs' \<Rightarrow> passes V (last bs'))"
proof (induction bs arbitrary: b)
  case (Cons "is" bs)
  show ?case
  proof (cases "\<exists>r. walk_insts V is b = Done (Some r)")
    case True
    then obtain r where r: "walk_insts V is b = Done (Some r)" by blast
    then show ?thesis using Cons walk_insts_iff[of V "is" b r]
      by (auto split: list.splits)
  next
    case False
    then have "\<not> tolerated V is" using walk_insts_iff by blast
    then show ?thesis using False by (cases "walk_insts V is b") (auto split: option.splits)
  qed
qed simp

text \<open>
  C12: what the verifier accepts, exactly: a function without variable arguments in which every
  block is tolerated, that is, no undefined value and no unknown call is met up to the first
  refused instruction, and whose last block that is not empty is accepted as a whole.
\<close>

theorem verifier_accepts_iff:
  "run_verifier V f = Done () \<longleftrightarrow> \<not> isVarArg (mf_ty f)
     \<and> (\<forall>is \<in> set (f_blocks (mf_body f)). tolerated V is)
     \<and> (\<forall>is bs. filter (\<lambda>is. is \<noteq> []) (f_blocks (mf_body f)) = bs @ [is] \<longrightarrow> passes V is)"
proof -
  have "(case xs of [] \<Rightarrow> True | ys \<Rightarrow> passes V (last ys)) \<longleftrightarrow> (\<forall>is bs. xs = bs @ [is] \<longrightarrow> passes V is)"
    for xs
  proof (cases xs rule: rev_cases)
    case (snoc ys y)
    then show ?thesis by (cases ys) auto
  qed simp
  then show ?thesis
    using walk_blocks_iff[of V "f_blocks (mf_body f)" True]
    by (auto simp: run_verifier_def validateFunction_def walk_def andthen_Done split: if_splits)
qed

text \<open>
  Refused instructions in other blocks are overlooked: the result of a block replaces the result
  of the one before. A function that begins with a switch is accepted.
\<close>

definition plain_env :: verifier_env where
  "plain_env = \<lparr>is_freeze = (\<lambda>_. False), cast_callee = (\<lambda>_. None)\<rparr>"

definition switch_function :: mfunction where
  "switch_function = \<lparr>mf_ty = FunTy VoidTy [] False, mf_isDeclaration = False, mf_unused = False,
     mf_body = \<lparr>f_name = ''f'', f_args = [], f_ret = VoidTy, f_structRet = False,
       f_blocks = [[\<lparr>inst_id = 0, inst_ty = VoidTy, inst_kind = Switch (VConst (IntTy 32) (KInt 32 0))\<rparr>],
         [\<lparr>inst_id = 1, inst_ty = VoidTy, inst_kind = Return None\<rparr>]]\<rparr>\<rparr>"

theorem verifier_accepts_iff_witness:
  "run_verifier plain_env switch_function = Done ()
   \<and> \<not> passes plain_env (hd (f_blocks (mf_body switch_function)))"
proof -
  let ?bs = "f_blocks (mf_body switch_function)"
  have v: "\<not> isVarArg (mf_ty switch_function)" by code_simp
  have t: "list_all (tolerated plain_env) ?bs" by code_simp
  have l: "last (filter (\<lambda>is. is \<noteq> []) ?bs) = last ?bs" "passes plain_env (last ?bs)" by code_simp+
  have "\<forall>is bs. filter (\<lambda>is. is \<noteq> []) ?bs = bs @ [is] \<longrightarrow> passes plain_env is"
    using l by (metis last_snoc)
  then have "run_verifier plain_env switch_function = Done ()"
    using verifier_accepts_iff[of plain_env switch_function] v t by (simp add: list_all_iff)
  moreover have "\<not> passes plain_env (hd ?bs)" by code_simp
  ultimately show ?thesis by blast
qed

text \<open>Behind a refused instruction of a block even undefined values are not looked for.\<close>

lemma undef_overlooked:
  assumes "visit_inst V i = Done False" "\<not> hasUndefsOrPoisonValues i"
  shows "tolerated V (i # is)"
  using assms by (simp add: tolerated_def)

end
