(* ===== verification/BC_Passes.thy ===== *)
theory BC_Passes
  imports BC_Intrinsics BC_Phi
begin

text \<open>
  Three more passes between the logical compiler and the writer: lengths of memory intrinsics
  become 32 bits wide (\<^verbatim>\<open>ClamBCConvertIntrinsicsTo32Bit.cpp\<close>), phi nodes become 64 bits wide
  (\<^verbatim>\<open>ClamBCExtendPHIsTo64Bit.cpp\<close>), and the question for the byte order is asked in one function
  (\<^verbatim>\<open>ClamBCOutlineEndiannessCalls.cpp\<close>).
\<close>

section \<open>Lengths of memory intrinsics\<close>

definition replacements_32 :: "(string \<times> string) list" where
  "replacements_32 =
     [(''llvm.memset.p0i8.i64'', ''llvm.memset.p0i8.i32''), (''llvm.memset.p0.i64'', ''llvm.memset.p0.i32''),
      (''llvm.memcpy.p0i8.p0i8.i64'', ''llvm.memcpy.p0i8.p0i8.i32''),
      (''llvm.memcpy.p0.p0.i64'', ''llvm.memcpy.p0.p0.i32''),
      (''llvm.memmove.p0.p0.i64'', ''llvm.memmove.p0.p0.i32''),
      (''llvm.memmove.p0i8.p0i8.i64'', ''llvm.memmove.p0i8.p0i8.i32'')]"

text \<open>The types of the new intrinsics: a value to fill with, or a second pointer.\<close>

definition type_32 :: "string \<Rightarrow> ty" where
  "type_32 name = FunTy VoidTy
     [PtrTy (IntTy 8), if take 11 name = ''llvm.memset'' then IntTy 8 else PtrTy (IntTy 8), IntTy 32, IntTy 1] False"

text \<open>
  \<^verbatim>\<open>convertCall\<close>: the third argument of a call, as the constant cut to 32 bits or as the result \<open>n\<close>
  of a new instruction in front of the call.
\<close>

fun is_constant_int :: "val \<Rightarrow> bool" where
  "is_constant_int (VConst t (KInt w c)) = True"
| "is_constant_int v = False"

fun length_32 :: "nat \<Rightarrow> val \<Rightarrow> val" where
  "length_32 n (VConst t (KInt w c)) = VConst (IntTy 32) (KInt 32 (take_bit 32 c))"
| "length_32 n v = VInst (IntTy 32) n"

definition truncation :: "nat \<Rightarrow> val \<Rightarrow> inst list" where
  "truncation n v = (if is_constant_int v then []
     else [\<lparr>inst_id = n, inst_ty = IntTy 32,
       inst_kind = Cast (if val_ty v = IntTy 32 then BitCast True else Trunc) v\<rparr>])"

definition convertCall :: "nat \<Rightarrow> string \<Rightarrow> callee \<Rightarrow> val list \<Rightarrow> inst \<Rightarrow> inst list" where
  "convertCall n new c as i = (if 2 < length as
     then truncation n (as ! 2) @ [i\<lparr>inst_kind := Call (c\<lparr>fn_name := new, fn_ty := type_32 new\<rparr>) (as[2 := length_32 n (as ! 2)])\<rparr>]
     else [i\<lparr>inst_kind := Call (c\<lparr>fn_name := new, fn_ty := type_32 new\<rparr>) as\<rparr>])"

definition convert_inst :: "nat \<Rightarrow> inst \<Rightarrow> inst list" where
  "convert_inst n i = (case inst_kind i of
     Call c as \<Rightarrow> (case map_of replacements_32 (fn_name c) of None \<Rightarrow> [i] | Some new \<Rightarrow> convertCall n new c as i)
   | _ \<Rightarrow> [i])"

text \<open>\<^verbatim>\<open>processBasicBlock\<close>; \<open>n\<close> is the next free number.\<close>

fun convert_insts :: "nat \<Rightarrow> inst list \<Rightarrow> nat \<times> inst list" where
  "convert_insts n [] = (n, [])"
| "convert_insts n (i # is) = (case convert_insts (Suc n) is of (m, js) \<Rightarrow> (m, convert_inst n i @ js))"

fun convert_blocks :: "nat \<Rightarrow> inst list list \<Rightarrow> inst list list" where
  "convert_blocks n [] = []"
| "convert_blocks n (b # bs) = (case convert_insts n b of (m, c) \<Rightarrow> c # convert_blocks m bs)"

definition run_convert :: "mfunction list \<Rightarrow> mfunction list" where
  "run_convert = map (\<lambda>f. f\<lparr>mf_body := (mf_body f)\<lparr>f_blocks :=
     convert_blocks (fresh_id (mf_body f)) (f_blocks (mf_body f))\<rparr>\<rparr>)"

text \<open>No intrinsic with a 64-bit length is left.\<close>

lemma new_names: "map_of replacements_32 name = Some new \<Longrightarrow> map_of replacements_32 new = None"
  by (auto simp: replacements_32_def split: if_splits)

definition wide_call :: "inst \<Rightarrow> bool" where
  "wide_call i \<longleftrightarrow> (case inst_kind i of Call c as \<Rightarrow> map_of replacements_32 (fn_name c) \<noteq> None | _ \<Rightarrow> False)"

lemma convert_inst_narrow: "j \<in> set (convert_inst n i) \<Longrightarrow> \<not> wide_call j"
  by (auto simp: convert_inst_def convertCall_def truncation_def wide_call_def new_names
      split: BC_IR.kind.splits option.splits if_splits)

lemma convert_insts_narrow: "j \<in> set (snd (convert_insts n is)) \<Longrightarrow> \<not> wide_call j"
proof (induction "is" arbitrary: n)
  case (Cons i "is")
  obtain m js where "convert_insts (Suc n) is = (m, js)" by fastforce
  then show ?case using Cons(2) Cons(1)[of "Suc n"] convert_inst_narrow[of j n i] by auto
qed simp

lemma convert_blocks_narrow: "j \<in> set (concat (convert_blocks n bs)) \<Longrightarrow> \<not> wide_call j"
proof (induction bs arbitrary: n)
  case (Cons b bs)
  obtain m c where "convert_insts n b = (m, c)" by fastforce
  then show ?case using Cons convert_insts_narrow[of j n b] by auto
qed simp

theorem lengths_narrowed: "f \<in> set (run_convert fs) \<Longrightarrow> i \<in> set (f_insts (mf_body f)) \<Longrightarrow> \<not> wide_call i"
proof -
  assume f: "f \<in> set (run_convert fs)" and i: "i \<in> set (f_insts (mf_body f))"
  have "\<exists>n bs. f_blocks (mf_body f) = convert_blocks n bs"
    using f unfolding run_convert_def by auto blast
  then show ?thesis using i convert_blocks_narrow unfolding f_insts_def by metis
qed

text \<open>
  The length that the new call passes is the old one modulo 2^32: they agree exactly when the old
  length fits.
\<close>

theorem narrowed_length:
  assumes "operand_value args env v = Some x" "val_ty v = IntTy 64"
    and "\<forall>i \<in> set (truncation n v). inst_value args env (inst_ty i) (inst_kind i) = Some (env (inst_id i))"
  shows "operand_value args env (length_32 n v) = Some (take_bit 32 x)"
  using assms by (cases v; cases "is_constant_int v")
    (auto simp: truncation_def split: if_splits elim: is_constant_int.elims length_32.elims)

section \<open>Phi nodes\<close>

text \<open>
  \<^verbatim>\<open>convertPHI\<close>: a phi node of another integer type becomes one of 64 bits with the number \<open>x\<close>. Its
  constants are zero-extended, its other incoming values are cast at the end of their blocks, and
  a cast behind the phi nodes, with the number \<open>x + 1\<close>, gives the value of the old type.
\<close>

fun phi_width :: "inst \<Rightarrow> nat option" where
  "phi_width i = (case (inst_kind i, inst_ty i) of (Phi ivs, IntTy w) \<Rightarrow> if w = 64 then None else Some w | _ \<Rightarrow> None)"

definition integer_cast :: "nat \<Rightarrow> nat \<Rightarrow> castop" where
  "integer_cast v w = (if v < w then SExt else if v = w then BitCast True else Trunc)"

fun extended :: "nat \<Rightarrow> nat \<Rightarrow> val \<Rightarrow> val" where
  "extended x j (VConst t (KInt w c)) = VConst (IntTy 64) (KInt 64 c)"
| "extended x j v = VInst (IntTy 64) (x + 2 + j)"

definition extensions :: "nat \<Rightarrow> nat \<Rightarrow> (val \<times> nat) list \<Rightarrow> nat \<Rightarrow> inst list" where
  "extensions x w ivs b = map (\<lambda>j. \<lparr>inst_id = x + 2 + j, inst_ty = IntTy 64,
       inst_kind = Cast (integer_cast w 64) (fst (ivs ! j))\<rparr>)
     (filter (\<lambda>j. snd (ivs ! j) = b \<and> \<not> is_constant_int (fst (ivs ! j))) [0..<length ivs])"

definition wide_phi :: "nat \<Rightarrow> (val \<times> nat) list \<Rightarrow> inst" where
  "wide_phi x ivs = \<lparr>inst_id = x, inst_ty = IntTy 64,
     inst_kind = Phi (map (\<lambda>(j, v, b). (extended x j v, b)) (enumerate 0 ivs))\<rparr>"

definition narrow_cast :: "nat \<Rightarrow> nat \<Rightarrow> inst" where
  "narrow_cast x w = \<lparr>inst_id = x + 1, inst_ty = IntTy w, inst_kind = Cast (integer_cast 64 w) (VInst (IntTy 64) x)\<rparr>"

text \<open>The block of the phi node: the wide one in its place, the cast behind all phi nodes.\<close>

definition widen_in_block :: "nat \<Rightarrow> nat \<Rightarrow> nat \<Rightarrow> (val \<times> nat) list \<Rightarrow> inst list \<Rightarrow> inst list" where
  "widen_in_block n x w ivs is = (if list_ex (\<lambda>i. inst_id i = n) is
     then let js = map (\<lambda>i. if inst_id i = n then wide_phi x ivs else i) is
       in takeWhile (\<lambda>i. isPhi (inst_kind i)) js @ narrow_cast x w # dropWhile (\<lambda>i. isPhi (inst_kind i)) js
     else is)"

definition convertPHI :: "inst \<Rightarrow> bfunction \<Rightarrow> bfunction" where
  "convertPHI p f = (case phi_width p of None \<Rightarrow> f
     | Some w \<Rightarrow> let x = fresh_id f; ivs = incoming (inst_kind p) in
         f\<lparr>f_blocks := map (\<lambda>(b, blk). map (replaceAllUsesWith (inst_id p) (VInst (IntTy w) (x + 1)))
           (widen_in_block (inst_id p) x w ivs (butlast blk) @ extensions x w ivs b @ [last blk]))
           (enumerate 0 (f_blocks f))\<rparr>)"

text \<open>\<^verbatim>\<open>convertPHIs\<close> gathers the phi nodes first; later ones are looked up as they are by then.\<close>

definition convertPHIs :: "bfunction \<Rightarrow> bfunction" where
  "convertPHIs f = fold (\<lambda>n g. case find (\<lambda>i. inst_id i = n) (f_insts g) of None \<Rightarrow> g | Some p \<Rightarrow> convertPHI p g)
     (map inst_id (filter (\<lambda>i. isPhi (inst_kind i)) (f_insts f))) f"

text \<open>
  Whatever comes in, the value that the casts make of it is the one that came in: the cast behind
  the wide phi node takes back the extension, also of negative numbers and of constants.
\<close>

lemma narrow_sign_extend:
  assumes "0 < v" "v \<le> w" "x < 2 ^ v"
  shows "take_bit v (sign_extend v w x) = x"
proof -
  have "int (take_bit v (sign_extend v w x)) = take_bit v (take_bit w (signed v x))"
    by (simp add: sign_extend_def of_nat_take_bit)
  also have "\<dots> = take_bit v (signed v x)" using assms(2) by (simp add: min_def)
  also have "\<dots> = take_bit v (int x)" using assms(1) by (simp add: signed_def take_bit_signed_take_bit)
  also have "\<dots> = int (take_bit v x)" by (simp add: of_nat_take_bit)
  also have "\<dots> = int x" using assms(3) by (simp add: take_bit_nat_eq_self)
  finally show ?thesis by simp
qed

theorem widened_phi_value:
  assumes "j < length ivs" "ivs ! j = (v, b)" "val_ty v = IntTy w" "0 < w" "w < 64"
    and "operand_value args env v = Some a" "a < 2 ^ w"
    and "\<forall>i \<in> set (extensions x w ivs b). inst_value args env (inst_ty i) (inst_kind i) = Some (env (inst_id i))"
    and "operand_value args env (extended x j v) = Some (env x)"
  shows "inst_value args env (IntTy w) (inst_kind (narrow_cast x w)) = Some a"
proof -
  have "env x = a \<or> env x = sign_extend w 64 a"
  proof (cases "is_constant_int v")
    case True
    then show ?thesis using assms(6,9) by (cases v rule: is_constant_int.cases) auto
  next
    case False
    let ?i = "\<lparr>inst_id = x + 2 + j, inst_ty = IntTy 64, inst_kind = Cast (integer_cast w 64) v\<rparr>"
    have "?i \<in> set (extensions x w ivs b)"
      using False assms(1,2) by (force simp: extensions_def)
    then have "env (x + 2 + j) = sign_extend w 64 a"
      using assms(3,5,6,8) by (fastforce simp: integer_cast_def)
    moreover have "extended x j v = VInst (IntTy 64) (x + 2 + j)"
      using False by (cases v rule: is_constant_int.cases) auto
    ultimately show ?thesis using assms(9) by simp
  qed
  then show ?thesis
    using narrow_sign_extend[of w 64 a] assms(4,5,7)
    by (auto simp: narrow_cast_def integer_cast_def take_bit_nat_eq_self)
qed

section \<open>The byte order\<close>

definition is_bigendian_name :: string where
  "is_bigendian_name = ''__is_bigendian''"

fun asks_byte_order :: "BC_IR.kind \<Rightarrow> bool" where
  "asks_byte_order (Call c as) = (fn_name c = is_bigendian_name)"
| "asks_byte_order k = False"

text \<open>A call that is not of a function makes the search for calls read through a null pointer.\<close>

definition unknown_call :: "mfunction list \<Rightarrow> bool" where
  "unknown_call fs \<longleftrightarrow> list_ex (\<lambda>f. list_ex (\<lambda>i. call_target (inst_kind i) = CallsUnknown) (f_insts (mf_body f))) fs"

definition findCalls :: "mfunction list \<Rightarrow> inst list" where
  "findCalls fs = concat (map (\<lambda>f. filter (\<lambda>i. asks_byte_order (inst_kind i)) (f_insts (mf_body f))) fs)"

definition getNewEndiannessFunction :: "inst \<Rightarrow> mfunction" where
  "getNewEndiannessFunction i = new_function ''new__is_bigendian'' [] (inst_ty i)
     [[i\<lparr>inst_id := 0\<rparr>, an_inst 1 VoidTy (Return (Some (VInst (inst_ty i) 0)))]]"

definition outline_call :: "mfunction \<Rightarrow> inst \<Rightarrow> inst" where
  "outline_call h i = (if asks_byte_order (inst_kind i)
     then i\<lparr>inst_kind := Call (function_callee h) []\<rparr> else i)"

definition run_outline :: "mfunction list \<Rightarrow> mfunction list compiled" where
  "run_outline fs = (if unknown_call fs then Crash
     else case findCalls fs of
       [] \<Rightarrow> compiled.Done fs
     | i # _ \<Rightarrow> let h = getNewEndiannessFunction i in
         compiled.Done (map (\<lambda>f. f\<lparr>mf_body := (mf_body f)\<lparr>f_blocks := map (map (outline_call h)) (f_blocks (mf_body f))\<rparr>\<rparr>) fs @ [h]))"

text \<open>Afterwards at most one call asks for the byte order, the one in the new function.\<close>

lemma outline_call_other [simp]: "\<not> asks_byte_order (inst_kind (outline_call (getNewEndiannessFunction i) j))"
  by (simp add: outline_call_def function_callee_def getNewEndiannessFunction_def new_function_def is_bigendian_name_def)

theorem byte_order_asked_once:
  assumes "run_outline fs = compiled.Done fs'"
  shows "length (findCalls fs') \<le> 1 \<and> (findCalls fs' = [] \<longleftrightarrow> findCalls fs = [])"
proof (cases "findCalls fs")
  case Nil
  then show ?thesis using assms by (auto simp: run_outline_def split: if_splits)
next
  case (Cons i js)
  let ?h = "getNewEndiannessFunction i"
  have "i \<in> set (findCalls fs)" using Cons by simp
  then have i: "asks_byte_order (inst_kind i)" by (auto simp: findCalls_def)
  have "fs' = map (\<lambda>f. f\<lparr>mf_body := (mf_body f)\<lparr>f_blocks := map (map (outline_call ?h)) (f_blocks (mf_body f))\<rparr>\<rparr>) fs @ [?h]"
    using assms Cons by (auto simp: run_outline_def Let_def split: if_splits)
  then have "findCalls fs' = findCalls [?h]"
    by (auto simp: findCalls_def f_insts_def filter_concat comp_def)
  moreover have "findCalls [?h] = [i\<lparr>inst_id := 0\<rparr>]"
    using i by (simp add: findCalls_def getNewEndiannessFunction_def new_function_def f_insts_def)
  ultimately show ?thesis using Cons by simp
qed

end
