(* ===== verification/BC_PreserveABI.thy ===== *)
theory BC_PreserveABI
  imports BC_LogicSig BC_Intrinsics
begin

text \<open>
  The pass \<^verbatim>\<open>ClamBCPreserveABIs.cpp\<close> runs before and after the optimiser. First it adds to every
  function with parameters a call that passes them to a fake external function, so that the
  optimiser cannot remove them; then it removes these calls and functions again. The theorem is
  that the second run undoes the first.
\<close>

section \<open>Adding the calls\<close>

text \<open>
  A module with its functions of internal linkage and the operands of the metadata node
  \<^verbatim>\<open>clambc.fakefunctions\<close>, which is missing before the first run.
\<close>

record abi_module =
  ab_functions :: "mfunction list"
  ab_internal :: "string list"
  ab_fakes :: "string list option"

definition fake_name :: "mfunction \<Rightarrow> string" where
  "fake_name f = mf_name f @ ''_fake''"

definition fake_function :: "mfunction \<Rightarrow> mfunction" where
  "fake_function f = f\<lparr>mf_isDeclaration := True, mf_unused := False,
     mf_body := (mf_body f)\<lparr>f_name := fake_name f, f_blocks := []\<rparr>\<rparr>"

definition fake_call :: "mfunction \<Rightarrow> inst" where
  "fake_call f = \<lparr>inst_id = fresh_id (mf_body f), inst_ty = f_ret (mf_body f),
     inst_kind = Call ((function_callee (fake_function f))\<lparr>fn_isDeclaration := True\<rparr>)
       (map (\<lambda>(k, t). VArg t k) (enumerate 0 (f_args (mf_body f))))\<rparr>"

fun is_alloca :: "inst \<Rightarrow> bool" where
  "is_alloca i = (case inst_kind i of Alloca t n \<Rightarrow> True | _ \<Rightarrow> False)"

text \<open>The call goes in front of the first instruction of the entry block that is no allocation.\<close>

definition insert_call :: "inst \<Rightarrow> inst list \<Rightarrow> inst list option" where
  "insert_call c b = (if dropWhile is_alloca b = [] then None
     else Some (takeWhile is_alloca b @ c # dropWhile is_alloca b))"

definition set_blocks :: "inst list list \<Rightarrow> mfunction \<Rightarrow> mfunction" where
  "set_blocks bs f = f\<lparr>mf_body := (mf_body f)\<lparr>f_blocks := bs\<rparr>\<rparr>"

definition processFunction_abi :: "mfunction \<Rightarrow> (mfunction \<times> mfunction list) compiled" where
  "processFunction_abi f = (if f_args (mf_body f) = [] then Done (f, [])
     else case f_blocks (mf_body f) of
       [] \<Rightarrow> Crash
     | b # bs \<Rightarrow> (case insert_call (fake_call f) b of
         None \<Rightarrow> Crash
       | Some b' \<Rightarrow> Done (set_blocks (b' # bs) f, [fake_function f])))"

fun process_functions :: "mfunction list \<Rightarrow> (mfunction list \<times> mfunction list) compiled" where
  "process_functions [] = Done ([], [])"
| "process_functions (f # fs) =
     andthen (if mf_isDeclaration f then Done (f, []) else processFunction_abi f) (\<lambda>(g, h).
     andthen (process_functions fs) (\<lambda>(gs, hs). Done (g # gs, h @ hs)))"

definition external_linkage :: "mfunction list \<Rightarrow> string list \<Rightarrow> string list" where
  "external_linkage fs internal = filter (\<lambda>n. list_all (\<lambda>f. mf_isDeclaration f \<or> mf_name f \<noteq> n) fs) internal"

definition add_fakes :: "abi_module \<Rightarrow> abi_module compiled" where
  "add_fakes M = andthen (process_functions (ab_functions M)) (\<lambda>(gs, hs).
     Done \<lparr>ab_functions = gs @ hs, ab_internal = external_linkage (ab_functions M) (ab_internal M),
       ab_fakes = Some (map mf_name hs)\<rparr>)"

section \<open>Removing them\<close>

text \<open>
  \<^verbatim>\<open>getDependentValues\<close> collects the users of the fake function, their users and so on; as many
  rounds as there are instructions find them all. Users that are constant expressions do not occur
  in the model. The order in which the collected calls are erased is that of a set of pointers and
  is left open: all of them are gone at the end.
\<close>

definition uses_any :: "nat list \<Rightarrow> inst \<Rightarrow> bool" where
  "uses_any ns i \<longleftrightarrow> list_ex (\<lambda>v. case v of VInst t n \<Rightarrow> n \<in> set ns | _ \<Rightarrow> False) (operands (inst_kind i))"

fun dependents :: "nat \<Rightarrow> inst list \<Rightarrow> nat list \<Rightarrow> nat list" where
  "dependents 0 is ns = ns"
| "dependents (Suc k) is ns =
     dependents k is (map inst_id (filter (\<lambda>i. inst_id i \<in> set ns \<or> uses_any ns i) is))"

definition getDependentValues :: "string \<Rightarrow> inst list \<Rightarrow> nat list" where
  "getDependentValues name is = dependents (length is) is
     (map inst_id (filter (\<lambda>i. name \<in> set (inst_names i)) is))"

definition erase_users :: "string \<Rightarrow> mfunction \<Rightarrow> mfunction compiled" where
  "erase_users name f = (let is = f_insts (mf_body f); ns = getDependentValues name is in
     if list_all (\<lambda>i. inst_id i \<in> set ns \<longrightarrow> is_call (inst_kind i)) is
     then Done (set_blocks (map (filter (\<lambda>i. inst_id i \<notin> set ns)) (f_blocks (mf_body f))) f)
     else Crash)"

fun erase_all :: "string \<Rightarrow> mfunction list \<Rightarrow> mfunction list compiled" where
  "erase_all name [] = Done []"
| "erase_all name (f # fs) = andthen (erase_users name f) (\<lambda>g. andthen (erase_all name fs) (\<lambda>gs. Done (g # gs)))"

definition remove_fake :: "string \<Rightarrow> mfunction list \<Rightarrow> mfunction list compiled" where
  "remove_fake name fs = (if list_all (\<lambda>f. mf_name f \<noteq> name) fs then Crash
     else andthen (erase_all name fs) (\<lambda>gs. Done (filter (\<lambda>f. mf_name f \<noteq> name) gs)))"

fun removeFakeFunctions :: "string list \<Rightarrow> mfunction list \<Rightarrow> mfunction list compiled" where
  "removeFakeFunctions [] fs = Done fs"
| "removeFakeFunctions (n # ns) fs = andthen (remove_fake n fs) (removeFakeFunctions ns)"

definition run_preserve :: "abi_module \<Rightarrow> abi_module compiled" where
  "run_preserve M = (case ab_fakes M of
     Some ns \<Rightarrow> andthen (removeFakeFunctions ns (ab_functions M)) (\<lambda>fs.
       Done (M\<lparr>ab_functions := fs, ab_fakes := None\<rparr>))
   | None \<Rightarrow> add_fakes M)"

section \<open>The second run undoes the first\<close>

text \<open>
  Well-formed modules: an entry block has more than allocations, operands are instructions of the
  function, names are distinct, and no name of a fake function is taken or used.
\<close>

definition needs_fake :: "mfunction \<Rightarrow> bool" where
  "needs_fake f \<longleftrightarrow> \<not> mf_isDeclaration f \<and> f_args (mf_body f) \<noteq> []"

definition abi_ok :: "mfunction list \<Rightarrow> bool" where
  "abi_ok fs \<longleftrightarrow> distinct (map mf_name fs)
     \<and> list_all (\<lambda>f. needs_fake f \<longrightarrow> f_blocks (mf_body f) \<noteq> []
          \<and> dropWhile is_alloca (hd (f_blocks (mf_body f))) \<noteq> []) fs
     \<and> list_all (\<lambda>f. list_all (\<lambda>i. list_all (\<lambda>v. case v of VInst t n \<Rightarrow> n \<in> set (map inst_id (f_insts (mf_body f))) | _ \<Rightarrow> True)
          (operands (inst_kind i))) (f_insts (mf_body f))) fs
     \<and> list_all (\<lambda>f. list_all (\<lambda>g. mf_name g \<noteq> fake_name f
          \<and> list_all (\<lambda>i. fake_name f \<notin> set (inst_names i)) (f_insts (mf_body g))) fs) fs"

definition with_call :: "mfunction \<Rightarrow> mfunction" where
  "with_call f = (case f_blocks (mf_body f) of [] \<Rightarrow> f
     | b # bs \<Rightarrow> set_blocks ((takeWhile is_alloca b @ fake_call f # dropWhile is_alloca b) # bs) f)"

lemma process_functions_ok:
  assumes "\<forall>f \<in> set fs. needs_fake f \<longrightarrow> f_blocks (mf_body f) \<noteq> [] \<and> dropWhile is_alloca (hd (f_blocks (mf_body f))) \<noteq> []"
  shows "process_functions fs
    = Done (map (\<lambda>f. if needs_fake f then with_call f else f) fs, map fake_function (filter needs_fake fs))"
  using assms
proof (induction fs)
  case (Cons f fs)
  have "(if mf_isDeclaration f then Done (f, []) else processFunction_abi f)
    = Done (if needs_fake f then (with_call f, [fake_function f]) else (f, []))"
    using Cons.prems by (cases "f_blocks (mf_body f)")
      (auto simp: needs_fake_def processFunction_abi_def with_call_def insert_call_def)
  then show ?case using Cons by simp
qed simp

lemma dependents_fixed:
  assumes "map inst_id (filter (\<lambda>i. inst_id i \<in> set ns \<or> uses_any ns i) is) = ns"
  shows "dependents k is ns = ns"
  using assms by (induction k) auto

lemma set_blocks_same [simp]: "set_blocks (f_blocks (mf_body f)) f = f"
  by (simp add: set_blocks_def)

lemma erase_users_none:
  assumes "\<forall>i \<in> set (f_insts (mf_body f)). name \<notin> set (inst_names i)"
  shows "erase_users name f = Done f"
proof -
  have "filter (\<lambda>i. name \<in> set (inst_names i)) (f_insts (mf_body f)) = []"
    using assms by (simp add: filter_empty_conv)
  moreover have "\<not> uses_any [] i" for i by (auto simp: uses_any_def list_ex_iff split: val.splits)
  then have "dependents k (f_insts (mf_body f)) [] = []" for k by (intro dependents_fixed) simp
  ultimately have "getDependentValues name (f_insts (mf_body f)) = []"
    by (simp add: getDependentValues_def)
  moreover have "map (filter (\<lambda>i. True)) bs = bs" for bs :: "inst list list" by (simp add: map_idI)
  ultimately show ?thesis by (simp add: erase_users_def list_all_iff)
qed

lemma fresh_id_less: "i \<in> set (f_insts f) \<Longrightarrow> inst_id i < fresh_id f"
  by (auto simp: fresh_id_def less_Suc_eq_le intro!: Max_ge)

lemma fake_call_simps [simp]:
  "inst_id (fake_call f) = fresh_id (mf_body f)" "inst_names (fake_call f) = [fake_name f]"
  "is_call (inst_kind (fake_call f))" "\<not> uses_any ns (fake_call f)"
  by (auto simp: fake_call_def inst_names_def function_callee_def fake_function_def is_call_def uses_any_def
      list_ex_iff comp_def split_def in_set_enumerate_eq)

text \<open>Erasing the users of its fake function from a function gives the function back.\<close>

lemma erase_with_call:
  assumes "needs_fake f" "f_blocks (mf_body f) = b # bs"
    and "\<forall>i \<in> set (f_insts (mf_body f)). \<not> uses_any [fresh_id (mf_body f)] i \<and> fake_name f \<notin> set (inst_names i)"
  shows "erase_users (fake_name f) (with_call f) = Done f"
proof -
  let ?n = "fresh_id (mf_body f)"
  let ?b = "takeWhile is_alloca b @ fake_call f # dropWhile is_alloca b"
  have w: "with_call f = set_blocks (?b # bs) f" using assms(2) by (simp add: with_call_def)
  define is1 where "is1 = takeWhile is_alloca b"
  define is2 where "is2 = dropWhile is_alloca b @ concat bs"
  have ins: "f_insts (mf_body (with_call f)) = is1 @ fake_call f # is2"
    by (simp add: w set_blocks_def f_insts_def is1_def is2_def)
  have old: "set (f_insts (mf_body f)) = set is1 \<union> set is2"
  proof -
    have "set b = set is1 \<union> set (dropWhile is_alloca b)"
      unfolding is1_def by (metis set_append takeWhile_dropWhile_id)
    then show ?thesis using assms(2) by (auto simp: f_insts_def is2_def)
  qed
  then have other: "inst_id i \<noteq> ?n \<and> \<not> uses_any [?n] i \<and> fake_name f \<notin> set (inst_names i)"
    if "i \<in> set is1 \<union> set is2" for i
    using that assms(3) fresh_id_less[of i "mf_body f"] by auto
  have only: "filter P (is1 @ fake_call f # is2) = [fake_call f]"
    if "P (fake_call f)" "\<forall>i \<in> set is1 \<union> set is2. \<not> P i" for P
    using that by (simp add: filter_empty_conv)
  have d: "getDependentValues (fake_name f) (is1 @ fake_call f # is2) = [?n]"
    unfolding getDependentValues_def using other
    by (subst only, simp, simp, subst dependents_fixed) (subst only, auto)
  have keep: "filter (\<lambda>i. inst_id i \<notin> {?n}) c = c" if "set c \<subseteq> set is1 \<union> set is2" for c
    using that other by (auto simp: filter_id_conv)
  have k: "filter (\<lambda>i. inst_id i \<noteq> ?n) (takeWhile is_alloca b) = takeWhile is_alloca b"
      "filter (\<lambda>i. inst_id i \<noteq> ?n) (dropWhile is_alloca b) = dropWhile is_alloca b"
    using keep[of "takeWhile is_alloca b"] keep[of "dropWhile is_alloca b"]
    unfolding is1_def is2_def by fastforce+
  have "map (filter (\<lambda>i. inst_id i \<noteq> ?n)) bs = bs"
  proof (rule map_idI)
    fix c assume "c \<in> set bs"
    then have "set c \<subseteq> set is1 \<union> set is2" unfolding is2_def by auto
    from keep[OF this] show "filter (\<lambda>i. inst_id i \<noteq> ?n) c = c" by simp
  qed
  then have "map (filter (\<lambda>i. inst_id i \<notin> set [?n])) (?b # bs) = b # bs" by (simp add: k)
  moreover have "list_all (\<lambda>i. inst_id i \<in> set [?n] \<longrightarrow> is_call (inst_kind i)) (is1 @ fake_call f # is2)"
    using other by (auto simp: list_all_iff)
  ultimately show ?thesis
    unfolding erase_users_def ins d Let_def using assms(2) by (simp add: w set_blocks_def)
qed

lemma fake_function_insts [simp]: "f_insts (mf_body (fake_function f)) = []" "mf_name (fake_function f) = fake_name f"
  by (simp_all add: fake_function_def f_insts_def)

lemma mf_name_with_call [simp]: "mf_name (with_call f) = mf_name f"
  by (simp add: with_call_def set_blocks_def split: list.split)

lemma with_call_insts: "i \<in> set (f_insts (mf_body (with_call f))) \<Longrightarrow> i = fake_call f \<or> i \<in> set (f_insts (mf_body f))"
  by (auto simp: with_call_def set_blocks_def f_insts_def split: list.splits dest: set_takeWhileD set_dropWhileD)

lemma erase_all_list:
  "list_all2 (\<lambda>f g. erase_users name f = Done g) fs gs \<Longrightarrow> erase_all name fs = Done gs"
  by (induction rule: list_all2_induct) auto

lemma fake_name_inj [simp]: "fake_name f = fake_name g \<longleftrightarrow> mf_name f = mf_name g"
  by (simp add: fake_name_def)

text \<open>What well-formedness gives for one function.\<close>

lemma abi_ok_names:
  assumes "abi_ok fs" "f \<in> set fs" "g \<in> set fs"
  shows "mf_name g \<noteq> fake_name f" "i \<in> set (f_insts (mf_body g)) \<Longrightarrow> fake_name f \<notin> set (inst_names i)"
    "mf_name f = mf_name g \<Longrightarrow> f = g"
  using assms by (auto simp: abi_ok_def list_all_iff distinct_map dest: inj_onD)

lemma abi_ok_erase:
  assumes "abi_ok fs" "f \<in> set fs" "needs_fake f"
  shows "erase_users (fake_name f) (with_call f) = Done f"
proof -
  obtain b bs where b: "f_blocks (mf_body f) = b # bs"
    using assms by (cases "f_blocks (mf_body f)") (auto simp: abi_ok_def list_all_iff)
  have "\<not> uses_any [fresh_id (mf_body f)] i" if i: "i \<in> set (f_insts (mf_body f))" for i
  proof
    assume "uses_any [fresh_id (mf_body f)] i"
    then obtain x where x: "x \<in> set (operands (inst_kind i))"
        "case x of VInst t n \<Rightarrow> n \<in> set [fresh_id (mf_body f)] | _ \<Rightarrow> False"
      by (auto simp: uses_any_def list_ex_iff)
    obtain t where "x = VInst t (fresh_id (mf_body f))" using x(2) by (cases x) auto
    then have "VInst t (fresh_id (mf_body f)) \<in> set (operands (inst_kind i))" using x(1) by simp
    then have "fresh_id (mf_body f) \<in> inst_id ` set (f_insts (mf_body f))"
      using assms(1,2) i by (fastforce simp: abi_ok_def list_all_iff)
    then show False using fresh_id_less[of _ "mf_body f"] by (metis imageE less_irrefl)
  qed
  then show ?thesis using erase_with_call[OF assms(3) b] abi_ok_names(2)[OF assms(1,2,2)] by blast
qed

lemma removeFakeFunctions_ok:
  assumes "abi_ok fs" "set rs \<subseteq> {f \<in> set fs. needs_fake f}" "distinct rs"
  shows "removeFakeFunctions (map fake_name rs)
    (map (\<lambda>f. if f \<in> set rs then with_call f else f) fs @ map fake_function rs) = Done fs"
  using assms(2,3)
proof (induction rs)
  case (Cons r rs)
  let ?old = "map (\<lambda>f. if f \<in> set (r # rs) then with_call f else f) fs" and ?new = "map (\<lambda>f. if f \<in> set rs then with_call f else f) fs"
  have r: "r \<in> set fs" "needs_fake r" "r \<notin> set rs" using Cons.prems by auto
  have one: "erase_users (fake_name r) (if f \<in> set (r # rs) then with_call f else f) = Done (if f \<in> set rs then with_call f else f)"
    if f: "f \<in> set fs" for f
  proof (cases "f = r")
    case True
    then show ?thesis using abi_ok_erase[OF assms(1) r(1,2)] r(3) by simp
  next
    case False
    then have "mf_name f \<noteq> mf_name r" using abi_ok_names(3)[OF assms(1) f r(1)] by blast
    then have "\<forall>i \<in> set (f_insts (mf_body (with_call f))). fake_name r \<notin> set (inst_names i)"
      using with_call_insts[of _ f] abi_ok_names(2)[OF assms(1) r(1) f] by fastforce
    then have "erase_users (fake_name r) (with_call f) = Done (with_call f)" by (rule erase_users_none)
    moreover have "erase_users (fake_name r) f = Done f"
      using abi_ok_names(2)[OF assms(1) r(1) f] by (intro erase_users_none) blast
    ultimately show ?thesis using False by simp
  qed
  have "erase_users (fake_name r) (fake_function f) = Done (fake_function f)" for f
    by (rule erase_users_none) simp
  then have "list_all2 (\<lambda>f g. erase_users (fake_name r) f = Done g) (map fake_function (r # rs)) (map fake_function (r # rs))"
    by (intro list.rel_refl_strong) auto
  moreover have "list_all2 (\<lambda>f g. erase_users (fake_name r) f = Done g) ?old ?new"
    unfolding list_all2_map1 list_all2_map2 by (rule list.rel_refl_strong) (rule one)
  ultimately have "erase_all (fake_name r) (?old @ map fake_function (r # rs)) = Done (?new @ map fake_function (r # rs))"
    by (intro erase_all_list list_all2_appendI)
  moreover have "filter (\<lambda>f. mf_name f \<noteq> fake_name r) ?new = ?new"
    using abi_ok_names(1)[OF assms(1) r(1)] by (auto simp: filter_id_conv)
  moreover have "filter (\<lambda>f. mf_name f \<noteq> fake_name r) (map fake_function rs) = map fake_function rs"
    using abi_ok_names(3)[OF assms(1) _ r(1)] r(3) Cons.prems(1) by (auto simp: filter_id_conv)
  ultimately have "remove_fake (fake_name r) (?old @ map fake_function (r # rs)) = Done (?new @ map fake_function rs)"
    by (simp add: remove_fake_def)
  then show ?case using Cons by simp
qed (simp add: map_idI)

text \<open>
  C13: the second run of the pass undoes the first: on a well-formed module both runs succeed, and
  together they give back every function as it was; only the linkage of the defined functions has
  become external, and the note about the fake functions is gone.
\<close>

theorem preserve_twice:
  assumes "abi_ok (ab_functions M)" "ab_fakes M = None"
  shows "andthen (run_preserve M) run_preserve
    = Done (M\<lparr>ab_internal := external_linkage (ab_functions M) (ab_internal M)\<rparr>)"
proof -
  let ?fs = "ab_functions M" and ?rs = "filter needs_fake (ab_functions M)"
  have "\<forall>f \<in> set ?fs. needs_fake f \<longrightarrow> f_blocks (mf_body f) \<noteq> [] \<and> dropWhile is_alloca (hd (f_blocks (mf_body f))) \<noteq> []"
    using assms(1) by (simp add: abi_ok_def list_all_iff)
  then have p: "process_functions ?fs = Done (map (\<lambda>f. if needs_fake f then with_call f else f) ?fs, map fake_function ?rs)"
    by (rule process_functions_ok)
  have m: "map (\<lambda>f. if needs_fake f then with_call f else f) ?fs = map (\<lambda>f. if f \<in> set ?rs then with_call f else f) ?fs"
    by (intro map_cong) auto
  have "distinct ?rs" using assms(1) by (simp add: abi_ok_def distinct_map)
  then have "removeFakeFunctions (map fake_name ?rs)
      (map (\<lambda>f. if needs_fake f then with_call f else f) ?fs @ map fake_function ?rs) = Done ?fs"
    unfolding m by (intro removeFakeFunctions_ok[OF assms(1)]) auto
  then show ?thesis using p assms(2)
    by (simp add: run_preserve_def add_fakes_def comp_def)
qed

definition abi_example :: abi_module where
  "abi_example = \<lparr>ab_functions = [smin_caller], ab_internal = [''caller''], ab_fakes = None\<rparr>"

theorem preserve_twice_witness:
  "(case run_preserve abi_example of Done M \<Rightarrow> map mf_name (ab_functions M) = [''caller'', ''caller_fake'']
      \<and> map (map inst_id) (f_blocks (mf_body (hd (ab_functions M)))) = [[2, 0, 1]]
    | _ \<Rightarrow> False)
   \<and> andthen (run_preserve abi_example) run_preserve = Done (abi_example\<lparr>ab_internal := []\<rparr>)"
proof (rule conjI)
  show "case run_preserve abi_example of Done M \<Rightarrow> map mf_name (ab_functions M) = [''caller'', ''caller_fake'']
      \<and> map (map inst_id) (f_blocks (mf_body (hd (ab_functions M)))) = [[2, 0, 1]] | _ \<Rightarrow> False"
    by code_simp
  have "abi_ok (ab_functions abi_example)" "ab_fakes abi_example = None"
    "external_linkage (ab_functions abi_example) (ab_internal abi_example) = []"
    by code_simp+
  then show "andthen (run_preserve abi_example) run_preserve = Done (abi_example\<lparr>ab_internal := []\<rparr>)"
    using preserve_twice[of abi_example] by simp
qed

end
