(* ===== verification/BC_Freeze.thy ===== *)
theory BC_Freeze
  imports BC_Verifier BC_Passes
begin

text \<open>
  The pass \<^verbatim>\<open>ClamBCRemoveFreezeInsts.cpp\<close>: every freeze instruction is replaced by its operand. Which
  instructions are freeze instructions is the parameter that the verifier has too.
\<close>

section \<open>Freeze instructions\<close>

definition freeze_operand :: "verifier_env \<Rightarrow> inst \<Rightarrow> val option" where
  "freeze_operand V i = (case inst_kind i of OtherInst [v] \<Rightarrow> if is_freeze V i then Some v else None | _ \<Rightarrow> None)"

definition gatherFreezeInsts :: "verifier_env \<Rightarrow> bfunction \<Rightarrow> nat list" where
  "gatherFreezeInsts V f = map inst_id (filter (\<lambda>i. freeze_operand V i \<noteq> None) (f_insts f))"

text \<open>One round of the loop: the instruction as it is by then gives its operand to its users.\<close>

definition freeze_source :: "nat \<Rightarrow> inst list \<Rightarrow> val option" where
  "freeze_source n is = Option.bind (find (\<lambda>i. inst_id i = n) is) (\<lambda>i.
     case operands (inst_kind i) of [] \<Rightarrow> None | v # _ \<Rightarrow> Some v)"

definition replace_freeze :: "nat \<Rightarrow> val \<Rightarrow> inst list \<Rightarrow> inst list" where
  "replace_freeze n v b = map (replaceAllUsesWith n v) (filter (\<lambda>i. inst_id i \<noteq> n) b)"

definition removeFreeze :: "nat \<Rightarrow> bfunction \<Rightarrow> bfunction" where
  "removeFreeze n f = (case freeze_source n (f_insts f) of None \<Rightarrow> f
     | Some v \<Rightarrow> f\<lparr>f_blocks := map (replace_freeze n v) (f_blocks f)\<rparr>)"

definition processFunction_freeze :: "verifier_env \<Rightarrow> bfunction \<Rightarrow> bfunction" where
  "processFunction_freeze V f = fold removeFreeze (gatherFreezeInsts V f) f"

text \<open>The pass, with whether it reports a change.\<close>

definition run_freeze :: "verifier_env \<Rightarrow> mfunction list \<Rightarrow> mfunction list \<times> bool" where
  "run_freeze V fs =
     (map (\<lambda>f. if mf_isDeclaration f then f else f\<lparr>mf_body := processFunction_freeze V (mf_body f)\<rparr>) fs,
      list_ex (\<lambda>f. \<not> mf_isDeclaration f \<and> gatherFreezeInsts V (mf_body f) \<noteq> []) fs)"

section \<open>Values are kept\<close>

text \<open>The same instruction, with operands that have the same values.\<close>

definition same_inst :: "nat list \<Rightarrow> (nat \<Rightarrow> nat) \<Rightarrow> inst \<Rightarrow> inst \<Rightarrow> bool" where
  "same_inst args env i j \<longleftrightarrow> inst_id j = inst_id i \<and> inst_ty j = inst_ty i
     \<and> (\<exists>g. inst_kind j = map_operands g (inst_kind i) \<and> (\<forall>v. operand_value args env (g v) = operand_value args env v))"

definition refers_to :: "inst \<Rightarrow> nat \<Rightarrow> bool" where
  "refers_to i n \<longleftrightarrow> list_ex (\<lambda>v. val_key v = Some (InstKey n)) (operands (inst_kind i))"

definition freeze_at :: "nat list \<Rightarrow> (nat \<Rightarrow> nat) \<Rightarrow> (nat \<Rightarrow> nat) \<Rightarrow> inst list \<Rightarrow> nat list \<Rightarrow> nat \<Rightarrow> bool" where
  "freeze_at args env rank is ns n \<longleftrightarrow> (\<exists>i \<in> set is. inst_id i = n \<and> (\<exists>v. inst_kind i = OtherInst [v]
     \<and> operand_value args env v = Some (env n) \<and> (\<forall>m \<in> set ns. val_key v = Some (InstKey m) \<longrightarrow> rank m < rank n)))"

definition freeze_inv :: "nat list \<Rightarrow> (nat \<Rightarrow> nat) \<Rightarrow> (nat \<Rightarrow> nat) \<Rightarrow> inst list \<Rightarrow> nat list \<Rightarrow> nat list \<Rightarrow> inst list \<Rightarrow> bool" where
  "freeze_inv args env rank is0 gone ns is \<longleftrightarrow> distinct (map inst_id is)
     \<and> (\<forall>n \<in> set ns. freeze_at args env rank is ns n)
     \<and> list_all2 (same_inst args env) (filter (\<lambda>i. inst_id i \<notin> set gone) is0) is
     \<and> (\<forall>i \<in> set is. \<forall>m \<in> set gone. \<not> refers_to i m)"

lemma val_key_InstKey [simp]: "val_key v = Some (InstKey n) \<longleftrightarrow> (\<exists>t. v = VInst t n)"
  by (cases v rule: val_key.cases) auto

lemma replace_use_value:
  "operand_value args env v = Some (env n) \<Longrightarrow> operand_value args env (replace_use n v u) = operand_value args env u"
  by (auto simp: replace_use_def)

lemma same_inst_replace:
  assumes "same_inst args env i j" "operand_value args env v = Some (env n)"
  shows "same_inst args env i (replaceAllUsesWith n v j)"
proof -
  obtain g where g: "inst_kind j = map_operands g (inst_kind i)" "\<forall>v. operand_value args env (g v) = operand_value args env v"
    using assms(1) by (auto simp: same_inst_def)
  have "map_operands (replace_use n v) (inst_kind j) = map_operands (replace_use n v \<circ> g) (inst_kind i)"
    unfolding g(1) by (cases "inst_kind i") (auto simp: option.map_comp)
  then show ?thesis using assms g(2) replace_use_value[OF assms(2)]
    unfolding same_inst_def by (intro conjI exI[of _ "replace_use n v \<circ> g"]) auto
qed

lemma freeze_atE:
  assumes "freeze_at args env rank is ns n"
  obtains i v where "i \<in> set is" "inst_id i = n" "inst_kind i = OtherInst [v]" "operand_value args env v = Some (env n)"
    "\<And>m. m \<in> set ns \<Longrightarrow> val_key v = Some (InstKey m) \<Longrightarrow> rank m < rank n"
  using assms unfolding freeze_at_def by blast

lemma map_operands_id: "map_operands id k = k"
  by (cases k) (auto simp: option.map_id map_idI)

lemma refers_replace:
  "refers_to (replaceAllUsesWith n v i) m \<longleftrightarrow> refers_to i m \<and> m \<noteq> n \<or> refers_to i n \<and> val_key v = Some (InstKey m)"
  by (auto simp: refers_to_def list_ex_iff replace_use_def)

lemma freeze_source_eq:
  assumes "distinct (map inst_id is)" "i \<in> set is" "inst_id i = n" "inst_kind i = OtherInst [v]"
  shows "freeze_source n is = Some v"
proof -
  have "find (\<lambda>i. inst_id i = n) is = Some i"
    using assms(1-3) by (induction "is") force+
  then show ?thesis using assms(4) by (simp add: freeze_source_def)
qed

text \<open>A round keeps the values of the instructions that stay, and leaves no use of the one that goes.\<close>

lemma freeze_inv_step:
  assumes "freeze_inv args env rank is0 gone (n # ns) is" "n \<notin> set ns"
  obtains v where "freeze_source n is = Some v"
    "freeze_inv args env rank is0 (n # gone) ns (replace_freeze n v is)"
proof -
  have d: "distinct (map inst_id is)" and fr: "\<And>m. m \<in> set (n # ns) \<Longrightarrow> freeze_at args env rank is (n # ns) m"
    and same: "list_all2 (same_inst args env) (filter (\<lambda>i. inst_id i \<notin> set gone) is0) is"
    and gone: "\<And>i m. i \<in> set is \<Longrightarrow> m \<in> set gone \<Longrightarrow> \<not> refers_to i m"
    using assms(1) unfolding freeze_inv_def by blast+
  obtain i v where i: "i \<in> set is" "inst_id i = n" "inst_kind i = OtherInst [v]" "operand_value args env v = Some (env n)"
      and r: "\<And>m. m \<in> set (n # ns) \<Longrightarrow> val_key v = Some (InstKey m) \<Longrightarrow> rank m < rank n"
    by (rule freeze_atE[OF fr, of n]) (simp, rule that)
  have v: "val_key v \<noteq> Some (InstKey m)" if "m \<in> set (n # gone)" for m
    using that gone[OF i(1), of m] r[of n] i(3) unfolding refers_to_def by auto
  have "freeze_at args env rank (replace_freeze n v is) ns m" if m: "m \<in> set ns" for m
  proof -
    obtain j u where j: "j \<in> set is" "inst_id j = m" "inst_kind j = OtherInst [u]" "operand_value args env u = Some (env m)"
        and ru: "\<And>k. k \<in> set (n # ns) \<Longrightarrow> val_key u = Some (InstKey k) \<Longrightarrow> rank k < rank m"
      by (rule freeze_atE[OF fr, of m]) (simp add: m, rule that)
    have "replaceAllUsesWith n v j \<in> set (replace_freeze n v is)" using j(1,2) m assms(2) by (auto simp: replace_freeze_def)
    moreover have "rank k < rank m" if "k \<in> set ns" "val_key (replace_use n v u) = Some (InstKey k)" for k
      using that ru[of k] ru[of n] r[of k] by (auto simp: replace_use_def split: if_splits)
    ultimately show ?thesis
      unfolding freeze_at_def using j(2-4) replace_use_value[OF i(4)] by (intro bexI[of _ "replaceAllUsesWith n v j"]) auto
  qed
  moreover have "list_all2 (same_inst args env) (filter (\<lambda>i. inst_id i \<notin> set (n # gone)) is0) (replace_freeze n v is)"
  proof -
    have "filter (\<lambda>i. inst_id i \<notin> set (n # gone)) is0 = filter (\<lambda>i. inst_id i \<noteq> n) (filter (\<lambda>i. inst_id i \<notin> set gone) is0)"
      by (auto intro: filter_cong)
    moreover have "list_all2 (same_inst args env) (filter (\<lambda>i. inst_id i \<noteq> n) xs) (replace_freeze n v ys)"
      if "list_all2 (same_inst args env) xs ys" for xs ys
      using that by (induction rule: list_all2_induct)
        (auto simp: replace_freeze_def same_inst_replace[OF _ i(4)], auto simp: same_inst_def)
    ultimately show ?thesis using same by metis
  qed
  moreover have "distinct (map inst_id (replace_freeze n v is))"
    using d by (simp add: replace_freeze_def comp_def distinct_map_filter)
  moreover have "\<not> refers_to j m" if "j \<in> set (replace_freeze n v is)" "m \<in> set (n # gone)" for j m
    using that gone v[of m] by (auto simp: replace_freeze_def refers_replace simp del: val_key_InstKey)
  ultimately have "freeze_inv args env rank is0 (n # gone) ns (replace_freeze n v is)"
    unfolding freeze_inv_def by blast
  then show ?thesis using that freeze_source_eq[OF d i(1-3)] by blast
qed

lemma f_insts_removeFreeze:
  "freeze_source n (f_insts f) = Some v \<Longrightarrow> f_insts (removeFreeze n f) = replace_freeze n v (f_insts f)"
  by (simp add: removeFreeze_def f_insts_def replace_freeze_def[abs_def] map_concat filter_concat comp_def)

lemma freeze_inv_fold:
  assumes "freeze_inv args env rank is0 gone ns (f_insts f)" "distinct ns"
  shows "freeze_inv args env rank is0 (rev ns @ gone) [] (f_insts (fold removeFreeze ns f))"
  using assms
proof (induction ns arbitrary: gone f)
  case (Cons n ns)
  obtain v where v: "freeze_source n (f_insts f) = Some v"
      "freeze_inv args env rank is0 (n # gone) ns (replace_freeze n v (f_insts f))"
    using freeze_inv_step[OF Cons.prems(1)] Cons.prems(2) by auto
  then show ?case using Cons.IH[of "n # gone" "removeFreeze n f"] Cons.prems(2) by (simp add: f_insts_removeFreeze)
qed simp

text \<open>
  C14: removing the freeze instructions of a function keeps the other instructions in order with
  their numbers and types, and every operand keeps its value, whenever a freeze instruction has the
  value of its operand (it is defined); nothing refers to a removed instruction. Freeze
  instructions of freeze instructions are allowed, in any order of the blocks; only a circle of
  them, which the ranking excludes, is not.
\<close>

theorem freeze_removed:
  fixes rank :: "nat \<Rightarrow> nat"
  assumes "distinct (map inst_id (f_insts f))"
    and "\<forall>i \<in> set (f_insts f). \<forall>v. freeze_operand V i = Some v \<longrightarrow> operand_value args env v = Some (env (inst_id i))
      \<and> (\<forall>m \<in> set (gatherFreezeInsts V f). val_key v = Some (InstKey m) \<longrightarrow> rank m < rank (inst_id i))"
  shows "list_all2 (same_inst args env) (filter (\<lambda>i. freeze_operand V i = None) (f_insts f))
      (f_insts (processFunction_freeze V f))
    \<and> (\<forall>i \<in> set (f_insts (processFunction_freeze V f)). \<forall>m \<in> set (gatherFreezeInsts V f). \<not> refers_to i m)"
proof -
  let ?ns = "gatherFreezeInsts V f"
  have "same_inst args env i i" for i
    unfolding same_inst_def by (intro conjI exI[of _ id]) (auto simp: map_operands_id)
  then have "list_all2 (same_inst args env) (filter (\<lambda>i. inst_id i \<notin> set []) (f_insts f)) (f_insts f)"
    by (simp add: list_all2_refl)
  moreover have "freeze_at args env rank (f_insts f) ?ns n" if n: "n \<in> set ?ns" for n
  proof -
    obtain i v where i: "i \<in> set (f_insts f)" "inst_id i = n" "freeze_operand V i = Some v"
      using n unfolding gatherFreezeInsts_def by auto
    then have "inst_kind i = OtherInst [v]"
      by (auto simp: freeze_operand_def split: BC_IR.kind.splits list.splits if_splits)
    then show ?thesis unfolding freeze_at_def using i assms(2) by blast
  qed
  ultimately have "freeze_inv args env rank (f_insts f) [] ?ns (f_insts f)"
    using assms(1) by (simp add: freeze_inv_def)
  moreover have "distinct ?ns" using assms(1) by (simp add: gatherFreezeInsts_def distinct_map_filter)
  ultimately have inv: "freeze_inv args env rank (f_insts f) (rev ?ns) [] (f_insts (processFunction_freeze V f))"
    using freeze_inv_fold[of args env rank "f_insts f" "[]" ?ns f] by (simp add: processFunction_freeze_def)
  have "inst_id i \<in> set ?ns \<longleftrightarrow> freeze_operand V i \<noteq> None" if "i \<in> set (f_insts f)" for i
    using that assms(1) by (auto simp: gatherFreezeInsts_def distinct_map dest: inj_onD)
  then have "filter (\<lambda>i. inst_id i \<notin> set (rev ?ns)) (f_insts f) = filter (\<lambda>i. freeze_operand V i = None) (f_insts f)"
    by (intro filter_cong) auto
  then show ?thesis using inv unfolding freeze_inv_def by simp
qed

text \<open>The sum of a value with itself, frozen twice.\<close>

definition frozen_sum :: bfunction where
  "frozen_sum = mf_body (new_function ''sum'' [IntTy 32] (IntTy 32)
     [[an_inst 0 (IntTy 32) (OtherInst [VArg (IntTy 32) 0]), an_inst 1 (IntTy 32) (OtherInst [VInst (IntTy 32) 0]),
       an_inst 2 (IntTy 32) (Binary Add (VInst (IntTy 32) 1) (VInst (IntTy 32) 1)),
       an_inst 3 VoidTy (Return (Some (VInst (IntTy 32) 2)))]])"

definition freeze_env :: verifier_env where
  "freeze_env = \<lparr>is_freeze = (\<lambda>i. True), cast_callee = (\<lambda>_. None)\<rparr>"

theorem freeze_removed_witness:
  "list_all2 (same_inst [5] (\<lambda>n. if n = 2 then 10 else 5))
      (filter (\<lambda>i. freeze_operand freeze_env i = None) (f_insts frozen_sum))
      (f_insts (processFunction_freeze freeze_env frozen_sum))
    \<and> map (operands \<circ> inst_kind) (f_insts (processFunction_freeze freeze_env frozen_sum))
      = [[VArg (IntTy 32) 0, VArg (IntTy 32) 0], [VInst (IntTy 32) 2]]"
proof -
  have "distinct (map inst_id (f_insts frozen_sum))" by code_simp
  moreover have "\<forall>i \<in> set (f_insts frozen_sum). \<forall>v. freeze_operand freeze_env i = Some v \<longrightarrow>
      operand_value [5] (\<lambda>n. if n = 2 then 10 else 5) v = Some (if inst_id i = 2 then 10 else 5)
      \<and> (\<forall>m \<in> set (gatherFreezeInsts freeze_env frozen_sum). val_key v = Some (InstKey m) \<longrightarrow> m < inst_id i)"
    by (auto simp: frozen_sum_def new_function_def f_insts_def freeze_operand_def freeze_env_def)
  moreover have "map (operands \<circ> inst_kind) (f_insts (processFunction_freeze freeze_env frozen_sum))
      = [[VArg (IntTy 32) 0, VArg (IntTy 32) 0], [VInst (IntTy 32) 2]]"
    by code_simp
  ultimately show ?thesis
    using freeze_removed[of frozen_sum freeze_env "[5]" "\<lambda>n. if n = 2 then 10 else 5" "\<lambda>n. n"] by blast
qed

end
