(* ===== verification/Spec2Isabelle.thy ===== *)
theory Spec2Isabelle
  imports BC_PE BC_Match BC_Scanner BC_Ilog BC_Header BC_TypeFormat BC_RegSem BC_LogicFields BC_Intrinsics BC_Verifier BC_Passes BC_PreserveABI BC_Freeze
begin

text \<open>
  The ClamAV bytecode compiler. A bytecode is a C program for the virus scanner. Clang turns it
  into LLVM code against the headers in \<^verbatim>\<open>src/headers\<close>; the passes in \<^verbatim>\<open>src/libclambcc\<close> check and
  simplify the code, compile its logical signature, number its types, functions and values, and
  write the text file that the engine loads and interprets. The development models the code of
  these two directories in the order in which a bytecode meets it.

  \<^bold>\<open>Shared data.\<close>
  \<^item> \<^theory_text>\<open>BC_Prelude\<close>: the integer types of \<^verbatim>\<open>bytecode_types.h\<close> as words, bytes in memory, decimal
    numbers, list access with a failure case.
  \<^item> \<^theory_text>\<open>BC_IR\<close>: types, constants, values, instructions, functions and modules of LLVM, with one
    constructor per class that the passes distinguish.

  \<^bold>\<open>The header library\<close> (\<^verbatim>\<open>headers/bytecode_local.h\<close> and the files it includes).
  \<^item> \<^theory_text>\<open>BC_Endian\<close>: byte order and unaligned access. The locale \<^theory_text>\<open>byte_order\<close> states what a
    conversion promises and is interpreted for 16, 32 and 64 bits.
  \<^item> \<^theory_text>\<open>BC_Enums\<close>, \<^theory_text>\<open>BC_Env\<close>: enumerations of the API, the globals and functions a bytecode sees of
    the engine. The engine is a parameter with the documented behaviour as hypotheses.
  \<^item> \<^theory_text>\<open>BC_PE_Structs\<close>, \<^theory_text>\<open>BC_PE\<close>: the structures of portable executables and their accessors; they
    agree on hosts of either byte order and have no value outside a hook for such files.
  \<^item> \<^theory_text>\<open>BC_Match\<close>, \<^theory_text>\<open>BC_Scanner\<close>, \<^theory_text>\<open>BC_Disasm\<close>, \<^theory_text>\<open>BC_Ilog\<close>: matches and memory helpers, the buffer
    of generated scanners with its invariant, the decoding of a disassembled instruction, and
    the logarithm table with the exact inputs on which it divides by zero.
  \<^item> \<^theory_text>\<open>BC_ApiTable\<close>: the declared API against the tables through which the engine serves it
    (\<^verbatim>\<open>bytecode_api.h\<close>, \<^verbatim>\<open>bytecode_api_decl.c.h\<close>): every call has its slot and its types.

  \<^bold>\<open>Simplifying passes and the verifier.\<close>
  \<^item> \<^theory_text>\<open>BC_Intrinsics\<close>: the passes that remove intrinsics and comparisons the interpreter does not
    have (\<^verbatim>\<open>ClamBCRemoveUnsupportedICMPIntrinsics\<close>, \<^verbatim>\<open>ClamBCRemoveUSUB\<close>, \<^verbatim>\<open>ClamBCRemoveFSHL\<close>,
    \<^verbatim>\<open>ClamBCRemoveICMPSLE\<close>): the functions they generate compute the intrinsics, the calls are
    redirected to them, and a comparison with its operands swapped means the same.
  \<^item> \<^theory_text>\<open>BC_Verifier\<close>: the verifier (\<^verbatim>\<open>ClamBCVerifier.cpp\<close>), with exactly what it accepts.
  \<^item> \<^theory_text>\<open>BC_Passes\<close>: lengths of memory intrinsics cut to 32 bits (\<^verbatim>\<open>ClamBCConvertIntrinsicsTo32Bit\<close>),
    phi nodes of 64 bits (\<^verbatim>\<open>ClamBCExtendPHIsTo64Bit\<close>), whose values are kept, and the outlined
    question for the byte order (\<^verbatim>\<open>ClamBCOutlineEndiannessCalls\<close>).
  \<^item> \<^theory_text>\<open>BC_PreserveABI\<close>: the calls that keep the parameters of functions from the optimiser
    (\<^verbatim>\<open>ClamBCPreserveABIs\<close>); the second run of the pass undoes the first.
  \<^item> \<^theory_text>\<open>BC_Freeze\<close>: freeze instructions (\<^verbatim>\<open>ClamBCRemoveFreezeInsts\<close>), removed with the values of all
    operands kept.

  \<^bold>\<open>The logical signature compiler\<close> (\<^verbatim>\<open>ClamBCLogicalCompiler.cpp\<close>, \<^verbatim>\<open>ClamBCUtilities.cpp\<close>).
  \<^item> \<^theory_text>\<open>BC_LogicNode\<close>, \<^theory_text>\<open>BC_LogicSound\<close>: logical expressions, the constructors that simplify them,
    and that the simplifications keep the meaning. Sets and maps of nodes are ordered by
    addresses in the code; the order, and the ranges computed by LLVM, are the parameter
    \<^theory_text>\<open>llvm\<close> with the laws \<^theory_text>\<open>llvm_laws\<close>.
  \<^item> \<^theory_text>\<open>BC_LogicCompile\<close>, \<^theory_text>\<open>BC_LogicRoutes\<close>, \<^theory_text>\<open>BC_LogicTrigger\<close>, \<^theory_text>\<open>BC_LogicCorrect\<close>: the compilation of
    the trigger function block by block, with phi nodes by the routes that lead to them. The
    routes are enumerated with fuel; one more than the number of blocks is always enough. For
    loop-free functions with one return the expression means what the function computes.
  \<^item> \<^theory_text>\<open>BC_LogicText\<close>: the text of an expression and a reader of it, whose fuel is the depth of
    the expression.
  \<^item> \<^theory_text>\<open>BC_CallGraph\<close>: the search for recursion, as a search over a list of pending instructions
    with a termination proof, equivalent to reachability in the call graph.
  \<^item> \<^theory_text>\<open>BC_LogicSig\<close>: patterns, functionality levels, virus names, the text of the signature and
    the pass as a whole. Constant strings are LLVM's and are the parameter \<^theory_text>\<open>strings\<close>.
  \<^item> \<^theory_text>\<open>BC_LogicNames\<close>: only declared virus names are reported. \<^theory_text>\<open>BC_LogicFields\<close>: the signature can
    be taken apart at its semicolons, and its expression means the trigger function.

  \<^bold>\<open>Numbering\<close> (\<^verbatim>\<open>ClamBCAnalyzer.cpp\<close>, \<^verbatim>\<open>ClamBCRegAlloc.cpp\<close>).
  \<^item> \<^theory_text>\<open>BC_Analysis\<close>: numbers of types, functions, API calls and globals, injective, in order and
    closed under parts.
  \<^item> \<^theory_text>\<open>BC_Phi\<close>: replacement of phi nodes by stack slots keeps the behaviour of a function.
  \<^item> \<^theory_text>\<open>BC_RegAlloc\<close>, \<^theory_text>\<open>BC_RegSem\<close>: value numbers and the reverse map; a function run on its
    registers behaves like the function when the numbers are valid along every path, and a
    loop on which the allocation is not.

  \<^bold>\<open>The writer\<close> (\<^verbatim>\<open>ClamBCWriter.cpp\<close>).
  \<^item> \<^theory_text>\<open>BC_Encode\<close>, \<^theory_text>\<open>BC_Codec\<close>: numbers and strings in the text format. The locale \<^theory_text>\<open>codec\<close> is a
    printer with a reader that undoes it; it is extended by sequences and choices and
    interpreted on the printers.
  \<^item> \<^theory_text>\<open>BC_Instr\<close>, \<^theory_text>\<open>BC_InstrFormat\<close>: the visitor of every instruction, and that what it writes reads
    back as opcode and operands.
  \<^item> \<^theory_text>\<open>BC_Writer\<close>: tables, functions, lines, header and the embedded source.
    \<^theory_text>\<open>BC_Lines\<close>: no line is longer than the header announces. \<^theory_text>\<open>BC_Header\<close>, \<^theory_text>\<open>BC_TypeFormat\<close>,
    \<^theory_text>\<open>BC_FunctionFormat\<close>: the header, the type table and whole functions read back, and the
    address computations rewritten before writing compute the same addresses.

  Errors are values: \<^theory_text>\<open>Inl\<close> with the message of a stop or a failed assertion in the writer and the
  analysis, \<^theory_text>\<open>Crash\<close> and \<^theory_text>\<open>Reject\<close> in the logical compiler, \<^theory_text>\<open>None\<close> for accesses past the end of an
  object. Machine integers are words of their width. Readers of lists take fuel bounded by the
  number of items the text announces; the theorems state that the fuel given is enough.

  \<^bold>\<open>Not modelled.\<close> The remaining transformation passes (lowering, rebuilding of functions,
  removal of undefined values and pointer phi nodes, preparation of address computations,
  sizes of allocations, tracing) are sequences of calls of LLVM's rewriting
  interface on single instructions, over use lists, dominators and data layouts whose behaviour
  is LLVM's. The interface generator drives the Clang syntax tree and the compiler driver runs other programs.
  The headers for vector instructions and standard types are Clang's own. Inside modelled parts,
  the writing of debug information, which the code disables, the dump of the value map to a side
  file, and the text of diagnostics are left out.
\<close>

end
